(* ===== verification/Prelude.thy ===== *)
theory Prelude
  imports Complex_Main "HOL-Library.Word" "HOL-Library.AList" "HOL-Library.Char_ord"
begin

unbundle bit_operations_syntax

text \<open>
  Shared vocabulary of the development: the Go types the code uses (byte slices, machine
  words, truncating remainder), decimal formatting, big-endian integers as
  \<^verbatim>\<open>encoding/binary\<close> writes them, and the generic facts on association lists
  (the model of a Go map), list updates and sums that the component theories use.

  Conventions. A Go \<^verbatim>\<open>string\<close> is a \<^verbatim>\<open>string\<close> (a Go string is a sequence of bytes, so
  \<^verbatim>\<open>len\<close> is \<^verbatim>\<open>length\<close>), a \<^verbatim>\<open>[]byte\<close> a list of 8-bit words, \<^verbatim>\<open>uint32\<close> and
  \<^verbatim>\<open>uint64\<close> are words of their width, \<^verbatim>\<open>int\<close> and \<^verbatim>\<open>time.Duration\<close> are mathematical
  integers (their 64-bit range is out of reach of the values the code computes). An
  operation whose Go code can panic at run time returns an option, \<^verbatim>\<open>None\<close> being the
  panic.
\<close>

named_theorems frame_simps \<open>which fields an operation leaves unchanged\<close>
named_theorems inv_intros \<open>preservation of a component's invariant\<close>

type_synonym byte = "8 word"
type_synonym bytes = "8 word list"
type_synonym u32 = "32 word"
type_synonym u64 = "64 word"

subsection \<open>Integers\<close>

text \<open>Go's \<^verbatim>\<open>/\<close> and \<^verbatim>\<open>%\<close> on signed integers truncate towards zero.\<close>

definition go_quot :: "int \<Rightarrow> int \<Rightarrow> int" where
  "go_quot a b = sgn a * sgn b * (\<bar>a\<bar> div \<bar>b\<bar>)"

definition go_rem :: "int \<Rightarrow> int \<Rightarrow> int" where
  "go_rem a b = sgn a * (\<bar>a\<bar> mod \<bar>b\<bar>)"

lemma go_quot_nonneg [simp]: "0 \<le> a \<Longrightarrow> 0 < b \<Longrightarrow> go_quot a b = a div b"
  by (cases "a = 0") (auto simp: go_quot_def)

lemma go_rem_nonneg [simp]: "0 \<le> a \<Longrightarrow> 0 < b \<Longrightarrow> go_rem a b = a mod b"
  by (cases "a = 0") (auto simp: go_rem_def)

lemma unat_succ_less: "a < b \<Longrightarrow> unat (a + 1) = Suc (unat a)" for a b :: "'a::len word"
proof -
  assume "a < b"
  then have "unat a < unat b" by (simp add: word_less_nat_alt)
  moreover have "unat b < 2 ^ LENGTH('a)" by (rule unsigned_less)
  ultimately have "Suc (unat a) < 2 ^ LENGTH('a)" by linarith
  then show ?thesis by (simp add: unat_word_ariths)
qed

text \<open>The decimal digits \<^verbatim>\<open>fmt\<close> prints for \<^verbatim>\<open>%d\<close>.\<close>

fun nat_digits :: "nat \<Rightarrow> string" where
  "nat_digits n =
     (if n < 10 then [char_of (48 + n)] else nat_digits (n div 10) @ [char_of (48 + n mod 10)])"

declare nat_digits.simps [simp del]

definition fmt_d :: "int \<Rightarrow> string" where
  "fmt_d i = (if i < 0 then CHR ''-'' # nat_digits (nat (- i)) else nat_digits (nat i))"

lemma set_nat_digits: "x \<in> set (nat_digits n) \<Longrightarrow> of_char x \<in> {48..57::nat}"
proof (induction n rule: nat_digits.induct)
  case (1 n)
  then show ?case
    by (cases "n < 10") (auto simp: nat_digits.simps [of n])
qed

lemma nat_digits_nonempty: "nat_digits n \<noteq> []"
  by (simp add: nat_digits.simps [of n])

text \<open>The digits determine the number.\<close>

definition digits_val :: "string \<Rightarrow> nat" where
  "digits_val s = foldl (\<lambda>a c. a * 10 + (of_char c - 48)) 0 s"

lemma digits_val_nat_digits: "digits_val (nat_digits n) = n"
proof (induction n rule: nat_digits.induct)
  case (1 n)
  show ?case
  proof (cases "n < 10")
    case True
    then show ?thesis by (simp add: nat_digits.simps [of n] digits_val_def)
  next
    case False
    then have "digits_val (nat_digits n) = digits_val (nat_digits (n div 10)) * 10 + n mod 10"
      by (simp add: nat_digits.simps [of n] digits_val_def)
    then show ?thesis using 1 False by simp
  qed
qed

lemma nat_digits_inj [simp]: "nat_digits m = nat_digits n \<longleftrightarrow> m = n"
  by (metis digits_val_nat_digits)

text \<open>
  \<^verbatim>\<open>float64\<close>: the finite values (each is a rational number), the infinities (\<open>True\<close> for
  the positive one) and NaN. Comparisons follow IEEE 754: with NaN every one is false. Where
  the code computes with floats, the component's theory says how it rounds.
\<close>

datatype f64 = F64 rat | F64_Inf bool | F64_NaN

fun f64_less :: "f64 \<Rightarrow> f64 \<Rightarrow> bool" where
  "f64_less F64_NaN _ = False"
| "f64_less _ F64_NaN = False"
| "f64_less (F64 x) (F64 y) = (x < y)"
| "f64_less (F64 x) (F64_Inf p) = p"
| "f64_less (F64_Inf p) (F64 y) = (\<not> p)"
| "f64_less (F64_Inf p) (F64_Inf q) = (\<not> p \<and> q)"

fun f64_le :: "f64 \<Rightarrow> f64 \<Rightarrow> bool" where
  "f64_le F64_NaN _ = False"
| "f64_le _ F64_NaN = False"
| "f64_le (F64 x) (F64 y) = (x \<le> y)"
| "f64_le (F64 x) (F64_Inf p) = p"
| "f64_le (F64_Inf p) (F64 y) = (\<not> p)"
| "f64_le (F64_Inf p) (F64_Inf q) = (p \<longrightarrow> q)"

subsection \<open>Big-endian integers\<close>

fun be_enc :: "nat \<Rightarrow> nat \<Rightarrow> bytes" where
  "be_enc 0 x = []"
| "be_enc (Suc n) x = be_enc n (x div 256) @ [of_nat x]"

definition be_dec :: "bytes \<Rightarrow> nat" where
  "be_dec bs = foldl (\<lambda>a b. a * 256 + unat b) 0 bs"

lemma length_be_enc [simp]: "length (be_enc n x) = n"
  by (induction n arbitrary: x) auto

lemma be_dec_Nil [simp]: "be_dec [] = 0"
  by (simp add: be_dec_def)

lemma be_dec_snoc [simp]: "be_dec (bs @ [b]) = be_dec bs * 256 + unat b"
  by (simp add: be_dec_def)

lemma be_dec_enc: "be_dec (be_enc n x) = x mod 256 ^ n"
proof (induction n arbitrary: x)
  case 0
  show ?case by simp
next
  case (Suc n)
  have "unat (of_nat x :: 8 word) = x mod 256"
    by (simp add: unat_of_nat)
  then show ?case
    by (simp add: Suc mod_mult2_eq)
qed

lemma be_dec_bound: "be_dec bs < 256 ^ length bs"
proof (induction bs rule: rev_induct)
  case Nil
  show ?case by simp
next
  case (snoc b bs)
  have "unat b < 256" using unsigned_less [of b, where 'a = nat] by simp
  with snoc show ?case by simp
qed

subsection \<open>Association lists as Go maps\<close>

lemma AList_map_of_update [simp]: "map_of (AList.update k v al) = (map_of al)(k \<mapsto> v)"
  by (rule AList.update_conv')

lemma AList_map_of_delete [simp]: "map_of (AList.delete k al) = (map_of al)(k := None)"
  by (rule AList.delete_conv')

lemma distinct_AList_update [intro, simp]:
  "distinct (map fst al) \<Longrightarrow> distinct (map fst (AList.update k v al))"
  by (rule AList.distinct_update)

lemma distinct_AList_delete [intro, simp]:
  "distinct (map fst al) \<Longrightarrow> distinct (map fst (AList.delete k al))"
  by (rule AList.distinct_delete)

lemma set_AList_delete: "set (AList.delete k al) = {p \<in> set al. fst p \<noteq> k}"
  by (auto simp: AList.delete_eq)

lemma set_AList_update_subset: "set (AList.update k v al) \<subseteq> insert (k, v) (set al)"
  by (induction al) auto

lemma length_AList_delete_less:
  assumes "map_of al k = Some v"
  shows "length (AList.delete k al) < length al"
proof -
  from assms have "(k, v) \<in> set al" by (rule map_of_SomeD)
  then show ?thesis unfolding AList.delete_eq by (auto intro: length_filter_less)
qed

lemma sum_AList_delete:
  fixes f :: "'v \<Rightarrow> 'n::ab_group_add"
  assumes "distinct (map fst al)" and "map_of al k = Some v"
  shows "(\<Sum>(_, x)\<leftarrow>AList.delete k al. f x) = (\<Sum>(_, x)\<leftarrow>al. f x) - f v"
  using assms
proof (induction al)
  case (Cons p al)
  obtain k' v' where p: "p = (k', v')" by force
  show ?case
  proof (cases "k' = k")
    case True
    with Cons.prems p have "k \<notin> fst ` set al" "v' = v" by auto
    then show ?thesis using True p by (simp add: AList.delete_id)
  next
    case False
    with Cons p show ?thesis by (simp add: algebra_simps)
  qed
qed simp

lemma sum_AList_update:
  fixes f :: "'v \<Rightarrow> 'n::ab_group_add"
  assumes "distinct (map fst al)"
  shows "(\<Sum>(_, x)\<leftarrow>AList.update k v al. f x) =
         (\<Sum>(_, x)\<leftarrow>al. f x) - (case map_of al k of None \<Rightarrow> 0 | Some w \<Rightarrow> f w) + f v"
  using assms
  by (induction al) (auto split: option.splits simp: algebra_simps)

subsection \<open>Counting and updating slots\<close>

lemma length_filter_list_update:
  assumes "i < length xs"
  shows "int (length (filter P (xs[i := y]))) =
         int (length (filter P xs)) - (if P (xs ! i) then 1 else 0) + (if P y then 1 else 0)"
  using assms
proof (induction xs arbitrary: i)
  case (Cons x xs)
  show ?case
  proof (cases i)
    case 0
    then show ?thesis by simp
  next
    case (Suc j)
    with Cons.prems have "j < length xs" by simp
    from Cons.IH [OF this] Suc show ?thesis by (simp split: if_splits)
  qed
qed simp

lemma length_filter_list_update_same:
  assumes "i < length xs" and "P y = P (xs ! i)"
  shows "length (filter P (xs[i := y])) = length (filter P xs)"
  using length_filter_list_update [OF assms(1), of P y] assms(2) by (auto split: if_splits)

lemma list_all_list_update: "list_all P xs \<Longrightarrow> P y \<Longrightarrow> list_all P (xs[i := y])"
  by (auto simp: list_all_iff dest!: set_update_subset_insert [THEN subsetD])

lemma sum_list_list_update:
  fixes f :: "'a \<Rightarrow> 'n::ab_group_add"
  assumes "i < length xs"
  shows "(\<Sum>x\<leftarrow>xs[i := y]. f x) = (\<Sum>x\<leftarrow>xs. f x) - f (xs ! i) + f y"
  using assms
proof (induction xs arbitrary: i)
  case (Cons x xs)
  then show ?case by (cases i) (auto simp: algebra_simps)
qed simp

lemma sum_list_update_add:
  fixes f :: "'a \<Rightarrow> 'n::comm_monoid_add"
  assumes "i < length xs"
  shows "(\<Sum>x\<leftarrow>xs[i := y]. f x) + f (xs ! i) = (\<Sum>x\<leftarrow>xs. f x) + f y"
  using assms
proof (induction xs arbitrary: i)
  case (Cons x xs)
  then show ?case by (cases i) (auto simp: ac_simps)
qed simp

subsection \<open>Maps and lists\<close>

lemma map_leD: "m \<subseteq>\<^sub>m m' \<Longrightarrow> m k = Some v \<Longrightarrow> m' k = Some v"
  by (force simp: map_le_def dom_def)

lemma filter_notin_take:
  assumes "distinct xs"
  shows "filter (\<lambda>x. x \<notin> set (take n xs)) xs = drop n xs"
proof -
  have "filter (\<lambda>x. x \<notin> set (take n xs)) (take n xs @ drop n xs) = drop n xs"
    unfolding filter_append
    using assms set_take_disj_set_drop_if_distinct [of xs n n]
    by (auto simp: filter_empty_conv filter_id_conv)
  then show ?thesis by simp
qed

lemma set_update_other: "x \<in> set (xs[i := y]) \<Longrightarrow> x = y \<or> x \<in> set xs"
  using set_update_subset_insert [of xs i y] by auto

end
