(* ===== verification/Hashes.thy ===== *)
theory Hashes
  imports Prelude
begin

text \<open>
  The hash functions the code calls from the standard library: \<^verbatim>\<open>hash/fnv\<close> FNV-1a in its
  32-bit form (shard selection in \<^verbatim>\<open>pkg/l0\<close> and \<^verbatim>\<open>pkg/l1\<close>) and its 64-bit form (the WAL
  checksum in \<^verbatim>\<open>pkg/replay\<close>), and \<^verbatim>\<open>hash/crc32\<close> with the IEEE polynomial (the snapshot
  trailer in \<^verbatim>\<open>pkg/l0\<close>). The lemmas show what the checksums are used for: a hash state is a
  bijective function of the state before it, so two inputs of one length that differ in a
  single byte never have the same checksum.
\<close>

definition bytes_of :: "string \<Rightarrow> bytes" where
  "bytes_of s = map of_char s"

lemma length_bytes_of [simp]: "length (bytes_of s) = length s"
  by (simp add: bytes_of_def)

lemma of_char_byte_inj: "(of_char c :: byte) = of_char d \<longleftrightarrow> c = d"
proof
  assume eq: "(of_char c :: byte) = of_char d"
  have "unat (of_nat (of_char x) :: byte) = of_char x" for x :: char
    by (simp add: unat_of_nat)
  then have "unat (of_char x :: byte) = of_char x" for x :: char by (metis of_nat_of_char)
  with eq have "(of_char c :: nat) = of_char d" by metis
  then show "c = d" by simp
qed simp

subsection \<open>FNV-1a\<close>

definition fnv32a_step :: "u32 \<Rightarrow> byte \<Rightarrow> u32" where
  "fnv32a_step h b = (h XOR ucast b) * 16777619"

definition fnv32a :: "bytes \<Rightarrow> u32" where
  "fnv32a bs = foldl fnv32a_step 2166136261 bs"

definition fnv64a_step :: "u64 \<Rightarrow> byte \<Rightarrow> u64" where
  "fnv64a_step h b = (h XOR ucast b) * 1099511628211"

definition fnv64a :: "bytes \<Rightarrow> u64" where
  "fnv64a bs = foldl fnv64a_step 14695981039346656037 bs"

text \<open>The FNV prime is odd, so it has an inverse modulo the word size and a step can be undone.\<close>

lemma fnv64_prime_inverse: "(1099511628211 :: u64) * 14886173955864302971 = 1"
  by simp

lemma mult_fnv64_prime_cancel:
  fixes a b :: u64
  assumes "a * 1099511628211 = b * 1099511628211"
  shows "a = b"
proof -
  have "a * 1099511628211 * 14886173955864302971 = b * 1099511628211 * 14886173955864302971"
    using assms by simp
  then have "a * (1099511628211 * 14886173955864302971) = b * (1099511628211 * 14886173955864302971)"
    by (simp only: mult.assoc)
  then show ?thesis by (simp only: fnv64_prime_inverse mult_1_right)
qed

lemma xor_cancel_right: "(a XOR c = b XOR c) = (a = b)" for a b c :: "'a::len word"
  by (auto simp add: bit_eq_iff bit_simps)

lemma xor_cancel_left: "(c XOR a = c XOR b) = (a = b)" for a b c :: "'a::len word"
  by (simp add: xor.commute [of c] xor_cancel_right)

lemma ucast_byte_inj: "(ucast a :: u64) = ucast b \<longleftrightarrow> a = b" for a b :: byte
  by transfer (simp add: take_bit_eq_mod)

lemma fnv64a_step_inj_state: "fnv64a_step h b = fnv64a_step h' b \<Longrightarrow> h = h'"
  unfolding fnv64a_step_def
  by (drule mult_fnv64_prime_cancel) (simp add: xor_cancel_right)

lemma fnv64a_step_inj_byte: "fnv64a_step h b = fnv64a_step h b' \<Longrightarrow> b = b'"
  unfolding fnv64a_step_def
  by (drule mult_fnv64_prime_cancel) (simp add: xor_cancel_left ucast_byte_inj)

lemma fnv64a_foldl_inj: "foldl fnv64a_step h bs = foldl fnv64a_step h' bs \<Longrightarrow> h = h'"
  by (induction bs arbitrary: h h') (auto dest: fnv64a_step_inj_state)

lemma fnv64a_single_byte:
  assumes "b \<noteq> b'"
  shows "fnv64a (xs @ b # ys) \<noteq> fnv64a (xs @ b' # ys)"
  using assms by (auto simp: fnv64a_def dest!: fnv64a_foldl_inj fnv64a_step_inj_byte)

lemma fnv64a_append_cancel: "fnv64a (xs @ zs) = fnv64a (ys @ zs) \<longleftrightarrow> fnv64a xs = fnv64a ys"
  by (auto simp: fnv64a_def dest: fnv64a_foldl_inj)

subsection \<open>CRC-32 (IEEE)\<close>

fun crc32_bits :: "nat \<Rightarrow> u32 \<Rightarrow> u32" where
  "crc32_bits 0 c = c"
| "crc32_bits (Suc n) c =
     crc32_bits n (if bit c 0 then drop_bit 1 c XOR 0xEDB88320 else drop_bit 1 c)"

definition crc32_step :: "u32 \<Rightarrow> byte \<Rightarrow> u32" where
  "crc32_step c b = crc32_bits 8 (c XOR ucast b)"

definition crc32 :: "bytes \<Rightarrow> u32" where
  "crc32 bs = NOT (foldl crc32_step 0xFFFFFFFF bs)"

lemma foldl_crc32_append: "crc32 (xs @ ys) = NOT (foldl crc32_step (NOT (crc32 xs)) ys)"
  by (simp add: crc32_def)

text \<open>The check values the two algorithms publish.\<close>

lemma fnv64a_test_vector: "fnv64a (bytes_of ''a'') = 0xaf63dc4c8601ec8c"
  by code_simp

lemma fnv32a_test_vector: "fnv32a (bytes_of ''foobar'') = 0xbf9cf968"
  by code_simp

lemma crc32_test_vector: "crc32 (bytes_of ''123456789'') = 0xCBF43926"
  by code_simp

end
