(* ===== verification/Errors.thy ===== *)
theory Errors
  imports Hashes
begin

text \<open>
  \<^verbatim>\<open>pkg/common\<close>: tiers, error codes and error types with their unwrapping chain, the
  retryability classification, and the cache entry with its weight and expiry. An \<^verbatim>\<open>error\<close>
  value is a \<open>go_error\<close>; the untyped errors of \<^verbatim>\<open>fmt.Errorf\<close> and of the standard library are
  \<open>Errorf\<close> with the text of their format and, where the format ends in \<^verbatim>\<open>%w\<close>, the error they
  wrap, whose text follows; \<open>ErrorfList\<close> is the same with a slice of errors printed by a final
  \<^verbatim>\<open>%v\<close>, which wraps nothing. A nil error is \<^verbatim>\<open>None\<close>.
\<close>

subsection \<open>Tiers\<close>

datatype tier = TierUnknown | TierL0 | TierL1 | TierL2

fun tier_String :: "tier \<Rightarrow> string" where
  "tier_String TierL0 = ''L0''"
| "tier_String TierL1 = ''L1''"
| "tier_String TierL2 = ''L2''"
| "tier_String TierUnknown = ''Unknown''"

text \<open>\<^verbatim>\<open>strings.ToLower\<close> for ASCII input, which is what the tier names are.\<close>

definition to_lower_char :: "char \<Rightarrow> char" where
  "to_lower_char c =
     (let n = of_char c :: nat in if 65 \<le> n \<and> n \<le> 90 then char_of (n + 32) else c)"

definition to_lower :: "string \<Rightarrow> string" where
  "to_lower s = map to_lower_char s"

subsection \<open>Error codes and error values\<close>

datatype err_code =
    ErrCodeConfigInvalid | ErrCodeConfigMissing | ErrCodeConfigValidation
  | ErrCodeInitFailed | ErrCodeOpenFailed | ErrCodeCloseFailed | ErrCodeClosed
  | ErrCodeNotFound | ErrCodeWriteFailed | ErrCodeReadFailed | ErrCodeDeleteFailed
  | ErrCodeCorrupted
  | ErrCodeEvictFailed | ErrCodePromoteFailed | ErrCodeTierFull
  | ErrCodeSinkFailed | ErrCodeSinkRetry | ErrCodeSinkDeadLetter
  | ErrCodeRecoveryFailed | ErrCodeReplayFailed | ErrCodeWALCorrupted
  | ErrCodeInconsistent | ErrCodeCheckpointFailed
  | ErrCodeTimeout | ErrCodeCancelled | ErrCodeInternal

fun err_code_text :: "err_code \<Rightarrow> string" where
  "err_code_text ErrCodeConfigInvalid = ''CONFIG_INVALID''"
| "err_code_text ErrCodeConfigMissing = ''CONFIG_MISSING''"
| "err_code_text ErrCodeConfigValidation = ''CONFIG_VALIDATION''"
| "err_code_text ErrCodeInitFailed = ''INIT_FAILED''"
| "err_code_text ErrCodeOpenFailed = ''OPEN_FAILED''"
| "err_code_text ErrCodeCloseFailed = ''CLOSE_FAILED''"
| "err_code_text ErrCodeClosed = ''CLOSED''"
| "err_code_text ErrCodeNotFound = ''NOT_FOUND''"
| "err_code_text ErrCodeWriteFailed = ''WRITE_FAILED''"
| "err_code_text ErrCodeReadFailed = ''READ_FAILED''"
| "err_code_text ErrCodeDeleteFailed = ''DELETE_FAILED''"
| "err_code_text ErrCodeCorrupted = ''CORRUPTED''"
| "err_code_text ErrCodeEvictFailed = ''EVICT_FAILED''"
| "err_code_text ErrCodePromoteFailed = ''PROMOTE_FAILED''"
| "err_code_text ErrCodeTierFull = ''TIER_FULL''"
| "err_code_text ErrCodeSinkFailed = ''SINK_FAILED''"
| "err_code_text ErrCodeSinkRetry = ''SINK_RETRY''"
| "err_code_text ErrCodeSinkDeadLetter = ''SINK_DEAD_LETTER''"
| "err_code_text ErrCodeRecoveryFailed = ''RECOVERY_FAILED''"
| "err_code_text ErrCodeReplayFailed = ''REPLAY_FAILED''"
| "err_code_text ErrCodeWALCorrupted = ''WAL_CORRUPTED''"
| "err_code_text ErrCodeInconsistent = ''INCONSISTENT''"
| "err_code_text ErrCodeCheckpointFailed = ''CHECKPOINT_FAILED''"
| "err_code_text ErrCodeTimeout = ''TIMEOUT''"
| "err_code_text ErrCodeCancelled = ''CANCELLED''"
| "err_code_text ErrCodeInternal = ''INTERNAL''"

text \<open>
  The dynamic values the code stores in an \<^verbatim>\<open>interface{}\<close>: nil, integers, strings, byte and
  string slices, floats and pointers to a configuration.
\<close>

datatype gval = GNil | GInt int | GStr string | GBytes bytes | GStrs "string list"
  | GFloat f64 | GConfigPtr

datatype go_error =
    ErrCode err_code
  | TieredCacheError (tce_Code: err_code) (tce_Message: string) (tce_Component: string)
      (tce_Tier: tier) (tce_Err: "go_error option") (tce_Retryable: bool)
      (tce_Context: "(string \<times> gval) list option")
  | ConfigError (cfe_Field: string) (cfe_Value: gval) (cfe_Reason: string) (cfe_Suggest: string)
  | InitError (ine_Component: string) (ine_Operation: string) (ine_Err: "go_error option")
      (ine_Retryable: bool)
  | StorageError (ste_Tier: string) (ste_Key: string) (ste_Err: "go_error option")
      (ste_Retryable: bool)
  | RecoveryError (rce_Phase: string) (rce_Position: int) (rce_Err: "go_error option")
  | SinkError (ske_Backend: string) (ske_Action: string) (ske_Err: "go_error option")
      (ske_Retryable: bool)
  | RetryableError (rte_Err: "go_error option") (rte_Retryable: bool) (rte_Attempts: int)
  | Errorf (erf_Text: string) (erf_Wrapped: "go_error option")
  | ErrorfList (erl_Text: string) (erl_Errs: "go_error list")

definition ParseTier :: "string \<Rightarrow> tier \<times> go_error option" where
  "ParseTier s0 =
     (let s = to_lower s0 in
      if s \<in> {''l0'', ''tierl0'', ''memory'', ''otter''} then (TierL0, None)
      else if s \<in> {''l1'', ''tierl1'', ''ssd'', ''badger''} then (TierL1, None)
      else if s \<in> {''l2'', ''tierl2'', ''cold'', ''archive''} then (TierL2, None)
      else (TierUnknown, Some (Errorf (''unknown tier: '' @ s) None)))"

subsection \<open>The unwrapping chain\<close>

text \<open>The \<^verbatim>\<open>Unwrap\<close> methods; a type without one (or one returning nil) ends the chain.\<close>

fun unwrap :: "go_error \<Rightarrow> go_error option" where
  "unwrap (ErrCode c) = None"
| "unwrap (TieredCacheError c m cmp t e r ctx) = e"
| "unwrap (ConfigError f v r s) = None"
| "unwrap (InitError c p e r) = e"
| "unwrap (StorageError t k e r) = e"
| "unwrap (RecoveryError p n e) = e"
| "unwrap (SinkError b a e r) = e"
| "unwrap (RetryableError e r n) = e"
| "unwrap (Errorf t e) = e"
| "unwrap (ErrorfList t es) = None"

lemma size_unwrap [termination_simp]: "unwrap e = Some e' \<Longrightarrow> size e' < size e"
  by (cases e) auto

text \<open>\<^verbatim>\<open>errors.As\<close>: the first error of the chain that has the target's type.\<close>

function errors_As :: "(go_error \<Rightarrow> 'a option) \<Rightarrow> go_error \<Rightarrow> 'a option" where
  "errors_As p e =
     (case p e of Some x \<Rightarrow> Some x
      | None \<Rightarrow> (case unwrap e of None \<Rightarrow> None | Some e' \<Rightarrow> errors_As p e'))"
  by pat_completeness auto
termination
  by (relation "measure (\<lambda>(p, e). size e)") (auto intro: size_unwrap)

declare errors_As.simps [simp del]

fun as_TieredCacheError :: "go_error \<Rightarrow> go_error option" where
  "as_TieredCacheError (TieredCacheError c m cmp t e r ctx) =
     Some (TieredCacheError c m cmp t e r ctx)"
| "as_TieredCacheError _ = None"

fun retry_TieredCacheError :: "go_error \<Rightarrow> bool option" where
  "retry_TieredCacheError (TieredCacheError c m cmp t e r ctx) = Some r"
| "retry_TieredCacheError _ = None"

fun retry_InitError :: "go_error \<Rightarrow> bool option" where
  "retry_InitError (InitError c p e r) = Some r"
| "retry_InitError _ = None"

fun retry_StorageError :: "go_error \<Rightarrow> bool option" where
  "retry_StorageError (StorageError t k e r) = Some r"
| "retry_StorageError _ = None"

fun retry_SinkError :: "go_error \<Rightarrow> bool option" where
  "retry_SinkError (SinkError b a e r) = Some r"
| "retry_SinkError _ = None"

definition IsRetryable :: "go_error option \<Rightarrow> bool" where
  "IsRetryable err =
     (case err of None \<Rightarrow> False
      | Some e \<Rightarrow>
         (case errors_As retry_TieredCacheError e of Some r \<Rightarrow> r
          | None \<Rightarrow>
         (case errors_As retry_InitError e of Some r \<Rightarrow> r
          | None \<Rightarrow>
         (case errors_As retry_StorageError e of Some r \<Rightarrow> r
          | None \<Rightarrow>
         (case errors_As retry_SinkError e of Some r \<Rightarrow> r
          | None \<Rightarrow> False)))))"

definition IsCritical :: "go_error option \<Rightarrow> bool" where
  "IsCritical err = (\<not> IsRetryable err)"

definition AsTieredCacheError :: "go_error option \<Rightarrow> go_error option" where
  "AsTieredCacheError err =
     (case err of None \<Rightarrow> None | Some e \<Rightarrow> errors_As as_TieredCacheError e)"

definition WrapError ::
    "err_code \<Rightarrow> string \<Rightarrow> tier \<Rightarrow> string \<Rightarrow> go_error option \<Rightarrow> go_error" where
  "WrapError code message tr component err =
     TieredCacheError code message component tr err (IsRetryable err) None"

text \<open>\<^verbatim>\<open>WithContext\<close> writes one key of the error's context map, which it creates on first use.\<close>

fun WithContext :: "string \<Rightarrow> gval \<Rightarrow> go_error \<Rightarrow> go_error" where
  "WithContext key v (TieredCacheError c m cmp t e r ctx) =
     TieredCacheError c m cmp t e r
       (Some (AList.update key v (case ctx of None \<Rightarrow> [] | Some al \<Rightarrow> al)))"
| "WithContext key v e = e"

subsection \<open>Constructors\<close>

definition NewConfigError :: "string \<Rightarrow> gval \<Rightarrow> string \<Rightarrow> string list \<Rightarrow> go_error" where
  "NewConfigError field v reason suggest =
     ConfigError field v reason (case suggest of [] \<Rightarrow> [] | s # _ \<Rightarrow> s)"

definition NewInitError :: "string \<Rightarrow> string \<Rightarrow> go_error option \<Rightarrow> bool \<Rightarrow> go_error" where
  "NewInitError component operation err retryable = InitError component operation err retryable"

definition NewStorageError :: "string \<Rightarrow> string \<Rightarrow> go_error option \<Rightarrow> bool \<Rightarrow> go_error" where
  "NewStorageError tr key err retryable = StorageError tr key err retryable"

definition NewRecoveryError :: "string \<Rightarrow> int \<Rightarrow> go_error option \<Rightarrow> go_error" where
  "NewRecoveryError phase position err = RecoveryError phase position err"

definition NewSinkError :: "string \<Rightarrow> string \<Rightarrow> go_error option \<Rightarrow> bool \<Rightarrow> go_error" where
  "NewSinkError backend action err retryable = SinkError backend action err retryable"

subsection \<open>Error texts\<close>

text \<open>
  The \<^verbatim>\<open>Error\<close> methods. \<open>show_v\<close> stands for what \<^verbatim>\<open>fmt\<close> prints for a dynamic value with
  \<^verbatim>\<open>%v\<close>; a nil error inside one of the structs prints as \<^verbatim>\<open><nil>\<close>.
\<close>

definition fmt_bool :: "bool \<Rightarrow> string" where
  "fmt_bool b = (if b then ''true'' else ''false'')"

text \<open>The elements of a slice as \<^verbatim>\<open>fmt\<close> prints them, separated by spaces.\<close>

fun join_sp :: "string list \<Rightarrow> string" where
  "join_sp [] = []"
| "join_sp [x] = x"
| "join_sp (x # y # xs) = x @ '' '' @ join_sp (y # xs)"

function error_text :: "(gval \<Rightarrow> string) \<Rightarrow> go_error \<Rightarrow> string" where
  "error_text show_v (ErrCode c) = err_code_text c"
| "error_text show_v (TieredCacheError c m cmp t e r ctx) =
     (case e of
        Some e' \<Rightarrow> ''['' @ err_code_text c @ ''] '' @ m @ '': '' @ error_text show_v e' @
          '' (component='' @ cmp @ '', tier='' @ tier_String t @ '', retryable='' @ fmt_bool r @ '')''
      | None \<Rightarrow> ''['' @ err_code_text c @ ''] '' @ m @
          '' (component='' @ cmp @ '', tier='' @ tier_String t @ '', retryable='' @ fmt_bool r @ '')'')"
| "error_text show_v (ConfigError f v r s) =
     (if s \<noteq> [] then
        ''config error: field '' @ [CHR 0x27] @ f @ [CHR 0x27] @ '' = '' @ show_v v @ '': '' @ r @
          '' (suggest: '' @ s @ '')''
      else ''config error: field '' @ [CHR 0x27] @ f @ [CHR 0x27] @ '' = '' @ show_v v @ '': '' @ r)"
| "error_text show_v (InitError c p e r) =
     ''init error: '' @ c @ ''.'' @ p @ '' failed: '' @
     (case e of None \<Rightarrow> ''<nil>'' | Some e' \<Rightarrow> error_text show_v e') @
     '' (retryable='' @ fmt_bool r @ '')''"
| "error_text show_v (StorageError t k e r) =
     ''storage error: tier='' @ t @ '', key='' @ k @ '': '' @
     (case e of None \<Rightarrow> ''<nil>'' | Some e' \<Rightarrow> error_text show_v e') @
     '' (retryable='' @ fmt_bool r @ '')''"
| "error_text show_v (RecoveryError p n e) =
     ''recovery error: phase='' @ p @ '', position='' @ fmt_d n @ '': '' @
     (case e of None \<Rightarrow> ''<nil>'' | Some e' \<Rightarrow> error_text show_v e')"
| "error_text show_v (SinkError b a e r) =
     ''sink error: backend='' @ b @ '', action='' @ a @ '': '' @
     (case e of None \<Rightarrow> ''<nil>'' | Some e' \<Rightarrow> error_text show_v e') @
     '' (retryable='' @ fmt_bool r @ '')''"
| "error_text show_v (RetryableError e r n) =
     ''retryable error after '' @ fmt_d n @ '' attempts: '' @
     (case e of None \<Rightarrow> ''<nil>'' | Some e' \<Rightarrow> error_text show_v e')"
| "error_text show_v (Errorf t e) =
     t @ (case e of None \<Rightarrow> [] | Some e' \<Rightarrow> error_text show_v e')"
| "error_text show_v (ErrorfList t es) =
     t @ ''['' @ join_sp (map (error_text show_v) es) @ '']''"
  by pat_completeness auto
termination
  by (relation "measure (\<lambda>(f, e). size e)") (auto intro: le_imp_less_Suc size_list_estimation')

subsection \<open>Time and cache entries\<close>

text \<open>
  A \<^verbatim>\<open>time.Time\<close>: wall clock nanoseconds since the epoch and, for a value that comes from
  \<^verbatim>\<open>time.Now\<close>, the monotonic clock reading. \<^verbatim>\<open>time.Since\<close> uses the monotonic readings when
  both times have one.
\<close>

record go_time =
  tm_wall :: int
  tm_mono :: "int option"

definition time_sub :: "go_time \<Rightarrow> go_time \<Rightarrow> int" where
  "time_sub t u =
     (case (tm_mono t, tm_mono u) of
        (Some a, Some b) \<Rightarrow> a - b
      | _ \<Rightarrow> tm_wall t - tm_wall u)"

definition WeightedUnitBytes :: int where
  "WeightedUnitBytes = 4096"

record cache_entry =
  ce_Key :: string
  ce_Value :: bytes
  ce_Tier :: tier
  ce_Size :: int
  ce_Weight :: int
  ce_CreatedAt :: go_time
  ce_AccessedAt :: go_time
  ce_AccessCount :: u64
  ce_TTL :: int

definition NewCacheEntry :: "go_time \<Rightarrow> string \<Rightarrow> bytes \<Rightarrow> int \<Rightarrow> cache_entry" where
  "NewCacheEntry now key v ttl =
     (let size = int (length v);
          weight = go_quot (size + WeightedUnitBytes - 1) WeightedUnitBytes
      in \<lparr>ce_Key = key, ce_Value = v, ce_Tier = TierL0, ce_Size = size, ce_Weight = weight,
          ce_CreatedAt = now, ce_AccessedAt = now, ce_AccessCount = 1, ce_TTL = ttl\<rparr>)"

definition IsExpired :: "go_time \<Rightarrow> cache_entry \<Rightarrow> bool" where
  "IsExpired now e = (if ce_TTL e \<le> 0 then False else ce_TTL e < time_sub now (ce_CreatedAt e))"

subsection \<open>Properties\<close>

text \<open>The errors of a chain, outermost first.\<close>

function err_chain :: "go_error \<Rightarrow> go_error list" where
  "err_chain e = e # (case unwrap e of None \<Rightarrow> [] | Some e' \<Rightarrow> err_chain e')"
  by pat_completeness auto
termination
  by (relation "measure size") (auto intro: size_unwrap)

declare err_chain.simps [simp del]

text \<open>What \<^verbatim>\<open>errors.As\<close> does, over the chain: the first hit.\<close>

lemma errors_As_chain:
  "errors_As p e = Option.bind (List.find (\<lambda>x. p x \<noteq> None) (err_chain e)) p"
proof (induction e rule: err_chain.induct)
  case (1 e)
  show ?case
  proof (cases "p e")
    case None
    then show ?thesis
      using 1 by (cases "unwrap e") (simp_all add: errors_As.simps [of p e] err_chain.simps [of e])
  next
    case (Some x)
    then show ?thesis
      by (simp add: errors_As.simps [of p e] err_chain.simps [of e])
  qed
qed

lemma errors_As_SomeD: "errors_As p e = Some x \<Longrightarrow> \<exists>y \<in> set (err_chain e). p y = Some x"
  by (auto simp: errors_As_chain find_Some_iff bind_eq_Some_conv)

lemma errors_As_None_iff: "errors_As p e = None \<longleftrightarrow> (\<forall>y \<in> set (err_chain e). p y = None)"
proof (cases "List.find (\<lambda>x. p x \<noteq> None) (err_chain e)")
  case None
  then have "errors_As p e = None" by (simp add: errors_As_chain)
  moreover from None have "\<forall>y \<in> set (err_chain e). p y = None" by (auto simp: find_None_iff)
  ultimately show ?thesis by simp
next
  case (Some x)
  then have "x \<in> set (err_chain e)" "p x \<noteq> None"
    by (auto simp: find_Some_iff)
  with Some show ?thesis by (auto simp: errors_As_chain)
qed

text \<open>The retry flag an error of one of the four flagged types carries.\<close>

fun retry_flag :: "go_error \<Rightarrow> bool option" where
  "retry_flag (TieredCacheError c m cmp t e r ctx) = Some r"
| "retry_flag (InitError c p e r) = Some r"
| "retry_flag (StorageError t k e r) = Some r"
| "retry_flag (SinkError b a e r) = Some r"
| "retry_flag _ = None"

lemma retry_flag_cases:
  "retry_TieredCacheError x = Some r \<Longrightarrow> retry_flag x = Some r"
  "retry_InitError x = Some r \<Longrightarrow> retry_flag x = Some r"
  "retry_StorageError x = Some r \<Longrightarrow> retry_flag x = Some r"
  "retry_SinkError x = Some r \<Longrightarrow> retry_flag x = Some r"
  by (cases x; simp)+

lemma IsRetryable_flag:
  assumes "IsRetryable (Some e)"
  shows "\<exists>x \<in> set (err_chain e). retry_flag x = Some True"
  using assms
  by (auto simp: IsRetryable_def split: option.splits
      dest!: errors_As_SomeD dest: retry_flag_cases)

lemma errors_As_Errorf [simp]:
  assumes "\<And>t w. p (Errorf t w) = None"
  shows "errors_As p (Errorf t (Some e)) = errors_As p e"
  using assms by (simp add: errors_As.simps [of p "Errorf t (Some e)"])

lemma IsRetryable_Errorf: "IsRetryable (Some (Errorf t (Some e))) = IsRetryable (Some e)"
  by (simp add: IsRetryable_def cong: option.case_cong)

lemma IsRetryable_WrapError: "IsRetryable (Some (WrapError c m t cmp e)) = IsRetryable e"
  unfolding WrapError_def by (subst IsRetryable_def) (simp add: errors_As.simps)

text \<open>
  A retryable verdict always comes from the error itself: if \<^verbatim>\<open>IsRetryable\<close> answers true,
  some error of the unwrapping chain has a retry flag and it is set; and \<^verbatim>\<open>WrapError\<close> and a
  \<^verbatim>\<open>%w\<close> wrap change the verdict of no error.
\<close>

theorem retry_verdict_sound:
  "(IsRetryable (Some e) \<longrightarrow> (\<exists>x \<in> set (err_chain e). retry_flag x = Some True)) \<and>
   IsRetryable (Some (WrapError c m t cmp (Some e))) = IsRetryable (Some e) \<and>
   IsRetryable (Some (Errorf txt (Some e))) = IsRetryable (Some e)"
  using IsRetryable_flag by (simp add: IsRetryable_WrapError IsRetryable_Errorf)

theorem retry_verdict_sound_witness:
  "\<exists>x \<in> set (err_chain (NewStorageError ''l1'' ''k'' None True)). retry_flag x = Some True"
proof -
  have "IsRetryable (Some (NewStorageError ''l1'' ''k'' None True))" by code_simp
  then show ?thesis
    using retry_verdict_sound [of "NewStorageError ''l1'' ''k'' None True" ErrCodeInternal "''m''"
        TierL1 "''c''" "''t''"] by blast
qed

lemma to_lower_char_idem [simp]: "to_lower_char (to_lower_char c) = to_lower_char c"
  by (simp add: to_lower_char_def Let_def)

lemma to_lower_idem [simp]: "to_lower (to_lower s) = to_lower s"
  by (simp add: to_lower_def)

lemma to_lower_tier:
  "to_lower (tier_String TierL0) = ''l0''" "to_lower (tier_String TierL1) = ''l1''"
  "to_lower (tier_String TierL2) = ''l2''"
  by code_simp+

text \<open>
  Tier names: the printed name of each tier parses back to it, the case of the input does
  not matter, and an error comes exactly with the unknown tier.
\<close>

theorem parse_tier_roundtrip:
  "ParseTier (tier_String TierL0) = (TierL0, None) \<and>
   ParseTier (tier_String TierL1) = (TierL1, None) \<and>
   ParseTier (tier_String TierL2) = (TierL2, None) \<and>
   ParseTier (to_lower s) = ParseTier s \<and>
   (fst (ParseTier s) = TierUnknown) = (snd (ParseTier s) \<noteq> None)"
proof (intro conjI)
  show "(fst (ParseTier s) = TierUnknown) = (snd (ParseTier s) \<noteq> None)"
    unfolding ParseTier_def Let_def by (simp split: if_split)
  show "ParseTier (to_lower s) = ParseTier s" by (simp only: ParseTier_def to_lower_idem)
qed (simp_all only: ParseTier_def Let_def to_lower_tier, simp_all)

end
