(* ===== verification/Floats.thy ===== *)
theory Floats
  imports Prelude "HOL-Library.Log_Nat"
begin

text \<open>
  The float64 arithmetic the code does: conversions from integers, products and quotients, each
  rounded to the nearest value with a 53-bit significand (ties to even), and the truncating
  conversion back to an integer. The exponents stay far inside the normal range in every use
  (sizes, counters, ratios of counters and durations), so neither underflow nor overflow is
  modelled.
\<close>

text \<open>The exponent of a positive rational: \<open>2 ^ e \<le> x < 2 ^ (e + 1)\<close>.\<close>

definition rat_exponent :: "rat \<Rightarrow> int" where
  "rat_exponent x =
     (let (a, b) = quotient_of x; k = bitlen a - bitlen b
      in if 2 powi k \<le> x then k else k - 1)"

definition round_half_even :: "rat \<Rightarrow> int" where
  "round_half_even x =
     (let f = \<lfloor>x\<rfloor>; d = x - of_int f
      in if d < 1 / 2 then f else if 1 / 2 < d then f + 1 else if even f then f else f + 1)"

definition f64_round :: "rat \<Rightarrow> rat" where
  "f64_round x =
     (if x = 0 then 0
      else let s = sgn x; y = \<bar>x\<bar>; e = rat_exponent y
        in s * of_int (round_half_even (y * 2 powi (52 - e))) * 2 powi (e - 52))"

definition f64_of_int :: "int \<Rightarrow> f64" where
  "f64_of_int i = F64 (f64_round (of_int i))"

fun f64_mul :: "f64 \<Rightarrow> f64 \<Rightarrow> f64" where
  "f64_mul (F64 x) (F64 y) = F64 (f64_round (x * y))"
| "f64_mul F64_NaN _ = F64_NaN"
| "f64_mul _ F64_NaN = F64_NaN"
| "f64_mul (F64_Inf p) (F64 y) = (if y = 0 then F64_NaN else F64_Inf (p = (0 < y)))"
| "f64_mul (F64 x) (F64_Inf q) = (if x = 0 then F64_NaN else F64_Inf (q = (0 < x)))"
| "f64_mul (F64_Inf p) (F64_Inf q) = F64_Inf (p = q)"

text \<open>Quotients; dividing by zero gives an infinity or NaN, as IEEE 754 has it.\<close>

fun f64_div :: "f64 \<Rightarrow> f64 \<Rightarrow> f64" where
  "f64_div (F64 x) (F64 y) =
     (if y = 0 then (if x = 0 then F64_NaN else F64_Inf (0 < x)) else F64 (f64_round (x / y)))"
| "f64_div F64_NaN _ = F64_NaN"
| "f64_div _ F64_NaN = F64_NaN"
| "f64_div (F64_Inf p) (F64 y) = F64_Inf (p = (0 \<le> y))"
| "f64_div (F64 x) (F64_Inf q) = F64 0"
| "f64_div (F64_Inf p) (F64_Inf q) = F64_NaN"

text \<open>Go's conversion to an integer type truncates; out of range it is left unspecified.\<close>

fun f64_trunc :: "f64 \<Rightarrow> int option" where
  "f64_trunc (F64 x) = Some (if 0 \<le> x then \<lfloor>x\<rfloor> else \<lceil>x\<rceil>)"
| "f64_trunc _ = None"

subsection \<open>The rounding error\<close>

lemma pow2_bitlen:
  assumes "0 < a"
  shows "2 powi (bitlen a - 1) \<le> (of_int a :: rat)" and "(of_int a :: rat) < 2 powi bitlen a"
proof -
  have b: "0 < bitlen a" "2 ^ nat (bitlen a - 1) \<le> a" "a < 2 ^ nat (bitlen a)"
    using bitlen_bounds [OF assms] bitlen_nonneg [of a] assms by (auto simp: bitlen_eq_zero_iff le_less)
  have "2 powi (bitlen a - 1) = (2 :: rat) ^ nat (bitlen a - 1)" "2 powi bitlen a = (2 :: rat) ^ nat (bitlen a)"
    using b(1) by (simp_all add: power_int_def)
  then show "2 powi (bitlen a - 1) \<le> (of_int a :: rat)" "(of_int a :: rat) < 2 powi bitlen a"
    using b(2,3) by (metis of_int_le_iff of_int_less_iff of_int_numeral of_int_power)+
qed

lemma rat_exponent_le:
  assumes "0 < x"
  shows "2 powi rat_exponent x \<le> x"
proof -
  obtain a b where q: "quotient_of x = (a, b)" by fastforce
  have b: "0 < b" using quotient_of_denom_pos [OF q] .
  have x: "x = of_int a / of_int b" using quotient_of_div [OF q] .
  have a: "0 < a" using assms b x by (simp add: zero_less_divide_iff)
  have "2 powi (bitlen a - bitlen b - 1) = (2 powi (bitlen a - 1) / 2 powi bitlen b :: rat)"
    by (simp add: power_int_diff)
  also have "\<dots> \<le> x"
    unfolding x using pow2_bitlen [OF a] pow2_bitlen [OF b] a b by (intro frac_le) auto
  finally show ?thesis by (simp add: rat_exponent_def q Let_def)
qed

lemma round_half_even_close: "\<bar>of_int (round_half_even x) - x\<bar> \<le> 1 / 2"
proof -
  define r :: rat where "r = of_int \<lfloor>x\<rfloor>"
  have r: "r \<le> x" "x < r + 1" using floor_correct [of x] by (simp_all add: r_def)
  have "of_int (round_half_even x) = r \<and> x - r \<le> 1 / 2 \<or> of_int (round_half_even x) = r + 1 \<and> 1 / 2 \<le> x - r"
    by (simp add: round_half_even_def Let_def r_def)
  then show ?thesis using r by (auto simp: abs_le_iff)
qed

lemma f64_round_close:
  assumes "0 \<le> x"
  shows "\<bar>f64_round x - x\<bar> \<le> x / 1000"
proof (cases "x = 0")
  case False
  then have pos: "0 < x" using assms by simp
  define e where "e = rat_exponent x"
  define u :: rat where "u = 2 powi (e - 52)"
  have u: "0 < u" "2 powi (52 - e) * u = 1" by (simp_all add: u_def flip: power_int_add)
  have "f64_round x - x = (of_int (round_half_even (x * 2 powi (52 - e))) - x * 2 powi (52 - e)) * u"
    using pos u(2) by (simp add: f64_round_def Let_def e_def [symmetric] u_def [symmetric] left_diff_distrib
        mult.assoc)
  then have "\<bar>f64_round x - x\<bar> \<le> u / 2"
    using round_half_even_close [of "x * 2 powi (52 - e)"] u(1)
    by (simp add: abs_mult mult_right_mono [of _ "1 / 2"])
  also have "u * 2 ^ 52 = 2 powi e" by (simp add: u_def power_int_diff)
  then have "u / 2 \<le> x / 1000" using rat_exponent_le [OF pos] pos by (simp add: e_def)
  finally show ?thesis .
qed (simp add: f64_round_def)

lemma f64_round_nonneg: "0 \<le> x \<Longrightarrow> 0 \<le> f64_round x"
  by (simp add: f64_round_def Let_def round_half_even_def)

lemma f64_round_bounds:
  assumes "0 \<le> x"
  shows "x * (999 / 1000) \<le> f64_round x" and "f64_round x \<le> x * (1001 / 1000)"
  using f64_round_close [OF assms, unfolded abs_le_iff] by linarith+

end
