(* ===== verification/Consts.thy ===== *)
theory Consts
  imports Prelude
begin

text \<open>The constants of \<^verbatim>\<open>pkg/common/consts.go\<close> that more than one component uses.\<close>

definition DefaultMaxReplayWorkers :: int where "DefaultMaxReplayWorkers = 4"
definition DefaultCheckpointInterval :: int where "DefaultCheckpointInterval = 10000"
definition DefaultPreWarmBatchSize :: int where "DefaultPreWarmBatchSize = 1000"
definition DefaultPreWarmWorkers :: int where "DefaultPreWarmWorkers = 4"
definition RebuildFromSnapshot :: string where "RebuildFromSnapshot = ''snapshot''"
definition RebuildFromL1 :: string where "RebuildFromL1 = ''l1''"
definition RebuildFromNone :: string where "RebuildFromNone = ''none''"

end
