(* ===== verification/Go_Lib.thy ===== *)
theory Go_Lib
  imports Errors Floats
begin

text \<open>
  What the upper packages use of Go's standard library beyond the prelude: joining file names
  (\<^verbatim>\<open>path/filepath\<close>, slash-separated systems), adding durations to times and reading the
  time in seconds, and the conversions between floats and unsigned integers.
\<close>

subsection \<open>File names\<close>

fun split_on :: "char \<Rightarrow> string \<Rightarrow> string list" where
  "split_on c [] = [[]]"
| "split_on c (x # xs) =
     (if x = c then [] # split_on c xs
      else (case split_on c xs of [] \<Rightarrow> [[x]] | w # ws \<Rightarrow> (x # w) # ws))"

fun join_with :: "string \<Rightarrow> string list \<Rightarrow> string" where
  "join_with sep [] = []"
| "join_with sep [x] = x"
| "join_with sep (x # y # xs) = x @ sep @ join_with sep (y # xs)"

text \<open>
  The elements of a path with the dots resolved, innermost first: a \<^verbatim>\<open>..\<close> removes the element
  before it, is dropped at the root, and is kept at the start of a relative path.
\<close>

fun path_elems :: "bool \<Rightarrow> string list \<Rightarrow> string list \<Rightarrow> string list" where
  "path_elems rooted acc [] = acc"
| "path_elems rooted acc (x # xs) =
     (if x = [] \<or> x = ''.'' then path_elems rooted acc xs
      else if x = ''..'' then
        (case acc of
           [] \<Rightarrow> path_elems rooted (if rooted then [] else [x]) xs
         | y # ys \<Rightarrow> path_elems rooted (if y = ''..'' then x # acc else ys) xs)
      else path_elems rooted (x # acc) xs)"

definition path_clean :: "string \<Rightarrow> string" where
  "path_clean p =
     (let rooted = (p \<noteq> [] \<and> hd p = CHR ''/'');
          body = join_with ''/'' (rev (path_elems rooted [] (split_on (CHR ''/'') p)))
      in if rooted then CHR ''/'' # body else if body = [] then ''.'' else body)"

definition path_join :: "string list \<Rightarrow> string" where
  "path_join elems =
     (case filter (\<lambda>e. e \<noteq> []) elems of
        [] \<Rightarrow> []
      | es \<Rightarrow> path_clean (join_with ''/'' es))"

lemma path_join_examples:
  "path_join [''./data/l1'', ''shard_3''] = ''data/l1/shard_3''"
  "path_join [''/a//b/../c/'', [], ''./d''] = ''/a/c/d''"
  "path_join [''../x'', ''..'', ''..''] = ''../..''"
  by (simp_all add: path_join_def path_clean_def Let_def)

subsection \<open>Times\<close>

definition time_add :: "go_time \<Rightarrow> int \<Rightarrow> go_time" where
  "time_add t d = \<lparr>tm_wall = tm_wall t + d, tm_mono = map_option (\<lambda>m. m + d) (tm_mono t)\<rparr>"

text \<open>\<^verbatim>\<open>Time.Unix\<close>: whole seconds, rounded down.\<close>

definition unix_sec :: "go_time \<Rightarrow> int" where
  "unix_sec t = tm_wall t div 1000000000"

definition after_time :: "go_time \<Rightarrow> go_time \<Rightarrow> bool" where
  "after_time t u \<longleftrightarrow> 0 < time_sub t u"

subsection \<open>Floats and unsigned integers\<close>

text \<open>
  \<^verbatim>\<open>uint64(x)\<close>: the truncated value when it fits; Go leaves the rest to the implementation,
  which \<open>oor\<close> stands for.
\<close>

definition f64_to_u64 :: "(f64 \<Rightarrow> u64) \<Rightarrow> f64 \<Rightarrow> u64" where
  "f64_to_u64 oor x =
     (case f64_trunc x of
        None \<Rightarrow> oor x
      | Some i \<Rightarrow> if 0 \<le> i \<and> i < 2 ^ 64 then of_int i else oor x)"

end
