(* ===== verification/Tier_Spec.thy ===== *)
theory Tier_Spec
  imports Errors
begin

text \<open>
  The interface both local tiers implement: each of \<^verbatim>\<open>pkg/l0\<close> and \<^verbatim>\<open>pkg/l1\<close> ends with an
  assertion that its cache has the methods \<^verbatim>\<open>Get\<close>, \<^verbatim>\<open>Set\<close>, \<^verbatim>\<open>Delete\<close> of a common cache
  interface. The locale \<^verbatim>\<open>cache_tier\<close> states the contract: a tier is a lossy map. It may
  drop an entry at any time (eviction, expiry), but a successful \<^verbatim>\<open>Set\<close> is stored, a failed
  one changes nothing, a successful \<^verbatim>\<open>Delete\<close> removes, and \<^verbatim>\<open>Get\<close> only returns what is stored.
  The client lemma shows what follows for any sequence of calls: every value read is the value
  of the last successful write to that key, with no successful delete in between.
\<close>

datatype tier_op = TGet go_time string | TSet go_time string bytes int | TDel string

datatype tier_out = OutGet "go_error + bytes" | OutErr "go_error option"

fun tier_step ::
    "(go_time \<Rightarrow> string \<Rightarrow> 's \<Rightarrow> ('s \<times> (go_error + bytes)) option) \<Rightarrow>
     (go_time \<Rightarrow> string \<Rightarrow> bytes \<Rightarrow> int \<Rightarrow> 's \<Rightarrow> ('s \<times> go_error option) option) \<Rightarrow>
     (string \<Rightarrow> 's \<Rightarrow> ('s \<times> go_error option) option) \<Rightarrow>
     tier_op \<Rightarrow> 's \<Rightarrow> ('s \<times> tier_out) option" where
  "tier_step get st del (TGet now k) s = map_option (\<lambda>(s', r). (s', OutGet r)) (get now k s)"
| "tier_step get st del (TSet now k v ttl) s =
     map_option (\<lambda>(s', e). (s', OutErr e)) (st now k v ttl s)"
| "tier_step get st del (TDel k) s = map_option (\<lambda>(s', e). (s', OutErr e)) (del k s)"

fun tier_run ::
    "(go_time \<Rightarrow> string \<Rightarrow> 's \<Rightarrow> ('s \<times> (go_error + bytes)) option) \<Rightarrow>
     (go_time \<Rightarrow> string \<Rightarrow> bytes \<Rightarrow> int \<Rightarrow> 's \<Rightarrow> ('s \<times> go_error option) option) \<Rightarrow>
     (string \<Rightarrow> 's \<Rightarrow> ('s \<times> go_error option) option) \<Rightarrow>
     tier_op list \<Rightarrow> 's \<Rightarrow> ('s \<times> tier_out list) option" where
  "tier_run get st del [] s = Some (s, [])"
| "tier_run get st del (x # xs) s =
     (case tier_step get st del x s of
        None \<Rightarrow> None
      | Some (s1, out) \<Rightarrow>
          (case tier_run get st del xs s1 of
             None \<Rightarrow> None
           | Some (s2, outs) \<Rightarrow> Some (s2, out # outs)))"

text \<open>The ideal map: what a cache that never loses an entry would hold after an operation.\<close>

fun ideal_step :: "tier_op \<Rightarrow> tier_out \<Rightarrow> (string \<rightharpoonup> bytes) \<Rightarrow> (string \<rightharpoonup> bytes)" where
  "ideal_step (TSet now k v ttl) (OutErr None) m = m(k \<mapsto> v)"
| "ideal_step (TDel k) (OutErr None) m = m(k := None)"
| "ideal_step _ _ m = m"

text \<open>A history is coherent when each value read is the ideal map's value at that point.\<close>

fun coherent :: "(string \<rightharpoonup> bytes) \<Rightarrow> tier_op list \<Rightarrow> tier_out list \<Rightarrow> bool" where
  "coherent m (TGet now k # xs) (OutGet (Inr v) # outs) \<longleftrightarrow> m k = Some v \<and> coherent m xs outs"
| "coherent m (x # xs) (out # outs) \<longleftrightarrow> coherent (ideal_step x out m) xs outs"
| "coherent m [] [] \<longleftrightarrow> True"
| "coherent m _ _ \<longleftrightarrow> False"

locale cache_tier =
  fixes inv :: "'s \<Rightarrow> bool"
    and stored :: "'s \<Rightarrow> string \<rightharpoonup> bytes"
    and get :: "go_time \<Rightarrow> string \<Rightarrow> 's \<Rightarrow> ('s \<times> (go_error + bytes)) option"
    and st :: "go_time \<Rightarrow> string \<Rightarrow> bytes \<Rightarrow> int \<Rightarrow> 's \<Rightarrow> ('s \<times> go_error option) option"
    and del :: "string \<Rightarrow> 's \<Rightarrow> ('s \<times> go_error option) option"
  assumes get_total: "inv s \<Longrightarrow> \<exists>s' r. get now k s = Some (s', r)"
    and get_inv: "inv s \<Longrightarrow> get now k s = Some (s', r) \<Longrightarrow> inv s' \<and> stored s' \<subseteq>\<^sub>m stored s"
    and get_value: "inv s \<Longrightarrow> get now k s = Some (s', Inr v) \<Longrightarrow> stored s k = Some v"
    and set_total: "inv s \<Longrightarrow> \<exists>s' e. st now k v ttl s = Some (s', e)"
    and set_done: "inv s \<Longrightarrow> st now k v ttl s = Some (s', None) \<Longrightarrow>
      inv s' \<and> stored s' k = Some v \<and> stored s' \<subseteq>\<^sub>m (stored s)(k \<mapsto> v)"
    and set_failed: "inv s \<Longrightarrow> st now k v ttl s = Some (s', Some err) \<Longrightarrow>
      inv s' \<and> stored s' \<subseteq>\<^sub>m stored s"
    and del_total: "inv s \<Longrightarrow> \<exists>s' e. del k s = Some (s', e)"
    and del_done: "inv s \<Longrightarrow> del k s = Some (s', None) \<Longrightarrow>
      inv s' \<and> stored s' \<subseteq>\<^sub>m (stored s)(k := None)"
    and del_failed: "inv s \<Longrightarrow> del k s = Some (s', Some err) \<Longrightarrow>
      inv s' \<and> stored s' \<subseteq>\<^sub>m stored s"
begin

lemma get_safe: "inv s \<Longrightarrow> \<exists>s' r. get now k s = Some (s', r) \<and> inv s'"
  using get_total get_inv by blast

lemma set_safe: "inv s \<Longrightarrow> \<exists>s' e. st now k v ttl s = Some (s', e) \<and> inv s'"
  using set_total set_done set_failed by (metis option.exhaust)

lemma del_safe: "inv s \<Longrightarrow> \<exists>s' e. del k s = Some (s', e) \<and> inv s'"
  using del_total del_done del_failed by (metis option.exhaust)

lemma step_total: "inv s \<Longrightarrow> \<exists>s' out. tier_step get st del x s = Some (s', out)"
  using get_total set_total del_total by (cases x) (simp; fastforce)+

lemma step_ideal:
  assumes "inv s" and "stored s \<subseteq>\<^sub>m m" and "tier_step get st del x s = Some (s', out)"
  shows "inv s' \<and> stored s' \<subseteq>\<^sub>m ideal_step x out m"
proof -
  have upd: "(stored s)(k := w) \<subseteq>\<^sub>m m(k := w)" for k w
    using assms(2) by (auto simp: map_le_def)
  have up: "inv s' \<and> stored s' \<subseteq>\<^sub>m m'"
    if "inv s' \<and> stored s' \<subseteq>\<^sub>m s0" and "s0 \<subseteq>\<^sub>m m'" for s0 m'
    using that map_le_trans by blast
  show ?thesis
  proof (cases x)
    case (TGet now k)
    then obtain r where r: "get now k s = Some (s', r)" "out = OutGet r"
      using assms(3) by auto
    show ?thesis using up [OF get_inv [OF assms(1) r(1)] assms(2)] TGet r by simp
  next
    case (TSet now k v ttl)
    then obtain e where e: "st now k v ttl s = Some (s', e)" "out = OutErr e"
      using assms(3) by auto
    show ?thesis
    proof (cases e)
      case None
      with e set_done [OF assms(1)] have "inv s' \<and> stored s' \<subseteq>\<^sub>m (stored s)(k \<mapsto> v)" by blast
      from up [OF this upd] show ?thesis using TSet e None by simp
    next
      case (Some err)
      with e set_failed [OF assms(1)] have "inv s' \<and> stored s' \<subseteq>\<^sub>m stored s" by blast
      from up [OF this assms(2)] show ?thesis using TSet e Some by simp
    qed
  next
    case (TDel k)
    then obtain e where e: "del k s = Some (s', e)" "out = OutErr e"
      using assms(3) by auto
    show ?thesis
    proof (cases e)
      case None
      with e del_done [OF assms(1)] have "inv s' \<and> stored s' \<subseteq>\<^sub>m (stored s)(k := None)" by blast
      from up [OF this upd] show ?thesis using TDel e None by simp
    next
      case (Some err)
      with e del_failed [OF assms(1)] have "inv s' \<and> stored s' \<subseteq>\<^sub>m stored s" by blast
      from up [OF this assms(2)] show ?thesis using TDel e Some by simp
    qed
  qed
qed

lemma step_read:
  assumes "inv s" and "stored s \<subseteq>\<^sub>m m"
    and "tier_step get st del (TGet now k) s = Some (s', OutGet (Inr v))"
  shows "m k = Some v"
proof -
  have "stored s k = Some v" using assms get_value by auto
  then show ?thesis using assms(2) by (force simp: map_le_def dom_def)
qed

lemma coherent_Cons:
  "coherent m (x # xs) (out # outs) \<longleftrightarrow>
     (\<forall>now k v. x = TGet now k \<and> out = OutGet (Inr v) \<longrightarrow> m k = Some v) \<and>
     coherent (ideal_step x out m) xs outs"
  by (cases "(m, x # xs, out # outs)" rule: coherent.cases) auto

lemma run_coherent:
  assumes "inv s" and "stored s \<subseteq>\<^sub>m m"
  shows "\<exists>s' outs. tier_run get st del xs s = Some (s', outs) \<and> inv s' \<and> coherent m xs outs"
  using assms
proof (induction xs arbitrary: s m)
  case Nil
  then show ?case by simp
next
  case (Cons x xs)
  obtain s1 out where step: "tier_step get st del x s = Some (s1, out)"
    using step_total Cons.prems(1) by blast
  have ideal: "inv s1 \<and> stored s1 \<subseteq>\<^sub>m ideal_step x out m"
    by (rule step_ideal [OF Cons.prems step])
  then obtain s2 outs where run: "tier_run get st del xs s1 = Some (s2, outs)" "inv s2"
      "coherent (ideal_step x out m) xs outs"
    using Cons.IH by blast
  have "\<forall>now k v. x = TGet now k \<and> out = OutGet (Inr v) \<longrightarrow> m k = Some v"
    using step_read [OF Cons.prems] step by blast
  with run have "coherent m (x # xs) (out # outs)" by (simp only: coherent_Cons simp_thms)
  then show ?case using step run by simp
qed

end

end
