(* ===== verification/Protocol.thy ===== *)
theory Protocol
  imports Prelude
begin

text \<open>
  Two places of the code start worker goroutines, feed them over a channel and wait for them:
  \<^verbatim>\<open>Recover\<close> of \<^verbatim>\<open>pkg/replay\<close> and \<^verbatim>\<open>preWarmL0\<close> of \<^verbatim>\<open>pkg/tieredcache\<close>. What makes such a
  protocol right is stated once: \<open>protocol\<close>, an invariant and a weight every step decreases, so that
  no run is infinite; and \<open>ending_protocol\<close>, where a state that is not final can move, so that every
  run can be completed and one that cannot be continued is final.

  The operations of a component, on the other hand, are functions that may panic (\<open>None\<close>). The
  locale \<open>safe_machine\<close> is what makes any sequence of them safe: on a state of the invariant an
  admissible operation does not panic and keeps the invariant.
\<close>

locale protocol =
  fixes step :: "'s \<Rightarrow> 's \<Rightarrow> bool"
    and inv :: "'s \<Rightarrow> bool"
    and weight :: "'s \<Rightarrow> nat"
  assumes inv_step: "inv s \<Longrightarrow> step s s' \<Longrightarrow> inv s'"
    and step_weight: "inv s \<Longrightarrow> step s s' \<Longrightarrow> weight s' < weight s"
begin

lemma inv_reach: "step\<^sup>*\<^sup>* s s' \<Longrightarrow> inv s \<Longrightarrow> inv s'"
  by (induction rule: rtranclp_induct) (auto intro: inv_step)

lemma run_length: "inv s \<Longrightarrow> (step ^^ n) s s' \<Longrightarrow> inv s' \<and> n + weight s' \<le> weight s"
proof (induction n arbitrary: s')
  case (Suc n)
  then obtain t where t: "(step ^^ n) s t" "step t s'" by auto
  then have "inv t" "n + weight t \<le> weight s" using Suc by auto
  then show ?case using inv_step [OF _ t(2)] step_weight [OF _ t(2)] by auto
qed simp

lemma runs_stop:
  assumes "inv (run 0)"
  shows "\<exists>i \<le> weight (run 0). \<not> step (run i) (run (Suc i))"
proof (rule ccontr)
  assume *: "\<not> ?thesis"
  have "i \<le> Suc (weight (run 0)) \<Longrightarrow> (step ^^ i) (run 0) (run i)" for i
    using * by (induction i) auto
  from run_length [OF assms this [OF order_refl]] show False by simp
qed

end

locale ending_protocol = protocol +
  fixes final :: "'s \<Rightarrow> bool"
  assumes progress: "inv s \<Longrightarrow> \<not> final s \<Longrightarrow> \<exists>s'. step s s'"
begin

lemma ends: "inv s \<Longrightarrow> \<exists>s'. step\<^sup>*\<^sup>* s s' \<and> final s'"
proof (induction s rule: measure_induct_rule [of weight])
  case (less s)
  show ?case
  proof (cases "final s")
    case False
    then obtain t where t: "step s t" using progress less.prems by blast
    then show ?thesis
      using less inv_step step_weight converse_rtranclp_into_rtranclp [of step s t] by meson
  qed blast
qed

lemma blocked_final: "step\<^sup>*\<^sup>* s s' \<Longrightarrow> inv s \<Longrightarrow> \<nexists>t. step s' t \<Longrightarrow> final s'"
  using inv_reach progress by blast

end

fun run_events :: "('e \<Rightarrow> 's \<Rightarrow> 's option) \<Rightarrow> 'e list \<Rightarrow> 's \<Rightarrow> 's option" where
  "run_events exec [] s = Some s"
| "run_events exec (e # es) s = (case exec e s of None \<Rightarrow> None | Some s1 \<Rightarrow> run_events exec es s1)"

locale safe_machine =
  fixes exec :: "'e \<Rightarrow> 's \<Rightarrow> 's option"
    and inv :: "'s \<Rightarrow> bool"
    and ok :: "'e \<Rightarrow> bool"
  assumes exec_safe: "inv s \<Longrightarrow> ok e \<Longrightarrow> \<exists>s'. exec e s = Some s' \<and> inv s'"
begin

lemma run_safe: "inv s \<Longrightarrow> list_all ok es \<Longrightarrow> \<exists>s'. run_events exec es s = Some s' \<and> inv s'"
proof (induction es arbitrary: s)
  case (Cons e es)
  then obtain s1 where "exec e s = Some s1" "inv s1" using exec_safe [of s e] by auto
  then show ?case using Cons by auto
qed simp

end

end
