(* ===== verification/Bounded_Queue.thy ===== *)
theory Bounded_Queue
  imports Errors
begin

text \<open>
  The interface of the two queues of \<^verbatim>\<open>pkg/l2/retry.go\<close>, which have the methods \<^verbatim>\<open>Add\<close> and
  \<^verbatim>\<open>GetAll\<close> in common: a list of items with a limit (none if it is not positive), to which an
  addition appends unless it is full, and which is handed out and emptied as a whole. The
  abstract machine \<open>fifo_run\<close> is what a caller may expect of a sequence of calls.
\<close>

datatype 'x queue_call = Put 'x | TakeAll

definition q_full :: "int \<Rightarrow> 'i list \<Rightarrow> bool" where
  "q_full mx xs \<longleftrightarrow> 0 < mx \<and> mx \<le> int (length xs)"

text \<open>The items left, which additions were accepted, and the items handed out.\<close>

fun fifo_run :: "int \<Rightarrow> 'i queue_call list \<Rightarrow> 'i list \<Rightarrow> 'i list \<times> bool list \<times> 'i list" where
  "fifo_run mx [] xs = (xs, [], [])"
| "fifo_run mx (Put x # cs) xs =
     (let ok = \<not> q_full mx xs;
          (xs', acc, out) = fifo_run mx cs (if ok then xs @ [x] else xs)
      in (xs', ok # acc, out))"
| "fifo_run mx (TakeAll # cs) xs =
     (let (xs', acc, out) = fifo_run mx cs [] in (xs', acc, xs @ out))"

fun queued_items :: "'i queue_call list \<Rightarrow> bool list \<Rightarrow> 'i list" where
  "queued_items (Put x # cs) (ok # acc) = (if ok then x # queued_items cs acc else queued_items cs acc)"
| "queued_items (TakeAll # cs) acc = queued_items cs acc"
| "queued_items _ _ = []"

lemma fifo_run_lossless:
  "fifo_run mx cs xs = (xs', acc, out) \<Longrightarrow> out @ xs' = xs @ queued_items cs acc"
proof (induction cs arbitrary: xs xs' acc out)
  case (Cons c cs)
  show ?case
  proof (cases c)
    case (Put x)
    define ys where "ys = (if q_full mx xs then xs else xs @ [x])"
    obtain ys' acc1 out1 where run: "fifo_run mx cs ys = (ys', acc1, out1)" by (metis prod_cases3)
    show ?thesis
      using Cons.IH [OF run] Cons.prems run Put by (auto simp: ys_def Let_def split: if_split_asm)
  next
    case TakeAll
    obtain ys' acc1 out1 where run: "fifo_run mx cs [] = (ys', acc1, out1)" by (metis prod_cases3)
    show ?thesis using Cons.IH [OF run] Cons.prems run TakeAll by (auto simp: Let_def)
  qed
qed simp

lemma fifo_run_bounded:
  assumes "fifo_run mx cs xs = (xs', acc, out)" and "0 < mx" and "int (length xs) \<le> mx"
  shows "int (length xs') \<le> mx"
  using assms
proof (induction cs arbitrary: xs xs' acc out)
  case (Cons c cs)
  show ?case
  proof (cases c)
    case (Put x)
    define ys where "ys = (if q_full mx xs then xs else xs @ [x])"
    obtain ys' acc1 out1 where run: "fifo_run mx cs ys = (ys', acc1, out1)" by (metis prod_cases3)
    have "int (length ys) \<le> mx" using Cons.prems(2,3) by (simp add: ys_def q_full_def)
    then show ?thesis
      using Cons.IH [OF run] Cons.prems run Put by (simp add: ys_def Let_def split: if_split_asm)
  next
    case TakeAll
    obtain ys' acc1 out1 where run: "fifo_run mx cs [] = (ys', acc1, out1)" by (metis prod_cases3)
    show ?thesis using Cons.IH [OF run] Cons.prems run TakeAll by (auto simp: Let_def)
  qed
qed simp

text \<open>The calls on an implementation: the errors returned by the additions, the items handed out.\<close>

fun queue_run ::
    "('x \<Rightarrow> 'q \<Rightarrow> 'q \<times> go_error option) \<Rightarrow> ('q \<Rightarrow> 'q \<times> 'i list) \<Rightarrow> 'x queue_call list \<Rightarrow> 'q \<Rightarrow>
     'q \<times> go_error option list \<times> 'i list" where
  "queue_run put take_all [] q = (q, [], [])"
| "queue_run put take_all (Put x # cs) q =
     (let (q1, e) = put x q; (q', errs, out) = queue_run put take_all cs q1 in (q', e # errs, out))"
| "queue_run put take_all (TakeAll # cs) q =
     (let (q1, xs) = take_all q; (q', errs, out) = queue_run put take_all cs q1
      in (q', errs, xs @ out))"

locale bounded_queue =
  fixes items :: "'q \<Rightarrow> 'i list"
    and limit :: "'q \<Rightarrow> int"
    and view :: "'x \<Rightarrow> 'i"
    and put :: "'x \<Rightarrow> 'q \<Rightarrow> 'q \<times> go_error option"
    and take_all :: "'q \<Rightarrow> 'q \<times> 'i list"
  assumes put_full: "q_full (limit q) (items q) \<Longrightarrow> put x q = (q', e) \<Longrightarrow> items q' = items q \<and> e \<noteq> None"
    and put_room: "\<not> q_full (limit q) (items q) \<Longrightarrow> put x q = (q', e) \<Longrightarrow> items q' = items q @ [view x]"
    and put_limit: "put x q = (q', e) \<Longrightarrow> limit q' = limit q"
    and take_items: "take_all q = (q', xs) \<Longrightarrow> xs = items q \<and> items q' = [] \<and> limit q' = limit q"
begin

lemma refines:
  assumes "queue_run put take_all cs q = (q', errs, out)"
  shows "\<exists>acc. fifo_run (limit q) (map (map_queue_call view) cs) (items q) = (items q', acc, out) \<and>
    list_all2 (\<lambda>e ok. e = None \<longrightarrow> ok) errs acc"
  using assms
proof (induction cs arbitrary: q errs out)
  case (Cons c cs)
  show ?case
  proof (cases c)
    case (Put x)
    obtain q1 e where put: "put x q = (q1, e)" by (cases "put x q")
    obtain errs1 where run: "queue_run put take_all cs q1 = (q', errs1, out)" "errs = e # errs1"
      using Cons.prems put Put by (auto split: prod.splits)
    show ?thesis
      using Cons.IH [OF run(1)] put_full [OF _ put] put_room [OF _ put] put_limit [OF put] run(2) Put
      by (cases "q_full (limit q) (items q)") auto
  next
    case TakeAll
    obtain q1 xs where tk: "take_all q = (q1, xs)" by (cases "take_all q")
    obtain out1 where run: "queue_run put take_all cs q1 = (q', errs, out1)" "out = xs @ out1"
      using Cons.prems tk TakeAll by (auto split: prod.splits)
    show ?thesis using Cons.IH [OF run(1)] take_items [OF tk] run(2) TakeAll by auto
  qed
qed simp

lemma lossless:
  assumes "queue_run put take_all cs q = (q', errs, out)"
  shows "\<exists>acc. out @ items q' = items q @ queued_items (map (map_queue_call view) cs) acc \<and>
    list_all2 (\<lambda>e ok. e = None \<longrightarrow> ok) errs acc"
  using refines [OF assms] fifo_run_lossless by blast

end

text \<open>A queue whose additions fail only when it is full: its errors are the abstract machine's.\<close>

locale reporting_queue = bounded_queue +
  assumes put_none: "\<not> q_full (limit q) (items q) \<Longrightarrow> put x q = (q', e) \<Longrightarrow> e = None"
begin

lemma refines_exactly:
  assumes "queue_run put take_all cs q = (q', errs, out)"
  shows "fifo_run (limit q) (map (map_queue_call view) cs) (items q) =
    (items q', map (\<lambda>e. e = None) errs, out)"
  using assms
proof (induction cs arbitrary: q errs out)
  case (Cons c cs)
  show ?case
  proof (cases c)
    case (Put x)
    obtain q1 e where put: "put x q = (q1, e)" by (cases "put x q")
    obtain errs1 where run: "queue_run put take_all cs q1 = (q', errs1, out)" "errs = e # errs1"
      using Cons.prems put Put by (auto split: prod.splits)
    show ?thesis
      using Cons.IH [OF run(1)] put_full [OF _ put] put_room [OF _ put] put_limit [OF put]
        put_none [OF _ put] run(2) Put
      by (cases "q_full (limit q) (items q)") auto
  next
    case TakeAll
    obtain q1 xs where tk: "take_all q = (q1, xs)" by (cases "take_all q")
    obtain out1 where run: "queue_run put take_all cs q1 = (q', errs, out1)" "out = xs @ out1"
      using Cons.prems tk TakeAll by (auto split: prod.splits)
    show ?thesis using Cons.IH [OF run(1)] take_items [OF tk] run(2) TakeAll by auto
  qed
qed simp

end

end
