(* ===== verification/L0_Shard.thy ===== *)
theory L0_Shard
  imports Errors
begin

text \<open>
  One shard of the in-memory tier (\<^verbatim>\<open>pkg/l0/l0_cache.go\<close>): the entry map, the clock ring, the
  memory and weight accounts, and the operations that work under the shard lock
  (\<^verbatim>\<open>evictOne\<close>, \<^verbatim>\<open>addToClock\<close>, the eviction loop of \<^verbatim>\<open>Set\<close>). The entry map is an association
  list, whose order stands for the iteration order of the Go map. Indexing the ring out of
  range is the panic \<^verbatim>\<open>None\<close>; the invariant \<^verbatim>\<open>shard_inv\<close> rules it out, and says that the
  accounts are exact sums over the entries and that \<^verbatim>\<open>freqSize\<close> counts the used slots.
\<close>

subsection \<open>State\<close>

record clock_entry =
  ck_key :: string
  ck_reference :: bool
  ck_weight :: int

record shard =
  sh_entries :: "(string \<times> cache_entry) list"
  sh_clockHand :: int
  sh_frequency :: "clock_entry list"
  sh_freqSize :: int
  sh_freqCap :: int
  sh_usedMemory :: u64
  sh_weight :: int
  sh_hits :: u64
  sh_misses :: u64
  sh_evicts :: u64

definition empty_clock :: clock_entry where
  "empty_clock = \<lparr>ck_key = [], ck_reference = False, ck_weight = 0\<rparr>"

text \<open>The shard that \<^verbatim>\<open>New\<close> allocates for a ring of \<open>n\<close> slots.\<close>

definition new_shard :: "nat \<Rightarrow> shard" where
  "new_shard n =
     \<lparr>sh_entries = [], sh_clockHand = 0, sh_frequency = replicate n empty_clock,
      sh_freqSize = 0, sh_freqCap = int n, sh_usedMemory = 0, sh_weight = 0,
      sh_hits = 0, sh_misses = 0, sh_evicts = 0\<rparr>"

definition entriesLen :: "shard \<Rightarrow> int" where
  "entriesLen sh = int (length (sh_entries sh))"

definition in_ring :: "shard \<Rightarrow> int \<Rightarrow> bool" where
  "in_ring sh idx \<longleftrightarrow> 0 \<le> idx \<and> idx < int (length (sh_frequency sh))"

subsection \<open>Eviction\<close>

text \<open>Removing an entry from the map and from the accounts.\<close>

definition drop_entry :: "string \<Rightarrow> cache_entry \<Rightarrow> shard \<Rightarrow> shard" where
  "drop_entry k e sh =
     sh\<lparr>sh_entries := AList.delete k (sh_entries sh),
        sh_usedMemory := sh_usedMemory sh - of_int (ce_Size e),
        sh_weight := sh_weight sh - ce_Weight e\<rparr>"

text \<open>Clearing a clock slot (its reference bit stays).\<close>

definition clear_slot :: "int \<Rightarrow> shard \<Rightarrow> shard" where
  "clear_slot idx sh =
     sh\<lparr>sh_frequency := (sh_frequency sh)
          [nat idx := (sh_frequency sh ! nat idx)\<lparr>ck_key := [], ck_weight := 0\<rparr>],
        sh_freqSize := sh_freqSize sh - 1\<rparr>"

text \<open>
  The sweep of \<^verbatim>\<open>evictOne\<close>: \<open>n\<close> iterations are left and \<open>i\<close> is the loop variable. The ring is
  swept modulo \<^verbatim>\<open>freqSize\<close>, which stays fixed until the function returns.
\<close>

fun evict_sweep :: "nat \<Rightarrow> int \<Rightarrow> shard \<Rightarrow> (shard \<times> bool) option" where
  "evict_sweep 0 i sh = Some (sh, False)"
| "evict_sweep (Suc n) i sh =
     (let idx = go_rem (sh_clockHand sh + i) (sh_freqSize sh) in
      if \<not> in_ring sh idx then None
      else let ce = sh_frequency sh ! nat idx in
        if ck_key ce = [] then evict_sweep n (i + 1) sh
        else if \<not> ck_reference ce then
          (case map_of (sh_entries sh) (ck_key ce) of
             Some entry \<Rightarrow>
               (let sh1 = clear_slot idx
                      ((drop_entry (ck_key ce) entry sh)\<lparr>sh_evicts := sh_evicts sh + 1\<rparr>)
                in Some (sh1\<lparr>sh_clockHand := go_rem (idx + 1) (sh_freqCap sh)\<rparr>, True))
           | None \<Rightarrow> evict_sweep n (i + 1) sh)
        else evict_sweep n (i + 1)
          (sh\<lparr>sh_frequency := (sh_frequency sh)[nat idx := ce\<lparr>ck_reference := False\<rparr>]\<rparr>))"

definition evictOne :: "shard \<Rightarrow> (shard \<times> bool) option" where
  "evictOne sh =
     (if sh_freqSize sh = 0 then Some (sh, False)
      else evict_sweep (nat (sh_freqSize sh)) 0 sh)"

lemma evict_sweep_shrinks:
  "evict_sweep n i sh = Some (sh', True) \<Longrightarrow> length (sh_entries sh') < length (sh_entries sh)"
proof (induction n i sh rule: evict_sweep.induct)
  case (2 n i sh)
  then show ?case
    by (fastforce simp: Let_def drop_entry_def clear_slot_def length_AList_delete_less
        split: if_splits option.splits)
qed simp

lemma evictOne_shrinks:
  "evictOne sh = Some (sh', True) \<Longrightarrow> length (sh_entries sh') < length (sh_entries sh)"
  by (auto simp: evictOne_def evict_sweep_shrinks split: if_splits)

text \<open>
  The loop of \<^verbatim>\<open>Set\<close> that makes room: it goes on while the used memory plus the weight of the
  new entry is over the limit and the shard has entries, and stops when nothing was evicted.
  Every turn that goes on has removed an entry.
\<close>

function make_room :: "u64 \<Rightarrow> int \<Rightarrow> shard \<Rightarrow> shard option" where
  "make_room limit newWeight sh =
     (if limit < sh_usedMemory sh + of_int newWeight \<and> 0 < entriesLen sh then
        (case evictOne sh of
           None \<Rightarrow> None
         | Some (sh', evicted) \<Rightarrow> if \<not> evicted then Some sh' else make_room limit newWeight sh')
      else Some sh)"
  by pat_completeness auto
termination
  by (relation "measure (\<lambda>(l, w, sh). length (sh_entries sh))")
    (auto dest: evictOne_shrinks)

declare make_room.simps [simp del]

subsection \<open>The clock ring\<close>

text \<open>
  \<^verbatim>\<open>addToClock\<close>: the first empty slot at or after the hand takes the key; with no empty slot
  only the hand moves.
\<close>

fun clock_insert :: "nat \<Rightarrow> int \<Rightarrow> string \<Rightarrow> int \<Rightarrow> shard \<Rightarrow> shard option" where
  "clock_insert 0 i key w sh =
     Some (sh\<lparr>sh_clockHand := go_rem (sh_clockHand sh + 1) (sh_freqCap sh)\<rparr>)"
| "clock_insert (Suc n) i key w sh =
     (let idx = go_rem (sh_clockHand sh + i) (sh_freqCap sh) in
      if \<not> in_ring sh idx then None
      else if ck_key (sh_frequency sh ! nat idx) = [] then
        (let sh1 = sh\<lparr>sh_frequency := (sh_frequency sh)
              [nat idx := \<lparr>ck_key = key, ck_reference = True, ck_weight = w\<rparr>]\<rparr>
         in Some (if sh_freqSize sh < sh_freqCap sh
                  then sh1\<lparr>sh_freqSize := sh_freqSize sh + 1\<rparr> else sh1))
      else clock_insert n (i + 1) key w sh)"

definition addToClock :: "string \<Rightarrow> int \<Rightarrow> shard \<Rightarrow> shard option" where
  "addToClock key w sh = clock_insert (nat (sh_freqCap sh)) 0 key w sh"

subsection \<open>Operations under the shard lock\<close>

text \<open>The locked part of \<^verbatim>\<open>Set\<close>, after the entry was built.\<close>

definition store_entry :: "cache_entry \<Rightarrow> shard \<Rightarrow> shard" where
  "store_entry entry sh =
     (let key = ce_Key entry;
          sh1 = (case map_of (sh_entries sh) key of
                   Some old \<Rightarrow> sh\<lparr>sh_usedMemory := sh_usedMemory sh - of_int (ce_Size old),
                                 sh_weight := sh_weight sh - ce_Weight old\<rparr>
                 | None \<Rightarrow> sh)
      in sh1\<lparr>sh_entries := AList.update key entry (sh_entries sh1),
             sh_usedMemory := sh_usedMemory sh1 + of_int (ce_Size entry),
             sh_weight := sh_weight sh1 + ce_Weight entry\<rparr>)"

definition shard_set :: "u64 \<Rightarrow> cache_entry \<Rightarrow> shard \<Rightarrow> shard option" where
  "shard_set limit entry sh =
     (case make_room limit (ce_Weight entry) sh of
        None \<Rightarrow> None
      | Some sh1 \<Rightarrow> addToClock (ce_Key entry) (ce_Weight entry) (store_entry entry sh1))"

text \<open>\<^verbatim>\<open>Demote\<close> clears the first slot that holds the key.\<close>

fun clock_remove :: "nat \<Rightarrow> int \<Rightarrow> string \<Rightarrow> shard \<Rightarrow> shard option" where
  "clock_remove 0 i key sh = Some sh"
| "clock_remove (Suc n) i key sh =
     (if \<not> in_ring sh i then None
      else if ck_key (sh_frequency sh ! nat i) = key then Some (clear_slot i sh)
      else clock_remove n (i + 1) key sh)"

text \<open>The access metadata \<^verbatim>\<open>Get\<close> updates in place.\<close>

definition touch_entry :: "go_time \<Rightarrow> string \<Rightarrow> cache_entry \<Rightarrow> shard \<Rightarrow> shard" where
  "touch_entry now key e sh =
     sh\<lparr>sh_entries := AList.update key
          (e\<lparr>ce_AccessedAt := now, ce_AccessCount := ce_AccessCount e + 1\<rparr>) (sh_entries sh)\<rparr>"

subsection \<open>The invariant\<close>

definition entry_ok :: "string \<Rightarrow> cache_entry \<Rightarrow> bool" where
  "entry_ok k e \<longleftrightarrow> k \<noteq> [] \<and> ce_Key e = k \<and> ce_Value e \<noteq> [] \<and>
     ce_Size e = int (length (ce_Value e)) \<and> ce_Weight e = (ce_Size e + 4095) div 4096"

definition acct_inv :: "shard \<Rightarrow> bool" where
  "acct_inv sh \<longleftrightarrow>
     distinct (map fst (sh_entries sh)) \<and>
     list_all (\<lambda>(k, e). entry_ok k e) (sh_entries sh) \<and>
     sh_usedMemory sh = (\<Sum>(_, e)\<leftarrow>sh_entries sh. of_int (ce_Size e)) \<and>
     sh_weight sh = (\<Sum>(_, e)\<leftarrow>sh_entries sh. ce_Weight e)"

definition used_slots :: "shard \<Rightarrow> int" where
  "used_slots sh = int (length (filter (\<lambda>ce. ck_key ce \<noteq> []) (sh_frequency sh)))"

definition ring_inv :: "shard \<Rightarrow> bool" where
  "ring_inv sh \<longleftrightarrow>
     sh_freqCap sh = int (length (sh_frequency sh)) \<and> 0 < sh_freqCap sh \<and>
     sh_freqSize sh = used_slots sh \<and>
     0 \<le> sh_clockHand sh \<and> sh_clockHand sh < sh_freqCap sh"

definition shard_inv :: "shard \<Rightarrow> bool" where
  "shard_inv sh \<longleftrightarrow> acct_inv sh \<and> ring_inv sh"

lemma used_slots_bounds: "0 \<le> used_slots sh" "used_slots sh \<le> int (length (sh_frequency sh))"
  by (simp_all add: used_slots_def)

lemma ring_inv_freqSize: "ring_inv sh \<Longrightarrow> 0 \<le> sh_freqSize sh \<and> sh_freqSize sh \<le> sh_freqCap sh"
  using used_slots_bounds [of sh] by (simp add: ring_inv_def)

lemma new_shard_inv [inv_intros]: "0 < n \<Longrightarrow> shard_inv (new_shard n)"
  by (simp add: shard_inv_def acct_inv_def ring_inv_def used_slots_def new_shard_def empty_clock_def)

text \<open>The accounts depend on the entries only, the ring part on the ring only.\<close>

lemma acct_inv_cong:
  "sh_entries sh' = sh_entries sh \<Longrightarrow> sh_usedMemory sh' = sh_usedMemory sh \<Longrightarrow>
   sh_weight sh' = sh_weight sh \<Longrightarrow> acct_inv sh' = acct_inv sh"
  by (simp add: acct_inv_def)

lemma ring_inv_cong:
  "sh_frequency sh' = sh_frequency sh \<Longrightarrow> sh_freqSize sh' = sh_freqSize sh \<Longrightarrow>
   sh_freqCap sh' = sh_freqCap sh \<Longrightarrow> sh_clockHand sh' = sh_clockHand sh \<Longrightarrow>
   ring_inv sh' = ring_inv sh"
  by (simp add: ring_inv_def used_slots_def)

lemma acct_inv_drop [inv_intros]:
  assumes "acct_inv sh" and "map_of (sh_entries sh) k = Some e"
  shows "acct_inv (drop_entry k e sh)"
  using assms
  by (auto simp: acct_inv_def drop_entry_def sum_AList_delete list_all_iff set_AList_delete)

lemma ring_inv_clear [inv_intros]:
  assumes "ring_inv sh" and "in_ring sh idx" and "ck_key (sh_frequency sh ! nat idx) \<noteq> []"
  shows "ring_inv (clear_slot idx sh)"
  using assms
  by (auto simp: ring_inv_def used_slots_def clear_slot_def in_ring_def length_filter_list_update)

lemma ring_inv_unreference:
  assumes "ring_inv sh" and "in_ring sh idx"
  shows "ring_inv (sh\<lparr>sh_frequency := (sh_frequency sh)
           [nat idx := (sh_frequency sh ! nat idx)\<lparr>ck_reference := b\<rparr>]\<rparr>)"
  using assms
  by (auto simp: ring_inv_def used_slots_def in_ring_def length_filter_list_update_same)

lemma go_rem_in_ring:
  assumes "ring_inv sh" and "0 \<le> i" and "0 < m" and "m \<le> sh_freqCap sh"
  shows "in_ring sh (go_rem (sh_clockHand sh + i) m)"
proof -
  have "0 \<le> sh_clockHand sh + i" using assms by (simp add: ring_inv_def)
  moreover have "(sh_clockHand sh + i) mod m < m" using assms(3) by simp
  then have "(sh_clockHand sh + i) mod m < sh_freqCap sh" using assms(4) by linarith
  ultimately show ?thesis
    using assms by (simp add: in_ring_def ring_inv_def)
qed

lemma evict_sweep_inv:
  assumes "shard_inv sh" and "0 < sh_freqSize sh" and "0 \<le> i"
  shows "\<exists>sh' b. evict_sweep n i sh = Some (sh', b) \<and> shard_inv sh' \<and>
           map_of (sh_entries sh') \<subseteq>\<^sub>m map_of (sh_entries sh)"
  using assms
proof (induction n i sh rule: evict_sweep.induct)
  case (1 i sh)
  then show ?case by auto
next
  case (2 n i sh)
  let ?idx = "go_rem (sh_clockHand sh + i) (sh_freqSize sh)"
  let ?ce = "sh_frequency sh ! nat ?idx"
  have ring: "ring_inv sh" and acct: "acct_inv sh" using 2(4) by (auto simp: shard_inv_def)
  have idx: "in_ring sh ?idx"
    using go_rem_in_ring [OF ring] ring_inv_freqSize [OF ring] 2 by simp
  consider (empty) "ck_key ?ce = []" | (second) "ck_key ?ce \<noteq> []" "ck_reference ?ce"
    | (stale) "ck_key ?ce \<noteq> []" "\<not> ck_reference ?ce" "map_of (sh_entries sh) (ck_key ?ce) = None"
    | (evict) e where "ck_key ?ce \<noteq> []" "\<not> ck_reference ?ce"
        "map_of (sh_entries sh) (ck_key ?ce) = Some e"
    by (cases "map_of (sh_entries sh) (ck_key ?ce)") auto
  then show ?case
  proof cases
    case empty
    then show ?thesis using 2 idx by (simp add: Let_def)
  next
    case second
    let ?sh1 = "sh\<lparr>sh_frequency := (sh_frequency sh)[nat ?idx := ?ce\<lparr>ck_reference := False\<rparr>]\<rparr>"
    have "shard_inv ?sh1"
      using ring_inv_unreference [OF ring idx] acct by (simp add: shard_inv_def acct_inv_def)
    then show ?thesis using 2 idx second by (simp add: Let_def)
  next
    case stale
    then show ?thesis using 2 idx by (simp add: Let_def)
  next
    case evict
    let ?sh0 = "(drop_entry (ck_key ?ce) e sh)\<lparr>sh_evicts := sh_evicts sh + 1\<rparr>"
    let ?sh1 = "clear_slot ?idx ?sh0"
    let ?sh2 = "?sh1\<lparr>sh_clockHand := go_rem (?idx + 1) (sh_freqCap sh)\<rparr>"
    have "acct_inv ?sh2"
      using acct_inv_drop [OF acct evict(3)]
      by (simp add: acct_inv_def clear_slot_def)
    moreover have "ring_inv ?sh0"
      using ring by (auto simp: ring_inv_def used_slots_def drop_entry_def)
    then have "ring_inv ?sh1"
      by (rule ring_inv_clear) (use idx evict in \<open>simp_all add: in_ring_def drop_entry_def\<close>)
    then have "ring_inv ?sh2"
      using idx by (auto simp: ring_inv_def used_slots_def in_ring_def clear_slot_def drop_entry_def)
    ultimately have "shard_inv ?sh2" by (simp add: shard_inv_def)
    moreover have "map_of (sh_entries ?sh2) \<subseteq>\<^sub>m map_of (sh_entries sh)"
      by (simp add: clear_slot_def drop_entry_def map_le_def)
    moreover have "evict_sweep (Suc n) i sh = Some (?sh2, True)"
      using idx evict by (simp add: Let_def)
    ultimately show ?thesis by blast
  qed
qed

lemma evictOne_inv:
  assumes "shard_inv sh"
  shows "\<exists>sh' b. evictOne sh = Some (sh', b) \<and> shard_inv sh' \<and>
           map_of (sh_entries sh') \<subseteq>\<^sub>m map_of (sh_entries sh)"
proof (cases "sh_freqSize sh = 0")
  case True
  then show ?thesis using assms by (auto simp: evictOne_def)
next
  case False
  then have "0 < sh_freqSize sh"
    using assms ring_inv_freqSize [of sh] by (simp add: shard_inv_def)
  from evict_sweep_inv [OF assms this order.refl] False show ?thesis
    by (simp add: evictOne_def)
qed

lemma make_room_inv:
  assumes "shard_inv sh"
  shows "\<exists>sh'. make_room limit w sh = Some sh' \<and> shard_inv sh' \<and>
           map_of (sh_entries sh') \<subseteq>\<^sub>m map_of (sh_entries sh)"
  using assms
proof (induction limit w sh rule: make_room.induct)
  case (1 limit w sh)
  obtain sh1 b where ev: "evictOne sh = Some (sh1, b)" "shard_inv sh1"
      "map_of (sh_entries sh1) \<subseteq>\<^sub>m map_of (sh_entries sh)"
    using evictOne_inv [OF 1(2)] by blast
  show ?case
  proof (cases "limit < sh_usedMemory sh + of_int w \<and> 0 < entriesLen sh \<and> b")
    case True
    then obtain sh' where "make_room limit w sh1 = Some sh'" "shard_inv sh'"
        "map_of (sh_entries sh') \<subseteq>\<^sub>m map_of (sh_entries sh1)"
      using 1(1) [of "(sh1, b)" sh1 b] ev by auto
    then show ?thesis
      using True ev by (simp add: make_room.simps [of limit w sh]) (blast intro: map_le_trans)
  next
    case False
    then show ?thesis
      using 1(2) ev by (auto simp: make_room.simps [of limit w sh])
  qed
qed

lemma ring_inv_fill:
  assumes "ring_inv sh" and "in_ring sh idx" and "ck_key (sh_frequency sh ! nat idx) = []"
    and "ck_key ce \<noteq> []"
  shows "sh_freqSize sh < sh_freqCap sh"
    and "ring_inv (sh\<lparr>sh_frequency := (sh_frequency sh)[nat idx := ce],
                      sh_freqSize := sh_freqSize sh + 1\<rparr>)"
proof -
  have "sh_frequency sh ! nat idx \<in> set (sh_frequency sh)"
    using assms(2) by (auto simp: in_ring_def)
  then have "length (filter (\<lambda>ce. ck_key ce \<noteq> []) (sh_frequency sh)) < length (sh_frequency sh)"
    using assms(3) by (auto intro: length_filter_less)
  then show "sh_freqSize sh < sh_freqCap sh"
    using assms(1) by (simp add: ring_inv_def used_slots_def)
  show "ring_inv (sh\<lparr>sh_frequency := (sh_frequency sh)[nat idx := ce],
                      sh_freqSize := sh_freqSize sh + 1\<rparr>)"
    using assms
    by (auto simp: ring_inv_def used_slots_def in_ring_def length_filter_list_update)
qed

text \<open>The fields the ring operations leave alone.\<close>

definition same_store :: "shard \<Rightarrow> shard \<Rightarrow> bool" where
  "same_store sh sh' \<longleftrightarrow> sh_entries sh' = sh_entries sh \<and> sh_usedMemory sh' = sh_usedMemory sh \<and>
     sh_weight sh' = sh_weight sh"

lemma same_store_acct: "same_store sh sh' \<Longrightarrow> acct_inv sh' = acct_inv sh"
  by (simp add: same_store_def acct_inv_def)

lemma clock_insert_inv:
  assumes "ring_inv sh" and "key \<noteq> []" and "0 \<le> i"
  shows "\<exists>sh'. clock_insert n i key w sh = Some sh' \<and> ring_inv sh' \<and> same_store sh sh'"
  using assms
proof (induction n i key w sh rule: clock_insert.induct)
  case (1 i key w sh)
  then show ?case by (auto simp: ring_inv_def used_slots_def same_store_def)
next
  case (2 n i key w sh)
  let ?idx = "go_rem (sh_clockHand sh + i) (sh_freqCap sh)"
  have idx: "in_ring sh ?idx"
    using go_rem_in_ring [OF 2(2,4), of "sh_freqCap sh"] 2(2) by (auto simp: ring_inv_def)
  show ?case
  proof (cases "ck_key (sh_frequency sh ! nat ?idx) = []")
    case True
    from ring_inv_fill [OF 2(2) idx True, of "\<lparr>ck_key = key, ck_reference = True, ck_weight = w\<rparr>"] 2(3)
    show ?thesis using True idx by (simp add: Let_def same_store_def)
  next
    case False
    then show ?thesis using 2 idx by (simp add: Let_def)
  qed
qed

lemma addToClock_inv:
  assumes "ring_inv sh" and "key \<noteq> []"
  shows "\<exists>sh'. addToClock key w sh = Some sh' \<and> ring_inv sh' \<and> same_store sh sh'"
  unfolding addToClock_def using assms by (intro clock_insert_inv) auto

lemma store_entry_acct [inv_intros]:
  assumes "acct_inv sh" and "entry_ok (ce_Key e) e"
  shows "acct_inv (store_entry e sh)"
proof -
  have "list_all (\<lambda>(k, e). entry_ok k e) (AList.update (ce_Key e) e (sh_entries sh))"
    using assms set_AList_update_subset [of "ce_Key e" e "sh_entries sh"]
    by (auto simp: acct_inv_def list_all_iff)
  then show ?thesis
    using assms(1)
    by (cases "map_of (sh_entries sh) (ce_Key e)")
      (simp_all add: acct_inv_def store_entry_def Let_def sum_AList_update)
qed

lemma store_entry_entries [simp]:
  "sh_entries (store_entry e sh) = AList.update (ce_Key e) e (sh_entries sh)"
  by (simp add: store_entry_def Let_def split: option.splits)

lemma store_entry_ring [simp]: "ring_inv (store_entry e sh) = ring_inv sh"
  by (rule ring_inv_cong) (simp_all add: store_entry_def Let_def split: option.splits)

lemma shard_set_inv:
  assumes "shard_inv sh" and "entry_ok (ce_Key e) e"
  shows "\<exists>sh'. shard_set limit e sh = Some sh' \<and> shard_inv sh' \<and>
           map_of (sh_entries sh') (ce_Key e) = Some e \<and>
           (\<forall>k'. k' \<noteq> ce_Key e \<longrightarrow> map_of (sh_entries sh') k' \<noteq> None \<longrightarrow>
              map_of (sh_entries sh') k' = map_of (sh_entries sh) k')"
proof -
  obtain sh1 where mr: "make_room limit (ce_Weight e) sh = Some sh1" "shard_inv sh1"
      "map_of (sh_entries sh1) \<subseteq>\<^sub>m map_of (sh_entries sh)"
    using make_room_inv [OF assms(1)] by blast
  have key: "ce_Key e \<noteq> []" using assms(2) by (simp add: entry_ok_def)
  obtain sh' where ac: "addToClock (ce_Key e) (ce_Weight e) (store_entry e sh1) = Some sh'"
      "ring_inv sh'" "same_store (store_entry e sh1) sh'"
    using addToClock_inv [of "store_entry e sh1" "ce_Key e" "ce_Weight e"] mr(2) key
    by (auto simp: shard_inv_def)
  have "acct_inv sh'"
    using same_store_acct [OF ac(3)] store_entry_acct [OF _ assms(2)] mr(2)
    by (simp add: shard_inv_def)
  moreover have "sh_entries sh' = AList.update (ce_Key e) e (sh_entries sh1)"
    using ac(3) by (simp add: same_store_def)
  ultimately show ?thesis
    using mr ac by (auto simp: shard_set_def shard_inv_def map_le_def dom_def)
qed

lemma clock_remove_inv:
  assumes "ring_inv sh" and "key \<noteq> []" and "0 \<le> i" and "i + int n \<le> sh_freqCap sh"
  shows "\<exists>sh'. clock_remove n i key sh = Some sh' \<and> ring_inv sh' \<and> same_store sh sh'"
  using assms
proof (induction n i key sh rule: clock_remove.induct)
  case (1 i key sh)
  then show ?case by (simp add: same_store_def)
next
  case (2 n i key sh)
  have idx: "in_ring sh i" using 2 by (simp add: in_ring_def ring_inv_def)
  show ?case
  proof (cases "ck_key (sh_frequency sh ! nat i) = key")
    case True
    then show ?thesis
      using ring_inv_clear [OF 2(2) idx] 2(3) idx by (simp add: same_store_def clear_slot_def)
  next
    case False
    then show ?thesis using 2 idx by simp
  qed
qed

end
