(* ===== verification/L0_Cache.thy ===== *)
theory L0_Cache
  imports L0_Shard Tier_Spec Floats "HOL-Library.Monad_Syntax" "HOL-Library.Multiset"
begin

text \<open>
  The in-memory tier (\<^verbatim>\<open>pkg/l0/l0_cache.go\<close>, \<^verbatim>\<open>pkg/l0/stats.go\<close>): construction with its
  checks and defaults, the keyed operations with every guard and early return, and the
  statistics. A keyed operation holds one shard lock from its lookup to its return, so it is
  one atomic step on the cache. Results: an option for a run-time panic (division by a zero
  shard count, an index outside the shard or ring slice) around the new state and the Go
  return values.
\<close>

subsection \<open>State\<close>

record l0_stats =
  s0_Hits :: u64
  s0_Misses :: u64
  s0_Sets :: u64
  s0_Deletes :: u64
  s0_Evictions :: u64
  s0_Entries :: int
  s0_TotalWeight :: int
  s0_MemoryUsed :: u64
  s0_MemoryLimit :: u64
  s0_HitRate :: f64

definition zero_l0_stats :: l0_stats where
  "zero_l0_stats =
     \<lparr>s0_Hits = 0, s0_Misses = 0, s0_Sets = 0, s0_Deletes = 0, s0_Evictions = 0,
      s0_Entries = 0, s0_TotalWeight = 0, s0_MemoryUsed = 0, s0_MemoryLimit = 0,
      s0_HitRate = F64 0\<rparr>"

definition stats_Add :: "l0_stats \<Rightarrow> l0_stats \<Rightarrow> l0_stats" where
  "stats_Add other s =
     s\<lparr>s0_Hits := s0_Hits s + s0_Hits other, s0_Misses := s0_Misses s + s0_Misses other,
       s0_Sets := s0_Sets s + s0_Sets other, s0_Deletes := s0_Deletes s + s0_Deletes other,
       s0_Evictions := s0_Evictions s + s0_Evictions other\<rparr>"

definition stats_Reset :: "l0_stats \<Rightarrow> l0_stats" where
  "stats_Reset s =
     s\<lparr>s0_Hits := 0, s0_Misses := 0, s0_Sets := 0, s0_Deletes := 0, s0_Evictions := 0\<rparr>"

record l0_config =
  c0_MaxMemoryMB :: u32
  c0_MaxPayloadBytes :: u32
  c0_WeightedUnit :: u32
  c0_ShardCount :: u32
  c0_SnapshotPath :: string
  c0_SnapshotInt :: int
  c0_EnableSnapshot :: bool

record l0_cache =
  l0_shards :: "shard list"
  l0_shardCount :: u32
  l0_maxMemory :: u64
  l0_maxPayload :: int
  l0_weightedUnit :: int
  l0_snapshotPath :: string
  l0_snapshotInt :: int
  l0_enableSnapshot :: bool
  l0_stats :: l0_stats
  l0_closed :: bool
  l0_snapshotting :: bool
  l0_cancelled :: bool

subsection \<open>Construction\<close>

definition DefaultL0ShardCount :: u32 where
  "DefaultL0ShardCount = 64"

definition MinFrequencySize :: int where
  "MinFrequencySize = 1024"

text \<open>The clock ring of each shard: a quarter of its 4 KB units, 1024 slots at least.\<close>

definition ring_size :: "u64 \<Rightarrow> u32 \<Rightarrow> u32 \<Rightarrow> int" where
  "ring_size maxMemory shardCount weightedUnit =
     (let perShardMem = maxMemory div ucast shardCount;
          freqSize = int (unat (perShardMem div ucast weightedUnit div 4))
      in if freqSize < MinFrequencySize then MinFrequencySize else freqSize)"

definition L0_New :: "l0_config option \<Rightarrow> go_error + l0_cache" where
  "L0_New cfg0 =
     (case cfg0 of
        None \<Rightarrow> Inl (NewConfigError ''config'' GNil ''configuration cannot be nil'' [])
      | Some cfg \<Rightarrow>
        if c0_MaxMemoryMB cfg = 0 then
          Inl (NewConfigError ''config.max_memory_mb'' (GInt 0) ''must be greater than 0'' [])
        else if c0_MaxPayloadBytes cfg = 0 then
          Inl (NewConfigError ''config.max_payload_bytes'' (GInt 0) ''must be greater than 0'' [])
        else
          let shardCount = (if c0_ShardCount cfg = 0 then DefaultL0ShardCount else c0_ShardCount cfg);
              weightedUnit = (if c0_WeightedUnit cfg = 0 then of_int WeightedUnitBytes
                              else c0_WeightedUnit cfg);
              maxMemory = ucast (c0_MaxMemoryMB cfg) * 1024 * 1024 :: u64;
              freqSize = ring_size maxMemory shardCount weightedUnit
          in Inr \<lparr>l0_shards = replicate (unat shardCount) (new_shard (nat freqSize)),
                  l0_shardCount = shardCount, l0_maxMemory = maxMemory,
                  l0_maxPayload = int (unat (c0_MaxPayloadBytes cfg)),
                  l0_weightedUnit = int (unat weightedUnit),
                  l0_snapshotPath = c0_SnapshotPath cfg, l0_snapshotInt = c0_SnapshotInt cfg,
                  l0_enableSnapshot = c0_EnableSnapshot cfg, l0_stats = zero_l0_stats,
                  l0_closed = False, l0_snapshotting = False, l0_cancelled = False\<rparr>)"

lemma ring_size_pos [simp]: "0 < ring_size m sc w"
  by (simp add: ring_size_def MinFrequencySize_def Let_def)

subsection \<open>Shard selection\<close>

text \<open>\<^verbatim>\<open>c.shards[h.Sum32() % c.shardCount]\<close>: a zero count or an index outside the slice panics.\<close>

definition shard_index :: "u32 \<Rightarrow> string \<Rightarrow> nat" where
  "shard_index n key = unat (fnv32a (bytes_of key) mod n)"

definition getShard :: "l0_cache \<Rightarrow> string \<Rightarrow> nat option" where
  "getShard c key =
     (if l0_shardCount c = 0 then None
      else let i = shard_index (l0_shardCount c) key
           in if i < length (l0_shards c) then Some i else None)"

definition put_shard :: "nat \<Rightarrow> shard \<Rightarrow> l0_cache \<Rightarrow> l0_cache" where
  "put_shard i sh c = c\<lparr>l0_shards := (l0_shards c)[i := sh]\<rparr>"

definition getShardMemoryLimit :: "l0_cache \<Rightarrow> u64" where
  "getShardMemoryLimit c = l0_maxMemory c div ucast (l0_shardCount c)"

definition L0_closed_error :: "string \<Rightarrow> go_error" where
  "L0_closed_error op = NewInitError ''l0'' op (Some (ErrCode ErrCodeClosed)) False"

subsection \<open>Keyed operations\<close>

definition count_miss :: "nat \<Rightarrow> shard \<Rightarrow> l0_cache \<Rightarrow> l0_cache" where
  "count_miss i sh c =
     (put_shard i (sh\<lparr>sh_misses := sh_misses sh + 1\<rparr>) c)
       \<lparr>l0_stats := (l0_stats c)\<lparr>s0_Misses := s0_Misses (l0_stats c) + 1\<rparr>\<rparr>"

definition count_hit :: "nat \<Rightarrow> shard \<Rightarrow> l0_cache \<Rightarrow> l0_cache" where
  "count_hit i sh c =
     (put_shard i (sh\<lparr>sh_hits := sh_hits sh + 1\<rparr>) c)
       \<lparr>l0_stats := (l0_stats c)\<lparr>s0_Hits := s0_Hits (l0_stats c) + 1\<rparr>\<rparr>"

definition L0_Get :: "go_time \<Rightarrow> string \<Rightarrow> l0_cache \<Rightarrow> (l0_cache \<times> (go_error + bytes)) option" where
  "L0_Get now key c =
     (if l0_closed c then Some (c, Inl (L0_closed_error ''get''))
      else if key = [] then
        Some (c, Inl (NewConfigError ''key'' (GStr key) ''key cannot be empty'' []))
      else if l0_maxPayload c < int (length key) then
        Some (c, Inl (NewConfigError ''key'' (GStr key)
          (''key exceeds max payload size ('' @ fmt_d (l0_maxPayload c) @ '' bytes)'') []))
      else do {
        i \<leftarrow> getShard c key;
        let sh = l0_shards c ! i;
        Some (case map_of (sh_entries sh) key of
            None \<Rightarrow> (count_miss i sh c, Inl (ErrCode ErrCodeNotFound))
          | Some entry \<Rightarrow>
              if IsExpired now entry then (count_miss i sh c, Inl (ErrCode ErrCodeNotFound))
              else (count_hit i (touch_entry now key entry sh) c, Inr (ce_Value entry)))
      })"

definition L0_Set ::
    "go_time \<Rightarrow> string \<Rightarrow> bytes \<Rightarrow> int \<Rightarrow> l0_cache \<Rightarrow> (l0_cache \<times> go_error option) option" where
  "L0_Set now key v ttl c =
     (if l0_closed c then Some (c, Some (L0_closed_error ''set''))
      else if key = [] then
        Some (c, Some (NewConfigError ''key'' (GStr key) ''key cannot be empty'' []))
      else if v = [] then
        Some (c, Some (NewConfigError ''value'' (GBytes v) ''value cannot be empty'' []))
      else if l0_maxPayload c < int (length v) then
        Some (c, Some (NewConfigError ''value'' (GInt (int (length v)))
          (''value exceeds max payload size ('' @ fmt_d (l0_maxPayload c) @ '' bytes)'') []))
      else do {
        i \<leftarrow> getShard c key;
        let entry = NewCacheEntry now key v ttl;
        sh \<leftarrow> shard_set (getShardMemoryLimit c) entry (l0_shards c ! i);
        let c1 = put_shard i sh c;
        Some (c1\<lparr>l0_stats := (l0_stats c1)\<lparr>s0_Sets := s0_Sets (l0_stats c1) + 1\<rparr>\<rparr>, None)
      })"

definition L0_Delete :: "string \<Rightarrow> l0_cache \<Rightarrow> (l0_cache \<times> go_error option) option" where
  "L0_Delete key c =
     (if l0_closed c then Some (c, Some (L0_closed_error ''delete''))
      else if key = [] then
        Some (c, Some (NewConfigError ''key'' (GStr key) ''key cannot be empty'' []))
      else do {
        i \<leftarrow> getShard c key;
        let sh = l0_shards c ! i;
        Some (case map_of (sh_entries sh) key of
            None \<Rightarrow> (c, Some (ErrCode ErrCodeNotFound))
          | Some entry \<Rightarrow>
              (let c1 = put_shard i (drop_entry key entry sh) c in
               (c1\<lparr>l0_stats := (l0_stats c1)\<lparr>s0_Deletes := s0_Deletes (l0_stats c1) + 1\<rparr>\<rparr>, None)))
      })"

definition L0_GetOrSet ::
    "go_time \<Rightarrow> string \<Rightarrow> bytes \<Rightarrow> int \<Rightarrow> l0_cache \<Rightarrow>
     (l0_cache \<times> (go_error + bytes \<times> bool)) option" where
  "L0_GetOrSet now key v ttl c =
     do {
       (c1, r) \<leftarrow> L0_Get now key c;
       (case r of
          Inr val \<Rightarrow> Some (c1, Inr (val, False))
        | Inl err \<Rightarrow>
            if err \<noteq> ErrCode ErrCodeNotFound then Some (c1, Inl err)
            else do {
              (c2, e) \<leftarrow> L0_Set now key v ttl c1;
              Some (case e of Some err2 \<Rightarrow> (c2, Inl err2) | None \<Rightarrow> (c2, Inr (v, True)))
            })
     }"

definition L0_Exists :: "go_time \<Rightarrow> string \<Rightarrow> l0_cache \<Rightarrow> (go_error + bool) option" where
  "L0_Exists now key c =
     (if l0_closed c then Some (Inl (L0_closed_error ''exists''))
      else do {
        i \<leftarrow> getShard c key;
        Some (case map_of (sh_entries (l0_shards c ! i)) key of
            None \<Rightarrow> Inr False
          | Some entry \<Rightarrow> if IsExpired now entry then Inr False else Inr True)
      })"

definition L0_GetTier :: "string \<Rightarrow> l0_cache \<Rightarrow> (tier \<times> go_error option) option" where
  "L0_GetTier key c =
     (if l0_closed c then Some (TierUnknown, Some (L0_closed_error ''get_tier''))
      else do {
        i \<leftarrow> getShard c key;
        Some (case map_of (sh_entries (l0_shards c ! i)) key of
            None \<Rightarrow> (TierUnknown, Some (ErrCode ErrCodeNotFound))
          | Some _ \<Rightarrow> (TierL0, None))
      })"

definition L0_Promote :: "string \<Rightarrow> l0_cache \<Rightarrow> (go_error + cache_entry) option" where
  "L0_Promote key c =
     (if l0_closed c then Some (Inl (L0_closed_error ''promote''))
      else do {
        i \<leftarrow> getShard c key;
        Some (case map_of (sh_entries (l0_shards c ! i)) key of
            None \<Rightarrow> Inl (ErrCode ErrCodeNotFound)
          | Some entry \<Rightarrow> Inr entry)
      })"

definition L0_Demote :: "string \<Rightarrow> l0_cache \<Rightarrow> (l0_cache \<times> go_error option) option" where
  "L0_Demote key c =
     (if l0_closed c then Some (c, Some (L0_closed_error ''demote''))
      else do {
        i \<leftarrow> getShard c key;
        let sh = l0_shards c ! i;
        (case map_of (sh_entries sh) key of
            None \<Rightarrow> Some (c, Some (ErrCode ErrCodeNotFound))
          | Some entry \<Rightarrow> do {
              sh1 \<leftarrow> clock_remove (nat (sh_freqCap sh)) 0 key (drop_entry key entry sh);
              Some (put_shard i sh1 c, None)
            })
      })"

subsection \<open>Statistics and eviction candidates\<close>

definition calculateHitRate :: "u64 \<Rightarrow> u64 \<Rightarrow> f64" where
  "calculateHitRate hits misses =
     (let total = hits + misses in
      if total = 0 then F64 0
      else f64_div (f64_of_int (uint hits)) (f64_of_int (uint total)))"

definition L0_Stats :: "l0_cache \<Rightarrow> go_error + l0_stats" where
  "L0_Stats c =
     (if l0_closed c then Inl (L0_closed_error ''stats'')
      else
        let totalHits = (\<Sum>s\<leftarrow>l0_shards c. sh_hits s);
            totalMisses = (\<Sum>s\<leftarrow>l0_shards c. sh_misses s)
        in Inr \<lparr>s0_Hits = totalHits, s0_Misses = totalMisses,
                s0_Sets = s0_Sets (l0_stats c), s0_Deletes = s0_Deletes (l0_stats c),
                s0_Evictions = (\<Sum>s\<leftarrow>l0_shards c. sh_evicts s),
                s0_Entries = (\<Sum>s\<leftarrow>l0_shards c. entriesLen s),
                s0_TotalWeight = (\<Sum>s\<leftarrow>l0_shards c. sh_weight s),
                s0_MemoryUsed = (\<Sum>s\<leftarrow>l0_shards c. sh_usedMemory s),
                s0_MemoryLimit = l0_maxMemory c,
                s0_HitRate = calculateHitRate totalHits totalMisses\<rparr>)"

definition L0_Weight :: "l0_cache \<Rightarrow> int" where
  "L0_Weight c = (\<Sum>s\<leftarrow>l0_shards c. sh_weight s)"

definition L0_MemoryUsage :: "l0_cache \<Rightarrow> u64" where
  "L0_MemoryUsage c = (\<Sum>s\<leftarrow>l0_shards c. sh_usedMemory s)"

definition L0_UsageRatio :: "l0_cache \<Rightarrow> f64" where
  "L0_UsageRatio c =
     f64_div (f64_of_int (uint (L0_MemoryUsage c))) (f64_of_int (uint (l0_maxMemory c)))"

text \<open>
  Go iterates over a map in an unspecified order: \<open>iter\<close> gives the order of a shard's entries
  in this call.
\<close>

type_synonym iter_order = "shard \<Rightarrow> (string \<times> cache_entry) list"

definition iter_ok :: "iter_order \<Rightarrow> bool" where
  "iter_ok iter \<longleftrightarrow> (\<forall>sh. mset (iter sh) = mset (sh_entries sh))"

fun candidates_shard ::
    "int \<Rightarrow> (string \<times> cache_entry) list \<Rightarrow> cache_entry list \<Rightarrow> cache_entry list" where
  "candidates_shard cnt [] acc = acc"
| "candidates_shard cnt ((k, e) # ps) acc =
     (if cnt \<le> int (length acc) then acc else candidates_shard cnt ps (acc @ [e]))"

fun candidates_loop ::
    "iter_order \<Rightarrow> int \<Rightarrow> shard list \<Rightarrow> cache_entry list \<Rightarrow> cache_entry list" where
  "candidates_loop iter cnt [] acc = acc"
| "candidates_loop iter cnt (sh # shs) acc =
     (let acc1 = candidates_shard cnt (iter sh) acc in
      if cnt \<le> int (length acc1) then acc1 else candidates_loop iter cnt shs acc1)"

definition L0_EvictCandidates ::
    "iter_order \<Rightarrow> int \<Rightarrow> l0_cache \<Rightarrow> go_error + cache_entry list" where
  "L0_EvictCandidates iter cnt c =
     (if l0_closed c then Inl (L0_closed_error ''evict_candidates'')
      else Inr (candidates_loop iter cnt (l0_shards c) []))"

subsection \<open>The cache invariant\<close>

text \<open>Every shard satisfies its invariant and holds only keys that hash to it.\<close>

definition cache_inv :: "l0_cache \<Rightarrow> bool" where
  "cache_inv c \<longleftrightarrow>
     l0_shardCount c \<noteq> 0 \<and> length (l0_shards c) = unat (l0_shardCount c) \<and>
     (\<forall>i < length (l0_shards c). shard_inv (l0_shards c ! i) \<and>
        (\<forall>k \<in> fst ` set (sh_entries (l0_shards c ! i)). shard_index (l0_shardCount c) k = i))"

lemma shard_index_less: "n \<noteq> 0 \<Longrightarrow> shard_index n key < unat n"
  by (simp add: shard_index_def word_mod_less_divisor word_gt_0 unat_mono)

lemma getShard_Some:
  "cache_inv c \<Longrightarrow> getShard c key = Some (shard_index (l0_shardCount c) key)"
  by (simp add: getShard_def cache_inv_def Let_def shard_index_less)

lemma cache_inv_shard:
  "cache_inv c \<Longrightarrow> shard_inv (l0_shards c ! shard_index (l0_shardCount c) key)"
  by (simp add: cache_inv_def shard_index_less)

lemma shard_index_in_range:
  "cache_inv c \<Longrightarrow> shard_index (l0_shardCount c) key < length (l0_shards c)"
  by (simp add: cache_inv_def shard_index_less)

text \<open>Replacing a shard by one with the invariant and keys of that shard keeps the cache's.\<close>

lemma cache_inv_put_shard:
  assumes "cache_inv c" and "shard_inv sh" and "i < length (l0_shards c)"
    and "\<And>k. k \<in> fst ` set (sh_entries sh) \<Longrightarrow> shard_index (l0_shardCount c) k = i"
  shows "cache_inv (put_shard i sh c)"
  using assms by (auto simp: cache_inv_def put_shard_def nth_list_update)

lemma cache_inv_stats [simp]: "cache_inv (c\<lparr>l0_stats := st\<rparr>) = cache_inv c"
  by (simp add: cache_inv_def)

subsection \<open>What the cache stores\<close>

definition l0_entry :: "l0_cache \<Rightarrow> string \<rightharpoonup> cache_entry" where
  "l0_entry c k = map_of (sh_entries (l0_shards c ! shard_index (l0_shardCount c) k)) k"

definition l0_stored :: "l0_cache \<Rightarrow> string \<rightharpoonup> bytes" where
  "l0_stored c k = map_option ce_Value (l0_entry c k)"

lemma put_shard_simps [simp]:
  "l0_shardCount (put_shard i sh c) = l0_shardCount c"
  "l0_closed (put_shard i sh c) = l0_closed c"
  "l0_maxPayload (put_shard i sh c) = l0_maxPayload c"
  "l0_stats (put_shard i sh c) = l0_stats c"
  "length (l0_shards (put_shard i sh c)) = length (l0_shards c)"
  by (simp_all add: put_shard_def)

lemma l0_entry_stats [simp]: "l0_entry (c\<lparr>l0_stats := st\<rparr>) = l0_entry c"
  by (simp add: l0_entry_def fun_eq_iff)

lemma l0_stored_stats [simp]: "l0_stored (c\<lparr>l0_stats := st\<rparr>) = l0_stored c"
  by (simp add: l0_stored_def fun_eq_iff)

lemma l0_entry_put_shard:
  "i < length (l0_shards c) \<Longrightarrow>
   l0_entry (put_shard i sh c) k =
     (if shard_index (l0_shardCount c) k = i then map_of (sh_entries sh) k else l0_entry c k)"
  by (auto simp: l0_entry_def put_shard_def)

text \<open>
  One keyed operation: the shard \<open>i\<close> of the key becomes \<open>sh'\<close>, which holds the key's new
  value \<open>r\<close> and otherwise only entries it held before.
\<close>

lemma keyed_update:
  fixes c :: l0_cache and key :: string
  defines "i \<equiv> shard_index (l0_shardCount c) key"
  assumes inv: "cache_inv c" and sh': "shard_inv sh'"
    and others: "\<And>k. k \<noteq> key \<Longrightarrow> map_of (sh_entries sh') k \<noteq> None \<Longrightarrow>
      map_of (sh_entries sh') k = map_of (sh_entries (l0_shards c ! i)) k"
  shows "cache_inv (put_shard i sh' c)"
    and "l0_entry (put_shard i sh' c) \<subseteq>\<^sub>m (l0_entry c)(key := map_of (sh_entries sh') key)"
    and "l0_entry (put_shard i sh' c) key = map_of (sh_entries sh') key"
proof -
  have i: "i < length (l0_shards c)" unfolding i_def by (rule shard_index_in_range [OF inv])
  have idx: "shard_index (l0_shardCount c) k = i" if "k \<in> fst ` set (sh_entries sh')" for k
  proof (cases "k = key")
    case True
    then show ?thesis by (simp add: i_def)
  next
    case False
    from that have "map_of (sh_entries sh') k \<noteq> None" by (simp add: map_of_eq_None_iff)
    with others [OF False this] have "k \<in> fst ` set (sh_entries (l0_shards c ! i))"
      by (metis map_of_eq_None_iff)
    then show ?thesis using inv i by (auto simp: cache_inv_def)
  qed
  show "cache_inv (put_shard i sh' c)"
    by (rule cache_inv_put_shard [OF inv sh' i idx])
  have ik: "shard_index (l0_shardCount c) key = i" by (simp add: i_def)
  note put = l0_entry_put_shard [OF i]
  show "l0_entry (put_shard i sh' c) key = map_of (sh_entries sh') key"
    by (simp add: put ik)
  have "l0_entry (put_shard i sh' c) k = ((l0_entry c)(key := map_of (sh_entries sh') key)) k"
    if "l0_entry (put_shard i sh' c) k \<noteq> None" for k
  proof (cases "k = key \<or> shard_index (l0_shardCount c) k \<noteq> i")
    case True
    then show ?thesis by (auto simp: put ik)
  next
    case False
    with that have "map_of (sh_entries sh') k \<noteq> None" by (simp add: put)
    moreover have "l0_entry c k = map_of (sh_entries (l0_shards c ! i)) k"
      using False by (simp add: l0_entry_def)
    ultimately show ?thesis using others [of k] False by (simp add: put)
  qed
  then show "l0_entry (put_shard i sh' c) \<subseteq>\<^sub>m (l0_entry c)(key := map_of (sh_entries sh') key)"
    by (auto simp: map_le_def dom_def)
qed

lemma l0_entry_le_stored: "l0_entry c' \<subseteq>\<^sub>m (l0_entry c)(k := e) \<Longrightarrow>
    l0_stored c' \<subseteq>\<^sub>m (l0_stored c)(k := map_option ce_Value e)"
  by (force simp: map_le_def l0_stored_def dom_def)

subsection \<open>Each operation keeps the invariant\<close>

abbreviation l0_idx :: "l0_cache \<Rightarrow> string \<Rightarrow> nat" where
  "l0_idx c k \<equiv> shard_index (l0_shardCount c) k"

abbreviation l0_shard :: "l0_cache \<Rightarrow> string \<Rightarrow> shard" where
  "l0_shard c k \<equiv> l0_shards c ! l0_idx c k"

lemma shard_inv_entry_ok:
  "shard_inv sh \<Longrightarrow> map_of (sh_entries sh) k = Some e \<Longrightarrow> entry_ok k e"
  by (auto simp: shard_inv_def acct_inv_def list_all_iff dest!: map_of_SomeD)

lemma touch_acct:
  assumes "acct_inv sh" and "map_of (sh_entries sh) k = Some e"
  shows "acct_inv (touch_entry now k e sh)"
proof -
  have ok: "entry_ok k e"
    using assms by (auto simp: acct_inv_def list_all_iff dest!: map_of_SomeD)
  let ?e = "e\<lparr>ce_AccessedAt := now, ce_AccessCount := ce_AccessCount e + 1\<rparr>"
  have "list_all (\<lambda>(k, e). entry_ok k e) (AList.update k ?e (sh_entries sh))"
    using assms ok set_AList_update_subset [of k ?e "sh_entries sh"]
    by (auto simp: acct_inv_def list_all_iff entry_ok_def)
  then show ?thesis
    using assms by (simp add: acct_inv_def touch_entry_def sum_AList_update)
qed

lemma NewCacheEntry_ok [inv_intros]:
  assumes "key \<noteq> []" and "v \<noteq> []"
  shows "entry_ok (ce_Key (NewCacheEntry now key v ttl)) (NewCacheEntry now key v ttl)"
  using assms by (simp add: entry_ok_def NewCacheEntry_def Let_def WeightedUnitBytes_def)

lemma NewCacheEntry_sel [simp]:
  "ce_Key (NewCacheEntry now key v ttl) = key"
  "ce_Value (NewCacheEntry now key v ttl) = v"
  "ce_TTL (NewCacheEntry now key v ttl) = ttl"
  "ce_CreatedAt (NewCacheEntry now key v ttl) = now"
  "ce_Size (NewCacheEntry now key v ttl) = int (length v)"
  by (simp_all add: NewCacheEntry_def Let_def)

text \<open>Bumping a shard counter.\<close>

lemma shard_inv_counters [simp]:
  "shard_inv (sh\<lparr>sh_hits := a\<rparr>) = shard_inv sh"
  "shard_inv (sh\<lparr>sh_misses := a\<rparr>) = shard_inv sh"
  by (simp_all add: shard_inv_def acct_inv_def ring_inv_def used_slots_def)

lemma count_miss_inv:
  assumes "cache_inv c"
  shows "cache_inv (count_miss (l0_idx c k) (l0_shard c k) c)"
    and "l0_stored (count_miss (l0_idx c k) (l0_shard c k) c) \<subseteq>\<^sub>m l0_stored c"
proof -
  let ?sh = "(l0_shard c k)\<lparr>sh_misses := sh_misses (l0_shard c k) + 1\<rparr>"
  have sh: "shard_inv ?sh" using cache_inv_shard [OF assms] by simp
  note ku = keyed_update [OF assms sh, of k]
  show "cache_inv (count_miss (l0_idx c k) (l0_shard c k) c)"
    using ku(1) by (simp add: count_miss_def)
  have "(l0_entry c)(k := map_of (sh_entries ?sh) k) = l0_entry c"
    by (simp add: fun_eq_iff l0_entry_def)
  with ku(2) have "l0_entry (put_shard (l0_idx c k) ?sh c) \<subseteq>\<^sub>m l0_entry c" by simp
  then show "l0_stored (count_miss (l0_idx c k) (l0_shard c k) c) \<subseteq>\<^sub>m l0_stored c"
    by (force simp: count_miss_def map_le_def l0_stored_def dom_def)
qed

lemma count_hit_inv:
  fixes now :: go_time
  assumes inv: "cache_inv c" and e: "l0_entry c k = Some e"
  defines "sh1 \<equiv> touch_entry now k e (l0_shard c k)"
  shows "cache_inv (count_hit (l0_idx c k) sh1 c)"
    and "l0_stored (count_hit (l0_idx c k) sh1 c) \<subseteq>\<^sub>m l0_stored c"
proof -
  let ?sh = "sh1\<lparr>sh_hits := sh_hits sh1 + 1\<rparr>"
  have e': "map_of (sh_entries (l0_shard c k)) k = Some e" using e by (simp add: l0_entry_def)
  have "ring_inv sh1 = ring_inv (l0_shard c k)"
    unfolding sh1_def by (rule ring_inv_cong) (simp_all add: touch_entry_def)
  then have "shard_inv sh1"
    using cache_inv_shard [OF inv, of k] touch_acct [OF _ e', of now]
    by (simp add: shard_inv_def sh1_def)
  then have sh: "shard_inv ?sh" by simp
  have "map_of (sh_entries ?sh) j = map_of (sh_entries (l0_shard c k)) j" if "j \<noteq> k" for j
    using that by (simp add: sh1_def touch_entry_def)
  note ku = keyed_update [OF inv sh this]
  show "cache_inv (count_hit (l0_idx c k) sh1 c)"
    using ku(1) by (simp add: count_hit_def)
  have "map_option ce_Value (map_of (sh_entries ?sh) k) = l0_stored c k"
    using e by (simp add: sh1_def touch_entry_def l0_stored_def)
  then have "(l0_stored c)(k := map_option ce_Value (map_of (sh_entries ?sh) k)) = l0_stored c"
    by (simp add: fun_eq_iff)
  with l0_entry_le_stored [OF ku(2)]
  have "l0_stored (put_shard (l0_idx c k) ?sh c) \<subseteq>\<^sub>m l0_stored c" by simp
  then show "l0_stored (count_hit (l0_idx c k) sh1 c) \<subseteq>\<^sub>m l0_stored c"
    by (simp add: count_hit_def)
qed

lemma L0_Get_cases:
  assumes "cache_inv c"
  obtains (rejected) e where "L0_Get now key c = Some (c, Inl e)"
      "l0_closed c \<or> key = [] \<or> l0_maxPayload c < int (length key)" "e \<noteq> ErrCode ErrCodeNotFound"
  | (miss) "L0_Get now key c =
        Some (count_miss (l0_idx c key) (l0_shard c key) c, Inl (ErrCode ErrCodeNotFound))"
      "\<And>e. l0_entry c key = Some e \<Longrightarrow> IsExpired now e"
  | (hit) e where "L0_Get now key c =
        Some (count_hit (l0_idx c key) (touch_entry now key e (l0_shard c key)) c, Inr (ce_Value e))"
      "l0_entry c key = Some e" "\<not> IsExpired now e"
proof -
  consider (bad) "l0_closed c \<or> key = [] \<or> l0_maxPayload c < int (length key)"
    | (none) "\<not> (l0_closed c \<or> key = [] \<or> l0_maxPayload c < int (length key))"
        "l0_entry c key = None"
    | (some) e where "\<not> (l0_closed c \<or> key = [] \<or> l0_maxPayload c < int (length key))"
        "l0_entry c key = Some e"
    by (cases "l0_entry c key") auto
  then show ?thesis
  proof cases
    case bad
    then show ?thesis
      by (intro rejected [of "projl (snd (the (L0_Get now key c)))"])
        (auto simp: L0_Get_def NewConfigError_def L0_closed_error_def NewInitError_def)
  next
    case none
    then show ?thesis
      by (intro miss) (simp_all add: L0_Get_def getShard_Some [OF assms] l0_entry_def)
  next
    case some
    then show ?thesis
      using miss hit by (cases "IsExpired now e")
        (simp_all add: L0_Get_def getShard_Some [OF assms] l0_entry_def)
  qed
qed

lemma L0_Set_cases:
  assumes "cache_inv c"
  obtains (rejected) e where "L0_Set now key v ttl c = Some (c, Some e)"
      "l0_closed c \<or> key = [] \<or> v = [] \<or> l0_maxPayload c < int (length v)"
      "e \<noteq> ErrCode ErrCodeNotFound"
  | (success) c' where "L0_Set now key v ttl c = Some (c', None)" "cache_inv c'"
      "l0_entry c' key = Some (NewCacheEntry now key v ttl)"
      "l0_entry c' \<subseteq>\<^sub>m (l0_entry c)(key \<mapsto> NewCacheEntry now key v ttl)"
      "\<not> l0_closed c" "key \<noteq> []" "v \<noteq> []" "int (length v) \<le> l0_maxPayload c"
proof (cases "l0_closed c \<or> key = [] \<or> v = [] \<or> l0_maxPayload c < int (length v)")
  case True
  then show ?thesis
    by (intro rejected [of "the (snd (the (L0_Set now key v ttl c)))"])
      (auto simp: L0_Set_def NewConfigError_def L0_closed_error_def NewInitError_def)
next
  case False
  let ?e = "NewCacheEntry now key v ttl"
  have ok: "entry_ok (ce_Key ?e) ?e" using False by (intro NewCacheEntry_ok) auto
  obtain sh' where sh': "shard_set (getShardMemoryLimit c) ?e (l0_shard c key) = Some sh'"
      "shard_inv sh'" "map_of (sh_entries sh') key = Some ?e"
      "\<And>k. k \<noteq> key \<Longrightarrow> map_of (sh_entries sh') k \<noteq> None \<Longrightarrow>
         map_of (sh_entries sh') k = map_of (sh_entries (l0_shard c key)) k"
    using shard_set_inv [OF cache_inv_shard [OF assms, of key] ok, of "getShardMemoryLimit c"]
    unfolding NewCacheEntry_sel by blast
  let ?c1 = "put_shard (l0_idx c key) sh' c"
  let ?c' = "?c1\<lparr>l0_stats := (l0_stats ?c1)\<lparr>s0_Sets := s0_Sets (l0_stats ?c1) + 1\<rparr>\<rparr>"
  note ku = keyed_update [OF assms sh'(2,4)]
  have "L0_Set now key v ttl c = Some (?c', None)"
    using False sh'(1) by (simp add: L0_Set_def getShard_Some [OF assms] Let_def)
  then show ?thesis
    using ku sh'(3) False by (intro success [of ?c']) auto
qed

lemma drop_entry_shard_inv:
  assumes "shard_inv sh" and "map_of (sh_entries sh) k = Some e"
  shows "shard_inv (drop_entry k e sh)"
proof -
  have "ring_inv (drop_entry k e sh) = ring_inv sh"
    by (rule ring_inv_cong) (simp_all add: drop_entry_def)
  then show ?thesis using assms acct_inv_drop by (simp add: shard_inv_def)
qed

text \<open>Removing a key: the entry map loses exactly that key.\<close>

lemma removed_entry:
  assumes "cache_inv c" and "shard_inv sh'"
    and "sh_entries sh' = AList.delete key (sh_entries (l0_shard c key))"
  shows "cache_inv (put_shard (l0_idx c key) sh' c)"
    and "l0_entry (put_shard (l0_idx c key) sh' c) = (l0_entry c)(key := None)"
proof -
  have oth: "map_of (sh_entries sh') k = map_of (sh_entries (l0_shard c key)) k" if "k \<noteq> key" for k
    using that assms(3) by simp
  show "cache_inv (put_shard (l0_idx c key) sh' c)"
    by (rule keyed_update(1) [OF assms(1,2) oth])
  show "l0_entry (put_shard (l0_idx c key) sh' c) = (l0_entry c)(key := None)"
    using oth assms(3) l0_entry_put_shard [OF shard_index_in_range [OF assms(1)], of key sh']
    by (auto simp: fun_eq_iff l0_entry_def)
qed

lemma L0_Delete_cases:
  assumes "cache_inv c"
  obtains (rejected) e where "L0_Delete key c = Some (c, Some e)"
      "l0_closed c \<or> key = []" "e \<noteq> ErrCode ErrCodeNotFound"
  | (absent) "L0_Delete key c = Some (c, Some (ErrCode ErrCodeNotFound))" "l0_entry c key = None"
  | (success) c' e where "L0_Delete key c = Some (c', None)" "cache_inv c'"
      "l0_entry c key = Some e" "l0_entry c' = (l0_entry c)(key := None)"
proof (cases "l0_closed c \<or> key = []")
  case True
  then show ?thesis
    by (intro rejected [of "the (snd (the (L0_Delete key c)))"])
      (auto simp: L0_Delete_def NewConfigError_def L0_closed_error_def NewInitError_def)
next
  case False
  show ?thesis
  proof (cases "l0_entry c key")
    case None
    then show ?thesis
      using False absent by (simp add: L0_Delete_def getShard_Some [OF assms] l0_entry_def)
  next
    case (Some e)
    let ?sh = "drop_entry key e (l0_shard c key)"
    let ?c1 = "put_shard (l0_idx c key) ?sh c"
    let ?c' = "?c1\<lparr>l0_stats := (l0_stats ?c1)\<lparr>s0_Deletes := s0_Deletes (l0_stats ?c1) + 1\<rparr>\<rparr>"
    have sh: "shard_inv ?sh"
      using cache_inv_shard [OF assms] Some by (intro drop_entry_shard_inv) (auto simp: l0_entry_def)
    have "L0_Delete key c = Some (?c', None)"
      using False Some by (simp add: L0_Delete_def getShard_Some [OF assms] l0_entry_def Let_def)
    then show ?thesis
      using removed_entry [OF assms sh] Some by (intro success [of ?c' e]) (auto simp: drop_entry_def)
  qed
qed

lemma L0_Demote_cases:
  assumes "cache_inv c"
  obtains (rejected) "L0_Demote key c = Some (c, Some (L0_closed_error ''demote''))" "l0_closed c"
  | (absent) "L0_Demote key c = Some (c, Some (ErrCode ErrCodeNotFound))" "l0_entry c key = None"
      "\<not> l0_closed c"
  | (success) c' e where "L0_Demote key c = Some (c', None)" "cache_inv c'" "\<not> l0_closed c"
      "l0_entry c key = Some e" "l0_entry c' = (l0_entry c)(key := None)"
proof (cases "l0_closed c")
  case True
  then show ?thesis using rejected by (simp add: L0_Demote_def)
next
  case False
  show ?thesis
  proof (cases "l0_entry c key")
    case None
    then show ?thesis
      using False absent by (simp add: L0_Demote_def getShard_Some [OF assms] l0_entry_def)
  next
    case (Some e)
    let ?sh = "drop_entry key e (l0_shard c key)"
    have e: "map_of (sh_entries (l0_shard c key)) key = Some e" using Some by (simp add: l0_entry_def)
    have sh: "shard_inv ?sh"
      by (rule drop_entry_shard_inv [OF cache_inv_shard [OF assms] e])
    have key: "key \<noteq> []"
      using shard_inv_entry_ok [OF cache_inv_shard [OF assms] e] by (simp add: entry_ok_def)
    have cap: "sh_freqCap ?sh = sh_freqCap (l0_shard c key)" by (simp add: drop_entry_def)
    obtain sh' where sh': "clock_remove (nat (sh_freqCap (l0_shard c key))) 0 key ?sh = Some sh'"
        "ring_inv sh'" "same_store ?sh sh'"
      using clock_remove_inv [of ?sh key 0 "nat (sh_freqCap (l0_shard c key))"] sh key cap
      by (auto simp: shard_inv_def ring_inv_def)
    then have "shard_inv sh'" using sh same_store_acct by (simp add: shard_inv_def)
    moreover have "sh_entries sh' = AList.delete key (sh_entries (l0_shard c key))"
      using sh'(3) by (simp add: same_store_def drop_entry_def)
    ultimately show ?thesis
      using removed_entry [OF assms] sh'(1) Some False
      by (intro success [of "put_shard (l0_idx c key) sh' c" e])
        (simp_all add: L0_Demote_def getShard_Some [OF assms] l0_entry_def)
  qed
qed

end
