(* ===== verification/L0_Props.thy ===== *)
theory L0_Props
  imports L0_Cache
begin

text \<open>
  What the in-memory tier guarantees, and where its clock falls short. The tier is an
  interpretation of \<^verbatim>\<open>cache_tier\<close>; the properties on coherence, accounting, freshness and
  expiry hold of every reachable cache. The properties on the clock ring describe the sweep
  as the code has it: a first sweep over referenced slots evicts nothing, reads never set a
  reference bit, and slots at or beyond \<^verbatim>\<open>freqSize\<close> are never visited.
\<close>

subsection \<open>The tier contract\<close>

lemma l0_stored_key [simp]: "l0_stored c k = map_option ce_Value (l0_entry c k)"
  by (simp add: l0_stored_def)

lemma l0_get_total: "cache_inv c \<Longrightarrow> \<exists>c' r. L0_Get now k c = Some (c', r)"
  by (erule L0_Get_cases [where now = now and key = k]) auto

lemma l0_get_inv:
  assumes "cache_inv c" and "L0_Get now k c = Some (c', r)"
  shows "cache_inv c' \<and> l0_stored c' \<subseteq>\<^sub>m l0_stored c"
  using assms
  by (cases rule: L0_Get_cases [OF assms(1), of now k])
    (auto simp del: l0_stored_key
      simp: count_miss_inv [OF assms(1)] count_hit_inv [OF assms(1)])

lemma l0_get_value:
  assumes "cache_inv c" and "L0_Get now k c = Some (c', Inr v)"
  shows "\<exists>e. l0_entry c k = Some e \<and> ce_Value e = v \<and> \<not> IsExpired now e"
  using assms(2) by (cases rule: L0_Get_cases [OF assms(1), of now k]) auto

lemma l0_set_total: "cache_inv c \<Longrightarrow> \<exists>c' e. L0_Set now k v ttl c = Some (c', e)"
  by (erule L0_Set_cases [where now = now and key = k and v = v and ttl = ttl]) auto

lemma l0_set_done:
  assumes "cache_inv c" and "L0_Set now k v ttl c = Some (c', None)"
  shows "cache_inv c' \<and> l0_entry c' k = Some (NewCacheEntry now k v ttl) \<and>
         l0_entry c' \<subseteq>\<^sub>m (l0_entry c)(k \<mapsto> NewCacheEntry now k v ttl)"
  using assms(2)
  by (cases rule: L0_Set_cases [OF assms(1), of now k v ttl]) auto

lemma l0_set_failed:
  assumes "cache_inv c" and "L0_Set now k v ttl c = Some (c', Some e)"
  shows "c' = c"
  using assms(2) by (cases rule: L0_Set_cases [OF assms(1), of now k v ttl]) auto

lemma l0_delete_total: "cache_inv c \<Longrightarrow> \<exists>c' e. L0_Delete k c = Some (c', e)"
  by (erule L0_Delete_cases [where key = k]) auto

lemma l0_delete_done:
  assumes "cache_inv c" and "L0_Delete k c = Some (c', None)"
  shows "cache_inv c' \<and> l0_entry c' = (l0_entry c)(k := None)"
  using assms(2) by (cases rule: L0_Delete_cases [OF assms(1), of k]) auto

lemma l0_delete_failed:
  assumes "cache_inv c" and "L0_Delete k c = Some (c', Some e)"
  shows "c' = c"
  using assms(2) by (cases rule: L0_Delete_cases [OF assms(1), of k]) auto

lemma l0_stored_del: "l0_entry c' = (l0_entry c)(k := None) \<Longrightarrow>
    l0_stored c' = (l0_stored c)(k := None)"
  by (simp add: fun_eq_iff)

interpretation l0: cache_tier cache_inv l0_stored L0_Get L0_Set L0_Delete
proof unfold_locales
  fix s s' :: l0_cache and now k v ttl e r
  assume inv: "cache_inv s"
  show "\<exists>s' r. L0_Get now k s = Some (s', r)" by (rule l0_get_total [OF inv])
  show "\<exists>s' e. L0_Set now k v ttl s = Some (s', e)" by (rule l0_set_total [OF inv])
  show "\<exists>s' e. L0_Delete k s = Some (s', e)" by (rule l0_delete_total [OF inv])
  show "cache_inv s' \<and> l0_stored s' \<subseteq>\<^sub>m l0_stored s" if "L0_Get now k s = Some (s', r)"
    by (rule l0_get_inv [OF inv that])
  show "l0_stored s k = Some v" if "L0_Get now k s = Some (s', Inr v)"
    using l0_get_value [OF inv that] by auto
  show "cache_inv s' \<and> l0_stored s' k = Some v \<and> l0_stored s' \<subseteq>\<^sub>m (l0_stored s)(k \<mapsto> v)"
    if "L0_Set now k v ttl s = Some (s', None)"
    using l0_set_done [OF inv that] l0_entry_le_stored [of s' s k "Some (NewCacheEntry now k v ttl)"]
    by simp
  show "cache_inv s' \<and> l0_stored s' \<subseteq>\<^sub>m l0_stored s" if "L0_Set now k v ttl s = Some (s', Some e)"
    using l0_set_failed [OF inv that] inv by simp
  show "cache_inv s' \<and> l0_stored s' \<subseteq>\<^sub>m (l0_stored s)(k := None)"
    if "L0_Delete k s = Some (s', None)"
    using l0_delete_done [OF inv that] l0_stored_del [of s' s k] by simp
  show "cache_inv s' \<and> l0_stored s' \<subseteq>\<^sub>m l0_stored s" if "L0_Delete k s = Some (s', Some e)"
    using l0_delete_failed [OF inv that] inv by simp
qed

subsection \<open>Construction\<close>

definition new_shardCount :: "l0_config \<Rightarrow> u32" where
  "new_shardCount g = (if c0_ShardCount g = 0 then DefaultL0ShardCount else c0_ShardCount g)"

lemma L0_New_shape:
  assumes "L0_New cfg = Inr c"
  shows "\<exists>g n. cfg = Some g \<and> 0 < n \<and>
    l0_shards c = replicate (unat (new_shardCount g)) (new_shard n) \<and>
    l0_shardCount c = new_shardCount g \<and> \<not> l0_closed c \<and>
    l0_maxPayload c = int (unat (c0_MaxPayloadBytes g)) \<and>
    l0_maxMemory c = ucast (c0_MaxMemoryMB g) * 1024 * 1024"
proof -
  obtain g where g: "cfg = Some g" using assms by (cases cfg) (auto simp: L0_New_def)
  have "c0_MaxMemoryMB g \<noteq> 0" "c0_MaxPayloadBytes g \<noteq> 0"
    using assms g by (auto simp: L0_New_def split: if_splits)
  moreover define w where
    "w = (if c0_WeightedUnit g = 0 then of_int WeightedUnitBytes else c0_WeightedUnit g)"
  moreover define n where
    "n = nat (ring_size (ucast (c0_MaxMemoryMB g) * 1024 * 1024) (new_shardCount g) w)"
  ultimately have "l0_shards c = replicate (unat (new_shardCount g)) (new_shard n) \<and>
    l0_shardCount c = new_shardCount g \<and> \<not> l0_closed c \<and>
    l0_maxPayload c = int (unat (c0_MaxPayloadBytes g)) \<and>
    l0_maxMemory c = ucast (c0_MaxMemoryMB g) * 1024 * 1024"
    using assms g unfolding L0_New_def new_shardCount_def Let_def by (simp split del: if_split) auto
  moreover have "0 < n" by (simp add: n_def)
  ultimately show ?thesis using g by blast
qed

lemma new_shardCount_nonzero [simp]: "new_shardCount g \<noteq> 0"
  by (simp add: new_shardCount_def DefaultL0ShardCount_def)

lemma L0_New_Inr:
  assumes "L0_New cfg = Inr c"
  shows "cache_inv c" and "l0_closed c = False" and "l0_entry c = Map.empty"
proof -
  obtain g n where g: "0 < n" "l0_shards c = replicate (unat (new_shardCount g)) (new_shard n)"
      "l0_shardCount c = new_shardCount g" "\<not> l0_closed c"
    using L0_New_shape [OF assms] by blast
  have idx: "shard_index (new_shardCount g) k < unat (new_shardCount g)" for k
    by (rule shard_index_less) simp
  show "cache_inv c" using g new_shard_inv [OF g(1)] by (simp add: cache_inv_def) (simp add: new_shard_def)
  show "l0_closed c = False" using g by simp
  show "l0_entry c = Map.empty"
    using g idx by (simp add: l0_entry_def fun_eq_iff) (simp add: new_shard_def)
qed

lemma l0_stored_empty: "L0_New cfg = Inr c \<Longrightarrow> l0_stored c \<subseteq>\<^sub>m Map.empty"
  by (auto dest!: L0_New_Inr(3) simp: map_le_def)

subsection \<open>Histories, invariant and accounts\<close>

definition small_l0_config :: l0_config where
  "small_l0_config =
     \<lparr>c0_MaxMemoryMB = 1, c0_MaxPayloadBytes = 16, c0_WeightedUnit = 4096, c0_ShardCount = 4,
      c0_SnapshotPath = ''snap'', c0_SnapshotInt = 0, c0_EnableSnapshot = False\<rparr>"

lemma small_l0_New: "\<exists>c. L0_New (Some small_l0_config) = Inr c"
  by (simp add: L0_New_def small_l0_config_def Let_def)

text \<open>
  C4. In-memory tier, any history of \<^verbatim>\<open>Get\<close>, \<^verbatim>\<open>Set\<close> and \<^verbatim>\<open>Delete\<close> calls on a new cache: no call
  panics, and every value a \<^verbatim>\<open>Get\<close> returns is the value of the last successful \<^verbatim>\<open>Set\<close> of that
  key with no successful \<^verbatim>\<open>Delete\<close> after it, whatever was evicted or expired in between.
\<close>

theorem l0_history_coherent:
  assumes "L0_New cfg = Inr c"
  shows "\<exists>c' outs. tier_run L0_Get L0_Set L0_Delete ops c = Some (c', outs) \<and>
           coherent Map.empty ops outs"
  using l0.run_coherent [OF L0_New_Inr(1) [OF assms] l0_stored_empty [OF assms]] by blast

theorem l0_history_coherent_witness:
  "\<exists>c c' outs. L0_New (Some small_l0_config) = Inr c \<and>
     tier_run L0_Get L0_Set L0_Delete
       [TSet \<lparr>tm_wall = 0, tm_mono = Some 0\<rparr> ''k'' [1] 0, TGet \<lparr>tm_wall = 1, tm_mono = Some 1\<rparr> ''k'']
       c = Some (c', outs) \<and>
     coherent Map.empty
       [TSet \<lparr>tm_wall = 0, tm_mono = Some 0\<rparr> ''k'' [1] 0, TGet \<lparr>tm_wall = 1, tm_mono = Some 1\<rparr> ''k'']
       outs"
  using small_l0_New l0_history_coherent by blast

lemma L0_GetOrSet_inv:
  assumes "cache_inv c"
  shows "\<exists>c' r. L0_GetOrSet now key v ttl c = Some (c', r) \<and> cache_inv c'"
proof -
  obtain c1 r where g: "L0_Get now key c = Some (c1, r)" "cache_inv c1"
    using l0_get_total [OF assms] l0_get_inv [OF assms] by blast
  obtain c2 e where s: "L0_Set now key v ttl c1 = Some (c2, e)" "cache_inv c2"
    using l0_set_total [OF g(2)] l0_set_done [OF g(2)] l0_set_failed [OF g(2)] g(2)
    by (metis not_Some_eq)
  show ?thesis
    using g s by (cases r; cases e) (auto simp: L0_GetOrSet_def)
qed



lemma shard_inv_memory:
  assumes "shard_inv sh"
  shows "sh_usedMemory sh = of_nat (\<Sum>(k, e)\<leftarrow>sh_entries sh. length (ce_Value e))"
    and "sh_weight sh = (\<Sum>(k, e)\<leftarrow>sh_entries sh. (int (length (ce_Value e)) + 4095) div 4096)"
proof -
  have acct: "acct_inv sh" using assms by (simp add: shard_inv_def)
  have ok: "ce_Size e = int (length (ce_Value e))" "ce_Weight e = (int (length (ce_Value e)) + 4095) div 4096"
    if "(k, e) \<in> set (sh_entries sh)" for k e
    using acct that by (auto simp: acct_inv_def list_all_iff entry_ok_def)
  have "of_nat (\<Sum>(k, e)\<leftarrow>xs. length (ce_Value e)) = (\<Sum>(k, e)\<leftarrow>xs. of_int (ce_Size e) :: u64)"
    if "set xs \<subseteq> set (sh_entries sh)" for xs
    using that by (induction xs) (auto simp: ok)
  from this [of "sh_entries sh"]
  show "sh_usedMemory sh = of_nat (\<Sum>(k, e)\<leftarrow>sh_entries sh. length (ce_Value e))"
    using acct by (simp add: acct_inv_def)
  have "(\<Sum>(k, e)\<leftarrow>xs. ce_Weight e) = (\<Sum>(k, e)\<leftarrow>xs. (int (length (ce_Value e)) + 4095) div 4096)"
    if "set xs \<subseteq> set (sh_entries sh)" for xs
    using that by (induction xs) (auto simp: ok)
  from this [of "sh_entries sh"]
  show "sh_weight sh = (\<Sum>(k, e)\<leftarrow>sh_entries sh. (int (length (ce_Value e)) + 4095) div 4096)"
    using acct by (simp add: acct_inv_def)
qed

lemma cache_inv_shards: "cache_inv c \<Longrightarrow> sh \<in> set (l0_shards c) \<Longrightarrow> shard_inv sh"
  by (auto simp: cache_inv_def in_set_conv_nth)



subsection \<open>Reads after writes, expiry\<close>

lemma L0_Set_frame [frame_simps]:
  "L0_Set now key v ttl c = Some (c', e) \<Longrightarrow>
   l0_closed c' = l0_closed c \<and> l0_maxPayload c' = l0_maxPayload c"
  by (auto simp: L0_Set_def Let_def put_shard_def bind_eq_Some_conv split: if_splits)

lemma L0_Set_guards:
  assumes "cache_inv c" and "L0_Set now key v ttl c = Some (c', None)"
  shows "\<not> l0_closed c' \<and> key \<noteq> [] \<and> v \<noteq> [] \<and> int (length v) \<le> l0_maxPayload c'"
  using assms(2) L0_Set_frame [OF assms(2)]
  by (cases rule: L0_Set_cases [OF assms(1), of now key v ttl]) auto

lemma L0_Get_entry:
  assumes "cache_inv c" and "\<not> l0_closed c" and "key \<noteq> []"
    and "int (length key) \<le> l0_maxPayload c" and "l0_entry c key = Some e"
  shows "\<exists>c'. L0_Get now key c = Some (c',
    if IsExpired now e then Inl (ErrCode ErrCodeNotFound) else Inr (ce_Value e))"
  using assms(2-5)
  by (cases rule: L0_Get_cases [OF assms(1), of now key]) auto

text \<open>
  In-memory tier, read after write: after a successful \<^verbatim>\<open>Set\<close> (even if it evicted other
  entries) a \<^verbatim>\<open>Get\<close> of the key returns the value written as long as the time to live has not
  passed (a time to live of zero or less never passes), and \<^verbatim>\<open>NOT_FOUND\<close> once it has. The key has
  to fit the payload limit, which \<^verbatim>\<open>Get\<close> applies to keys.
\<close>

theorem l0_set_then_get:
  assumes "cache_inv c" and "L0_Set now key v ttl c = Some (c', None)"
    and "int (length key) \<le> l0_maxPayload c"
  shows "\<exists>c''. L0_Get later key c' = Some (c'',
    if ttl \<le> 0 \<or> time_sub later now \<le> ttl then Inr v else Inl (ErrCode ErrCodeNotFound))"
proof -
  let ?e = "NewCacheEntry now key v ttl"
  have inv: "cache_inv c'" and e: "l0_entry c' key = Some ?e"
    using l0_set_done [OF assms(1,2)] by auto
  have g: "\<not> l0_closed c'" "key \<noteq> []" "int (length key) \<le> l0_maxPayload c'"
    using L0_Set_guards [OF assms(1,2)] L0_Set_frame [OF assms(2)] assms(3) by auto
  have "IsExpired later ?e \<longleftrightarrow> \<not> (ttl \<le> 0 \<or> time_sub later now \<le> ttl)"
    by (auto simp: IsExpired_def)
  then show ?thesis using L0_Get_entry [OF inv g e, of later] by (auto split: if_splits)
qed

lemma small_set:
  "\<exists>c c'. L0_New (Some small_l0_config) = Inr c \<and> L0_Set now ''k'' [7] 5 c = Some (c', None) \<and>
     int (length ''k'') \<le> l0_maxPayload c"
proof -
  obtain c where c: "L0_New (Some small_l0_config) = Inr c" using small_l0_New by blast
  have p: "l0_maxPayload c = 16" "\<not> l0_closed c"
    using L0_New_shape [OF c] by (auto simp: small_l0_config_def)
  then show ?thesis
    using c by (cases rule: L0_Set_cases [OF L0_New_Inr(1) [OF c], of now "''k''" "[7]" 5]) auto
qed

theorem l0_set_then_get_witness:
  "\<exists>c c' c''. L0_New (Some small_l0_config) = Inr c \<and>
     L0_Set \<lparr>tm_wall = 0, tm_mono = Some 0\<rparr> ''k'' [7] 5 c = Some (c', None) \<and>
     L0_Get \<lparr>tm_wall = 3, tm_mono = Some 3\<rparr> ''k'' c' = Some (c'', Inr [7])"
proof -
  let ?now = "\<lparr>tm_wall = 0, tm_mono = Some 0\<rparr>" and ?later = "\<lparr>tm_wall = 3, tm_mono = Some 3\<rparr>"
  obtain c c' where c: "L0_New (Some small_l0_config) = Inr c"
      "L0_Set ?now ''k'' [7] 5 c = Some (c', None)" "int (length ''k'') \<le> l0_maxPayload c"
    using small_set [of ?now] by blast
  from l0_set_then_get [OF L0_New_Inr(1) [OF c(1)] c(2,3), of ?later]
  show ?thesis using c by (auto simp: time_sub_def)
qed

text \<open>
  In-memory tier, over-long keys: \<^verbatim>\<open>Set\<close> accepts a key longer than the payload limit (it
  checks the value only) and stores it, but \<^verbatim>\<open>Get\<close> rejects every such key, so the entry uses
  memory and can never be read.
\<close>

theorem l0_long_key_unreadable:
  assumes "cache_inv c" and "\<not> l0_closed c" and "l0_maxPayload c < int (length key)"
    and "v \<noteq> []" and "int (length v) \<le> l0_maxPayload c"
  shows "\<exists>c' e. L0_Set now key v ttl c = Some (c', None) \<and> l0_stored c' key = Some v \<and>
    L0_Get later key c' = Some (c', Inl e) \<and> e \<noteq> ErrCode ErrCodeNotFound"
proof -
  have key: "key \<noteq> []" using assms(3,5) by auto
  obtain c' where c': "L0_Set now key v ttl c = Some (c', None)"
    using assms key by (cases rule: L0_Set_cases [OF assms(1), of now key v ttl]) auto
  have inv: "cache_inv c'" and e: "l0_entry c' key = Some (NewCacheEntry now key v ttl)"
    using l0_set_done [OF assms(1) c'] by auto
  have "l0_maxPayload c' < int (length key)" using L0_Set_frame [OF c'] assms(3) by simp
  moreover have "\<not> l0_closed c'" using L0_Set_guards [OF assms(1) c'] by simp
  ultimately have "L0_Get later key c' = Some (c', Inl (NewConfigError ''key'' (GStr key)
      (''key exceeds max payload size ('' @ fmt_d (l0_maxPayload c') @ '' bytes)'') []))"
    using key by (simp add: L0_Get_def)
  then show ?thesis using c' e by (auto simp: NewConfigError_def)
qed

theorem l0_long_key_unreadable_witness:
  "\<exists>c c' e. L0_New (Some small_l0_config) = Inr c \<and>
     L0_Set \<lparr>tm_wall = 0, tm_mono = None\<rparr> ''seventeen-letters'' [1] 0 c = Some (c', None) \<and>
     L0_Get \<lparr>tm_wall = 1, tm_mono = None\<rparr> ''seventeen-letters'' c' = Some (c', Inl e)"
proof -
  obtain c where c: "L0_New (Some small_l0_config) = Inr c" using small_l0_New by blast
  have p: "l0_maxPayload c = 16" "\<not> l0_closed c"
    using L0_New_shape [OF c] by (auto simp: small_l0_config_def)
  show ?thesis
    using l0_long_key_unreadable [OF L0_New_Inr(1) [OF c] p(2), of "''seventeen-letters''" "[1]"
        "\<lparr>tm_wall = 0, tm_mono = None\<rparr>" 0 "\<lparr>tm_wall = 1, tm_mono = None\<rparr>"] p(1) c
    by auto
qed

subsection \<open>The clock sweep\<close>

text \<open>The ring position that iteration \<open>j\<close> of a sweep looks at.\<close>

abbreviation sweep_pos :: "shard \<Rightarrow> int \<Rightarrow> int" where
  "sweep_pos sh j \<equiv> (sh_clockHand sh + j) mod sh_freqSize sh"

definition second_chance :: "clock_entry \<Rightarrow> bool" where
  "second_chance ce \<longleftrightarrow> ck_key ce = [] \<or> ck_reference ce"

lemma sweep_pos_distinct:
  assumes "i < j" and "j < i + sh_freqSize sh"
  shows "sweep_pos sh i \<noteq> sweep_pos sh j"
proof
  assume "sweep_pos sh i = sweep_pos sh j"
  then have "sh_freqSize sh dvd (sh_clockHand sh + i) - (sh_clockHand sh + j)"
    by (simp add: mod_eq_dvd_iff)
  then have "sh_freqSize sh dvd j - i" by (simp add: dvd_diff_commute)
  with assms show False by (auto dest: zdvd_imp_le)
qed

lemma sweep_clears_only:
  assumes "0 < sh_freqSize sh" and "0 \<le> sh_clockHand sh" and "0 \<le> i"
    and "int n \<le> sh_freqSize sh" and "sh_freqSize sh \<le> int (length (sh_frequency sh))"
    and "\<And>j. i \<le> j \<Longrightarrow> j < i + int n \<Longrightarrow> second_chance (sh_frequency sh ! nat (sweep_pos sh j))"
  shows "\<exists>sh'. evict_sweep n i sh = Some (sh', False) \<and> sh_entries sh' = sh_entries sh"
  using assms
proof (induction n i sh rule: evict_sweep.induct)
  case (1 i sh)
  then show ?case by simp
next
  case (2 n i sh)
  let ?idx = "sweep_pos sh i"
  let ?ce = "sh_frequency sh ! nat ?idx"
  have idx: "go_rem (sh_clockHand sh + i) (sh_freqSize sh) = ?idx" using "2.prems" by simp
  have "?idx < sh_freqSize sh" "0 \<le> ?idx" using "2.prems"(1) by simp_all
  then have ring: "in_ring sh ?idx" using "2.prems"(5) by (simp add: in_ring_def)
  have here: "second_chance ?ce" using "2.prems"(6) [of i] by simp
  show ?case
  proof (cases "ck_key ?ce = []")
    case True
    have "\<exists>sh'. evict_sweep n (i + 1) sh = Some (sh', False) \<and> sh_entries sh' = sh_entries sh"
      using "2.prems" True ring idx by (intro "2.IH"(1)) auto
    then show ?thesis using True ring by (simp add: Let_def idx)
  next
    case False
    let ?sh1 = "sh\<lparr>sh_frequency := (sh_frequency sh)[nat ?idx := ?ce\<lparr>ck_reference := False\<rparr>]\<rparr>"
    have ref: "ck_reference ?ce" using here False by (simp add: second_chance_def)
    have rest: "second_chance (sh_frequency ?sh1 ! nat (sweep_pos ?sh1 j))"
      if "i + 1 \<le> j" "j < i + 1 + int n" for j
    proof -
      have "?idx \<noteq> sweep_pos sh j" using sweep_pos_distinct that "2.prems"(4) by simp
      moreover have "0 \<le> sweep_pos sh j" using "2.prems"(1) by simp
      ultimately have "nat ?idx \<noteq> nat (sweep_pos sh j)"
        using \<open>0 \<le> ?idx\<close> by (simp add: eq_nat_nat_iff)
      then show ?thesis using "2.prems"(6) [of j] that by simp
    qed
    have "\<exists>sh'. evict_sweep n (i + 1) ?sh1 = Some (sh', False) \<and> sh_entries sh' = sh_entries ?sh1"
      using "2.IH"(3) [OF refl _ refl, unfolded idx] ring False ref "2.prems"(1-5) rest by simp
    then show ?thesis using False ref ring by (simp add: Let_def idx)
  qed
qed

lemma evictOne_second_chance:
  assumes "shard_inv sh" and "list_all second_chance (sh_frequency sh)"
  shows "\<exists>sh'. evictOne sh = Some (sh', False) \<and> sh_entries sh' = sh_entries sh"
proof (cases "sh_freqSize sh = 0")
  case True
  then show ?thesis by (simp add: evictOne_def)
next
  case False
  have ring: "ring_inv sh" using assms(1) by (simp add: shard_inv_def)
  have m: "0 < sh_freqSize sh" "sh_freqSize sh \<le> int (length (sh_frequency sh))"
    using ring_inv_freqSize [OF ring] False ring by (auto simp: ring_inv_def)
  have "second_chance (sh_frequency sh ! nat (sweep_pos sh j))" for j
  proof -
    have "0 \<le> sweep_pos sh j" "sweep_pos sh j < sh_freqSize sh" using m(1) by simp_all
    then have "nat (sweep_pos sh j) < length (sh_frequency sh)" using m(2) by linarith
    then show ?thesis using assms(2) by (simp add: list_all_length)
  qed
  then show ?thesis
    using sweep_clears_only [of sh 0 "nat (sh_freqSize sh)"] m ring False
    by (simp add: evictOne_def ring_inv_def)
qed

definition wtime :: "int \<Rightarrow> go_time" where
  "wtime t = \<lparr>tm_wall = t, tm_mono = Some t\<rparr>"

text \<open>A shard with a ring of four slots in which two one-byte values were stored.\<close>

definition two_entry_shard :: shard where
  "two_entry_shard =
     the (shard_set 100 (NewCacheEntry (wtime 0) ''b'' [2] 0)
       (the (shard_set 100 (NewCacheEntry (wtime 0) ''a'' [1] 0) (new_shard 4))))"

lemma two_entry_shard_inv: "shard_inv two_entry_shard"
proof -
  let ?a = "NewCacheEntry (wtime 0) ''a'' [1] 0" and ?b = "NewCacheEntry (wtime 0) ''b'' [2] 0"
  have ok: "entry_ok (ce_Key ?a) ?a" "entry_ok (ce_Key ?b) ?b"
    by (rule NewCacheEntry_ok; simp)+
  have n: "shard_inv (new_shard 4)" by (rule new_shard_inv) simp
  obtain s1 where 1: "shard_set 100 ?a (new_shard 4) = Some s1" "shard_inv s1"
    using shard_set_inv [OF n ok(1), of 100] by blast
  obtain s2 where "shard_set 100 ?b s1 = Some s2" "shard_inv s2"
    using shard_set_inv [OF 1(2) ok(2), of 100] by blast
  then show ?thesis using 1 by (simp add: two_entry_shard_def)
qed

text \<open>
  In-memory tier, no room is made while every used clock slot is referenced: the sweep only
  clears reference bits, \<^verbatim>\<open>evictOne\<close> reports that nothing was evicted, the loop of \<^verbatim>\<open>Set\<close> stops,
  and all entries stay, whatever the memory limit. New slots are referenced, so the first
  \<^verbatim>\<open>Set\<close> over the limit always exceeds it: the entry is added on top of all the others.
\<close>

theorem set_over_limit_evicts_nothing:
  assumes "shard_inv sh" and "list_all second_chance (sh_frequency sh)"
    and "entry_ok (ce_Key e) e" and "map_of (sh_entries sh) (ce_Key e) = None"
  shows "\<exists>sh'. shard_set limit e sh = Some sh' \<and>
    sh_usedMemory sh' = sh_usedMemory sh + of_int (ce_Size e) \<and>
    length (sh_entries sh') = Suc (length (sh_entries sh))"
proof -
  obtain sh1 where sh1: "make_room limit (ce_Weight e) sh = Some sh1" "shard_inv sh1"
      "sh_entries sh1 = sh_entries sh"
    using evictOne_second_chance [OF assms(1,2)] make_room_inv [OF assms(1), of limit "ce_Weight e"]
    by (auto simp: make_room.simps [of limit "ce_Weight e" sh] split: if_splits)
  have ring: "ring_inv (store_entry e sh1)" using sh1(2) by (simp add: shard_inv_def)
  have key: "ce_Key e \<noteq> []" using assms(3) by (simp add: entry_ok_def)
  obtain sh' where sh': "addToClock (ce_Key e) (ce_Weight e) (store_entry e sh1) = Some sh'"
      "same_store (store_entry e sh1) sh'"
    using addToClock_inv [OF ring key] by blast
  have "sh_usedMemory sh1 = sh_usedMemory sh"
    using shard_inv_memory(1) [OF sh1(2)] shard_inv_memory(1) [OF assms(1)] sh1(3) by simp
  moreover have "length (AList.update (ce_Key e) e xs) = Suc (length xs)"
    if "map_of xs (ce_Key e) = None" for xs
    using that by (induction xs) (auto split: if_splits)
  ultimately show ?thesis
    using sh1 sh' assms(4)
    by (simp add: shard_set_def same_store_def store_entry_def Let_def)
qed

theorem set_over_limit_evicts_nothing_witness:
  "\<exists>sh'. shard_set 2 (NewCacheEntry (wtime 1) ''c'' [3, 3] 0) two_entry_shard = Some sh' \<and>
     2 < sh_usedMemory sh' \<and> length (sh_entries sh') = 3"
proof -
  let ?e = "NewCacheEntry (wtime 1) ''c'' [3, 3] 0"
  have ok: "entry_ok (ce_Key ?e) ?e" by (rule NewCacheEntry_ok) simp_all
  have refs: "list_all second_chance (sh_frequency two_entry_shard)" by code_simp
  have new: "map_of (sh_entries two_entry_shard) (ce_Key ?e) = None" by code_simp
  have old: "sh_usedMemory two_entry_shard = 2" "length (sh_entries two_entry_shard) = 2"
    by code_simp+
  show ?thesis
    using set_over_limit_evicts_nothing [OF two_entry_shard_inv refs ok new, of 2] old by auto
qed

text \<open>The clock state of a shard.\<close>

definition clock_of :: "shard \<Rightarrow> clock_entry list \<times> int \<times> int" where
  "clock_of sh = (sh_frequency sh, sh_clockHand sh, sh_freqSize sh)"

lemma L0_Get_shape:
  assumes "L0_Get now key c = Some (c', r)"
  shows "c' = c \<or> (\<exists>i. c' = count_miss i (l0_shards c ! i) c) \<or>
    (\<exists>i e. c' = count_hit i (touch_entry now key e (l0_shards c ! i)) c)"
proof (cases "c' = c")
  case False
  with assms obtain i where
    "(case map_of (sh_entries (l0_shards c ! i)) key of
        None \<Rightarrow> (count_miss i (l0_shards c ! i) c, Inl (ErrCode ErrCodeNotFound))
      | Some entry \<Rightarrow>
          if IsExpired now entry
          then (count_miss i (l0_shards c ! i) c, Inl (ErrCode ErrCodeNotFound))
          else (count_hit i (touch_entry now key entry (l0_shards c ! i)) c, Inr (ce_Value entry)))
     = (c', r)"
    by (auto simp: L0_Get_def Let_def bind_eq_Some_conv split: if_split_asm)
  then show ?thesis by (auto split: option.split_asm if_split_asm)
qed simp

text \<open>
  In-memory tier, reads are invisible to the clock: \<^verbatim>\<open>Get\<close> changes the ring, the hand and
  the ring size of no shard on any branch; in particular it never sets the accessed bit of the
  key it returns, so being read does not protect an entry from eviction.
\<close>

theorem l0_get_leaves_clock:
  assumes "L0_Get now key c = Some (c', r)"
  shows "map clock_of (l0_shards c') = map clock_of (l0_shards c)"
proof -
  have upd: "map clock_of (xs[i := y]) = map clock_of xs" if "clock_of y = clock_of (xs ! i)" for xs i y
    using that by (metis list_update_id list_update_beyond map_update not_le)
  consider "c' = c" | i where "c' = count_miss i (l0_shards c ! i) c"
    | i e where "c' = count_hit i (touch_entry now key e (l0_shards c ! i)) c"
    using L0_Get_shape [OF assms] by blast
  then show ?thesis
    by cases (simp_all add: count_miss_def count_hit_def put_shard_def touch_entry_def clock_of_def upd)
qed

theorem l0_get_leaves_clock_witness:
  "\<exists>c c' r. L0_New (Some small_l0_config) = Inr c \<and>
     L0_Get \<lparr>tm_wall = 0, tm_mono = None\<rparr> ''k'' c = Some (c', r) \<and>
     map clock_of (l0_shards c') = map clock_of (l0_shards c)"
proof -
  obtain c where c: "L0_New (Some small_l0_config) = Inr c" using small_l0_New by blast
  obtain c' r where "L0_Get \<lparr>tm_wall = 0, tm_mono = None\<rparr> ''k'' c = Some (c', r)"
    using l0_get_total [OF L0_New_Inr(1) [OF c]] by blast
  then show ?thesis using c l0_get_leaves_clock by blast
qed

lemma evict_sweep_window:
  assumes "evict_sweep n i sh = Some (sh', b)" and "0 < sh_freqSize sh"
    and "0 \<le> sh_clockHand sh" and "0 \<le> i"
  shows "(\<forall>j. sh_freqSize sh \<le> int j \<longrightarrow> sh_frequency sh' ! j = sh_frequency sh ! j) \<and>
    ((\<forall>j. int j < sh_freqSize sh \<longrightarrow> ck_key (sh_frequency sh ! j) \<noteq> key) \<longrightarrow>
      map_of (sh_entries sh') key = map_of (sh_entries sh) key)"
  using assms
proof (induction n i sh rule: evict_sweep.induct)
  case (1 i sh)
  then show ?case by simp
next
  case (2 n i sh)
  let ?idx = "go_rem (sh_clockHand sh + i) (sh_freqSize sh)"
  let ?ce = "sh_frequency sh ! nat ?idx"
  have idx: "0 \<le> ?idx" "?idx < sh_freqSize sh" using "2.prems" by simp_all
  have ring: "in_ring sh ?idx" using "2.prems"(1) by (auto simp: Let_def split: if_splits)
  have nidx: "int (nat ?idx) < sh_freqSize sh" using idx by simp
  show ?case
  proof (cases "ck_key ?ce \<noteq> [] \<and> ck_reference ?ce")
    case True
    let ?sh1 = "sh\<lparr>sh_frequency := (sh_frequency sh)[nat ?idx := ?ce\<lparr>ck_reference := False\<rparr>]\<rparr>"
    have keys: "ck_key (sh_frequency ?sh1 ! j) = ck_key (sh_frequency sh ! j)" for j
      by (cases "j = nat ?idx"; cases "nat ?idx < length (sh_frequency sh)")
        (simp_all add: list_update_beyond)
    have out: "sh_frequency ?sh1 ! j = sh_frequency sh ! j" if "sh_freqSize sh \<le> int j" for j
    proof -
      have "nat ?idx \<noteq> j" using that nidx by linarith
      then show ?thesis by simp
    qed
    show ?thesis
      using "2.IH"(3) [OF refl _ refl] True ring "2.prems" keys out by (simp add: Let_def)
  next
    case False
    show ?thesis
    proof (cases "ck_key ?ce = [] \<or> map_of (sh_entries sh) (ck_key ?ce) = None")
      case True
      then have "evict_sweep n (i + 1) sh = Some (sh', b)"
        using "2.prems"(1) ring False by (auto simp: Let_def split: if_split_asm)
      moreover have "0 \<le> i + 1" using "2.prems"(4) by simp
      ultimately show ?thesis
        using "2.IH"(1) [OF refl _ refl] "2.IH"(2) [OF refl _ refl] True False ring "2.prems"(2,3)
        by (cases "ck_key ?ce = []") simp_all
    next
      case evict: False
      then obtain e where "map_of (sh_entries sh) (ck_key ?ce) = Some e" by blast
      then have eqs: "sh_frequency sh' = (sh_frequency sh)[nat ?idx := ?ce\<lparr>ck_key := [], ck_weight := 0\<rparr>]"
        "sh_entries sh' = AList.delete (ck_key ?ce) (sh_entries sh)"
        using "2.prems"(1) ring False evict
        by (auto simp: Let_def clear_slot_def drop_entry_def)
      have far: "nat ?idx \<noteq> j" if "sh_freqSize sh \<le> int j" for j using that nidx by linarith
      have near: "key \<noteq> ck_key ?ce"
        if "\<forall>j. int j < sh_freqSize sh \<longrightarrow> ck_key (sh_frequency sh ! j) \<noteq> key"
        using that nidx by blast
      show ?thesis using eqs far near by (simp add: fun_upd_def)
    qed
  qed
qed

text \<open>
  In-memory tier, the sweep's reach: \<^verbatim>\<open>evictOne\<close> sweeps positions modulo \<^verbatim>\<open>freqSize\<close> (the
  number of used slots) instead of the ring's length, so it neither visits nor changes a slot at
  or beyond that position, and a key that has slots only there keeps its entry.
\<close>

theorem evictOne_reach:
  assumes "shard_inv sh" and "evictOne sh = Some (sh', b)"
  shows "(\<forall>j. sh_freqSize sh \<le> int j \<longrightarrow> sh_frequency sh' ! j = sh_frequency sh ! j) \<and>
    ((\<forall>j. int j < sh_freqSize sh \<longrightarrow> ck_key (sh_frequency sh ! j) \<noteq> key) \<longrightarrow>
      map_of (sh_entries sh') key = map_of (sh_entries sh) key)"
proof (cases "sh_freqSize sh = 0")
  case True
  then show ?thesis using assms(2) by (simp add: evictOne_def)
next
  case False
  have "ring_inv sh" using assms(1) by (simp add: shard_inv_def)
  with ring_inv_freqSize [OF this] False show ?thesis
    using assms(2) evict_sweep_window [of "nat (sh_freqSize sh)" 0 sh sh' b]
    by (simp add: evictOne_def ring_inv_def)
qed

text \<open>A shard whose only entry sits in the second slot, unreferenced: nothing can evict it.\<close>

definition unreachable_shard :: shard where
  "unreachable_shard =
     (new_shard 2)
       \<lparr>sh_entries := [(''a'', NewCacheEntry (wtime 0) ''a'' [1] 0)], sh_usedMemory := 1,
        sh_weight := 1, sh_freqSize := 1,
        sh_frequency := [empty_clock, \<lparr>ck_key = ''a'', ck_reference = False, ck_weight = 1\<rparr>]\<rparr>"

lemma unreachable_shard_inv: "shard_inv unreachable_shard"
  by (simp add: shard_inv_def acct_inv_def ring_inv_def used_slots_def unreachable_shard_def
      new_shard_def empty_clock_def entry_ok_def NewCacheEntry_def WeightedUnitBytes_def)

theorem evictOne_reach_witness:
  "\<exists>sh'. evictOne unreachable_shard = Some (sh', False) \<and>
     map_of (sh_entries sh') ''a'' = map_of (sh_entries unreachable_shard) ''a''"
proof -
  have ev: "evictOne unreachable_shard = Some (unreachable_shard, False)" by code_simp
  have "\<forall>j. int j < sh_freqSize unreachable_shard \<longrightarrow>
      ck_key (sh_frequency unreachable_shard ! j) \<noteq> ''a''"
    by (simp add: unreachable_shard_def empty_clock_def)
  then show ?thesis using evictOne_reach [OF unreachable_shard_inv ev, of "''a''"] ev by blast
qed

lemma clock_insert_full:
  assumes "ring_inv sh" and "\<forall>ce \<in> set (sh_frequency sh). ck_key ce \<noteq> []" and "0 \<le> i"
  shows "clock_insert n i key w sh =
    Some (sh\<lparr>sh_clockHand := (sh_clockHand sh + 1) mod sh_freqCap sh\<rparr>)"
  using assms
proof (induction n i key w sh rule: clock_insert.induct)
  case (1 i key w sh)
  then show ?case by (auto simp: ring_inv_def)
next
  case (2 n i key w sh)
  let ?idx = "go_rem (sh_clockHand sh + i) (sh_freqCap sh)"
  have ring: "in_ring sh ?idx"
    using go_rem_in_ring [OF "2.prems"(1,3), of "sh_freqCap sh"] "2.prems"(1)
    by (auto simp: ring_inv_def)
  then have "sh_frequency sh ! nat ?idx \<in> set (sh_frequency sh)" by (auto simp: in_ring_def)
  with "2.prems"(2) have "ck_key (sh_frequency sh ! nat ?idx) \<noteq> []" by blast
  then show ?case using "2.IH" "2.prems" ring by (simp add: Let_def)
qed

lemma ring_full_slots:
  assumes "ring_inv sh" and "sh_freqSize sh = sh_freqCap sh"
  shows "\<forall>ce \<in> set (sh_frequency sh). ck_key ce \<noteq> []"
proof (rule ccontr)
  assume "\<not> ?thesis"
  then have "length (filter (\<lambda>ce. ck_key ce \<noteq> []) (sh_frequency sh)) < length (sh_frequency sh)"
    using length_filter_less by fastforce
  then show False using assms by (auto simp: ring_inv_def used_slots_def)
qed

text \<open>
  In-memory tier, full clock ring: when every slot is used, \<^verbatim>\<open>addToClock\<close> moves the hand and
  records nothing (its comment says it replaces), so the entry just stored is in the map but in
  no clock slot that was not there before, and \<^verbatim>\<open>evictOne\<close> cannot choose it.
\<close>

theorem addToClock_full_ring:
  assumes "ring_inv sh" and "sh_freqSize sh = sh_freqCap sh"
  shows "\<exists>sh'. addToClock key w sh = Some sh' \<and> sh_frequency sh' = sh_frequency sh \<and>
    sh_freqSize sh' = sh_freqSize sh \<and>
    sh_clockHand sh' = (sh_clockHand sh + 1) mod sh_freqCap sh"
  using clock_insert_full [OF assms(1) ring_full_slots [OF assms], of 0]
  by (simp add: addToClock_def)

definition full_shard :: shard where
  "full_shard =
     (new_shard 1)\<lparr>sh_freqSize := 1,
        sh_frequency := [\<lparr>ck_key = ''a'', ck_reference = True, ck_weight = 1\<rparr>]\<rparr>"

theorem addToClock_full_ring_witness:
  "\<exists>sh'. addToClock ''b'' 1 full_shard = Some sh' \<and> sh_frequency sh' = sh_frequency full_shard"
proof -
  have "ring_inv full_shard" "sh_freqSize full_shard = sh_freqCap full_shard"
    by (simp_all add: ring_inv_def used_slots_def full_shard_def new_shard_def)
  from addToClock_full_ring [OF this, of "''b''" 1] show ?thesis by blast
qed

text \<open>
  C17. In-memory tier, the eviction loop of \<^verbatim>\<open>Set\<close> always ends, keeps the shard invariant and
  only removes entries; it ends with room for the new weight, with an empty shard, or after a
  sweep that evicted nothing.
\<close>

theorem make_room_outcome:
  assumes "shard_inv sh"
  shows "\<exists>sh'. make_room limit w sh = Some sh' \<and> shard_inv sh' \<and>
    map_of (sh_entries sh') \<subseteq>\<^sub>m map_of (sh_entries sh) \<and>
    (sh_usedMemory sh' + of_int w \<le> limit \<or> sh_entries sh' = [] \<or>
     (\<exists>sh0. shard_inv sh0 \<and> evictOne sh0 = Some (sh', False)))"
  using assms
proof (induction limit w sh rule: make_room.induct)
  case (1 limit w sh)
  obtain sh1 b where ev: "evictOne sh = Some (sh1, b)" "shard_inv sh1"
      "map_of (sh_entries sh1) \<subseteq>\<^sub>m map_of (sh_entries sh)"
    using evictOne_inv [OF "1.prems"] by blast
  show ?case
  proof (cases "limit < sh_usedMemory sh + of_int w \<and> 0 < entriesLen sh")
    case False
    then have "sh_usedMemory sh + of_int w \<le> limit \<or> sh_entries sh = []"
      by (auto simp: entriesLen_def not_less)
    then show ?thesis using False "1.prems" by (auto simp: make_room.simps [of limit w sh])
  next
    case True
    show ?thesis
    proof (cases b)
      case True
      then show ?thesis
        using "1.IH" [of "(sh1, b)" sh1 b] ev \<open>limit < _ \<and> _\<close>
        by (simp add: make_room.simps [of limit w sh]) (metis map_le_trans)
    next
      case False
      then show ?thesis
        using ev \<open>limit < _ \<and> _\<close> "1.prems" by (auto simp: make_room.simps [of limit w sh])
    qed
  qed
qed

theorem make_room_outcome_witness:
  "\<exists>sh'. make_room 1 1 two_entry_shard = Some sh' \<and> shard_inv sh' \<and>
     map_of (sh_entries sh') \<subseteq>\<^sub>m map_of (sh_entries two_entry_shard)"
  using make_room_outcome [OF two_entry_shard_inv, of 1 1] by blast

subsection \<open>Eviction candidates\<close>

lemma candidates_shard_take:
  assumes "int (length acc) \<le> max 0 cnt"
  shows "candidates_shard cnt ps acc = acc @ take (nat cnt - length acc) (map snd ps)"
  using assms
proof (induction ps arbitrary: acc)
  case (Cons p ps)
  obtain k e where p: "p = (k, e)" by force
  show ?case
  proof (cases "cnt \<le> int (length acc)")
    case True
    then show ?thesis by (simp add: p)
  next
    case False
    then have "nat cnt - length acc = Suc (nat cnt - length (acc @ [e]))" by simp
    then show ?thesis using False Cons.IH [of "acc @ [e]"] by (simp add: p)
  qed
qed simp

lemma candidates_loop_take:
  assumes "int (length acc) \<le> max 0 cnt"
  shows "candidates_loop iter cnt shs acc =
    acc @ take (nat cnt - length acc) (concat (map (\<lambda>sh. map snd (iter sh)) shs))"
  using assms
proof (induction shs arbitrary: acc)
  case (Cons sh shs)
  let ?acc1 = "candidates_shard cnt (iter sh) acc"
  have acc1: "?acc1 = acc @ take (nat cnt - length acc) (map snd (iter sh))"
    by (rule candidates_shard_take [OF Cons.prems])
  have le: "int (length ?acc1) \<le> max 0 cnt" using Cons.prems acc1 by (auto simp: min_def)
  show ?case
  proof (cases "cnt \<le> int (length ?acc1)")
    case True
    then have "nat cnt - length acc \<le> length (iter sh)" using acc1 by (auto simp: min_def split: if_splits)
    then show ?thesis using True acc1 by (simp add: Let_def)
  next
    case False
    then have lt: "length (iter sh) < nat cnt - length acc"
      using acc1 by (auto simp: min_def split: if_splits)
    then have "?acc1 = acc @ map snd (iter sh)" using acc1 by simp
    then show ?thesis using False Cons.IH [OF le] lt by (simp add: Let_def)
  qed
qed simp

text \<open>
  On an open cache \<^verbatim>\<open>EvictCandidates\<close> returns the first \<^verbatim>\<open>count\<close> entries of the shards in
  order, each shard in its iteration order (none for a count of zero or less); the two nested
  early exits lose and repeat nothing. Each is the entry the cache holds for its key.
\<close>

lemma evict_candidates_prefix:
  assumes "\<not> l0_closed c"
  shows "L0_EvictCandidates iter cnt c =
    Inr (take (nat cnt) (concat (map (\<lambda>sh. map snd (iter sh)) (l0_shards c))))"
  using assms candidates_loop_take [of "[]" cnt iter "l0_shards c"]
  by (simp add: L0_EvictCandidates_def)

lemma shard_entry_lookup:
  assumes "cache_inv c" and "i < length (l0_shards c)" and "(k, e) \<in> set (sh_entries (l0_shards c ! i))"
  shows "ce_Key e = k \<and> l0_entry c k = Some e"
proof -
  have "k \<in> fst ` set (sh_entries (l0_shards c ! i))" using assms(3) by (metis fst_conv image_eqI)
  then have sh: "shard_inv (l0_shards c ! i)" and idx: "shard_index (l0_shardCount c) k = i"
    using assms(1,2) unfolding cache_inv_def by blast+
  have "distinct (map fst (sh_entries (l0_shards c ! i)))" "entry_ok k e"
    using sh assms(3) by (auto simp: shard_inv_def acct_inv_def list_all_iff)
  then show ?thesis using assms(3) idx by (simp add: l0_entry_def entry_ok_def)
qed

lemma evict_candidates_stored:
  assumes "cache_inv c" and "iter_ok iter" and "L0_EvictCandidates iter cnt c = Inr xs" and "x \<in> set xs"
  shows "l0_entry c (ce_Key x) = Some x"
proof -
  have "\<not> l0_closed c" using assms(3) by (auto simp: L0_EvictCandidates_def)
  from evict_candidates_prefix [OF this, of iter cnt]
  have "x \<in> set (take (nat cnt) (concat (map (\<lambda>sh. map snd (iter sh)) (l0_shards c))))"
    using assms(3,4) by simp
  then have "x \<in> set (concat (map (\<lambda>sh. map snd (iter sh)) (l0_shards c)))" by (rule in_set_takeD)
  then obtain sh k where sh: "sh \<in> set (l0_shards c)" "(k, x) \<in> set (iter sh)" by auto
  from sh(1) obtain i where i: "i < length (l0_shards c)" "l0_shards c ! i = sh" by (auto simp: in_set_conv_nth)
  have "set (iter sh) = set (sh_entries sh)"
    using assms(2) unfolding iter_ok_def by (metis set_mset_mset)
  then show ?thesis using shard_entry_lookup [OF assms(1) i(1), of k x] sh(2) i(2) by simp
qed

end
