(* ===== verification/L0_Snapshot.thy ===== *)
theory L0_Snapshot
  imports L0_Props "HOL-Library.List_Lexorder" "HOL-Library.Sublist"
begin

text \<open>
  Snapshots of the in-memory tier (\<^verbatim>\<open>pkg/l0/snapshot.go\<close>, and the snapshot timer,
  \<^verbatim>\<open>snapshot\<close>, \<^verbatim>\<open>Restore\<close> and \<^verbatim>\<open>Close\<close> of \<^verbatim>\<open>l0_cache.go\<close>). The snapshot directory is an
  association list from base names to files, and a write is the sequence of file operations
  the code makes, so that a crash is a prefix of it. The environment record says which system
  calls fail; JSON encoding and decoding are parameters. Reads see the whole file, without I/O
  errors in the middle of it, and \<^verbatim>\<open>os.Remove\<close> succeeds. A snapshot is taken while no other
  operation runs on the cache.
\<close>

subsection \<open>Files\<close>

record disk_file =
  fi_data :: bytes
  fi_mtime :: int

type_synonym dir = "(string \<times> disk_file) list"

datatype fs_op = FCreate string | FAppend string bytes | FRename string string | FRemove string

fun fs_apply :: "int \<Rightarrow> fs_op \<Rightarrow> dir \<Rightarrow> dir" where
  "fs_apply now (FCreate p) d = AList.update p \<lparr>fi_data = [], fi_mtime = now\<rparr> d"
| "fs_apply now (FAppend p bs) d =
     (case map_of d p of None \<Rightarrow> d
      | Some f \<Rightarrow> AList.update p \<lparr>fi_data = fi_data f @ bs, fi_mtime = now\<rparr> d)"
| "fs_apply now (FRename p q) d =
     (case map_of d p of None \<Rightarrow> d | Some f \<Rightarrow> AList.update q f (AList.delete p d))"
| "fs_apply now (FRemove p) d = AList.delete p d"

definition fs_run :: "int \<Rightarrow> fs_op list \<Rightarrow> dir \<Rightarrow> dir" where
  "fs_run now ops d = fold (fs_apply now) ops d"

text \<open>\<^verbatim>\<open>filepath.Glob\<close> with the pattern \<^verbatim>\<open>snapshot_*.snap\<close>: the matching names, sorted.\<close>

definition is_snapshot_name :: "string \<Rightarrow> bool" where
  "is_snapshot_name p \<longleftrightarrow>
     14 \<le> length p \<and> prefix ''snapshot_'' p \<and> suffix ''.snap'' p \<and> CHR 0x2F \<notin> set p"

definition glob_snapshots :: "dir \<Rightarrow> string list" where
  "glob_snapshots d = sort (filter is_snapshot_name (map fst d))"

definition snapshot_name :: "int \<Rightarrow> string" where
  "snapshot_name stamp = ''snapshot_'' @ fmt_d stamp @ ''.snap''"

subsection \<open>Writing a snapshot\<close>

record snapshot_header =
  sn_Version :: int
  sn_CreatedAt :: go_time
  sn_EntryCount :: int
  sn_MemoryUsage :: u64
  sn_Checksum :: u32

definition SnapshotVersion :: nat where "SnapshotVersion = 1"
definition SnapshotMagic :: nat where "SnapshotMagic = 0x534E4150"
definition MaxSnapshotsToKeep :: nat where "MaxSnapshotsToKeep = 3"

text \<open>
  The environment of one call: the clock, the order of map iteration, the JSON encoder, and
  for each system call whether it fails. A failing write may have written a prefix.
\<close>

record snap_env =
  se_stamp :: int
  se_now :: go_time
  se_mtime :: int
  se_iter :: iter_order
  se_marshal_header :: "snapshot_header \<Rightarrow> go_error + bytes"
  se_marshal_entry :: "cache_entry \<Rightarrow> go_error + bytes"
  se_mkdir :: "go_error option"
  se_create :: "go_error option"
  se_write :: "nat \<Rightarrow> (go_error \<times> nat) option"
  se_sync :: "go_error option"
  se_close :: "go_error option"
  se_rename :: "go_error option"
  se_glob :: "go_error option"

datatype wcall = WPut string bytes | WFail string go_error

fun entry_calls :: "snap_env \<Rightarrow> string \<times> cache_entry \<Rightarrow> wcall list" where
  "entry_calls env (key, entry) =
     (case se_marshal_entry env entry of
        Inl e \<Rightarrow> [WFail (''failed to marshal entry '' @ key @ '': '') e]
      | Inr data \<Rightarrow> [WPut ''failed to write entry length: '' (be_enc 4 (length data)),
                      WPut ''failed to write entry: '' data])"

text \<open>The bytes of an entry that go into the checksum.\<close>

definition entry_data :: "snap_env \<Rightarrow> string \<times> cache_entry \<Rightarrow> bytes" where
  "entry_data env p = (case se_marshal_entry env (snd p) of Inl e \<Rightarrow> [] | Inr data \<Rightarrow> data)"

definition snapshot_entries :: "snap_env \<Rightarrow> l0_cache \<Rightarrow> (string \<times> cache_entry) list" where
  "snapshot_entries env c = concat (map (se_iter env) (l0_shards c))"

definition make_header :: "snap_env \<Rightarrow> l0_cache \<Rightarrow> snapshot_header" where
  "make_header env c =
     \<lparr>sn_Version = int SnapshotVersion, sn_CreatedAt = se_now env,
      sn_EntryCount = (\<Sum>sh\<leftarrow>l0_shards c. entriesLen sh),
      sn_MemoryUsage = (\<Sum>sh\<leftarrow>l0_shards c. \<Sum>(k, e)\<leftarrow>sh_entries sh. of_int (ce_Size e)),
      sn_Checksum = 0\<rparr>"

definition snapshot_calls :: "snap_env \<Rightarrow> l0_cache \<Rightarrow> wcall list" where
  "snapshot_calls env c =
     [WPut ''failed to write magic number: '' (be_enc 4 SnapshotMagic),
      WPut ''failed to write version: '' (be_enc 4 SnapshotVersion)] @
     (case se_marshal_header env (make_header env c) of
        Inl e \<Rightarrow> [WFail ''failed to marshal header: '' e]
      | Inr hb \<Rightarrow>
          [WPut ''failed to write header length: '' (be_enc 4 (length hb)),
           WPut ''failed to write header: '' hb] @
          concat (map (entry_calls env) (snapshot_entries env c)) @
          [WPut ''failed to write checksum: ''
             (be_enc 4 (unat (crc32 (concat (map (entry_data env) (snapshot_entries env c))))))])"

text \<open>The calls run in order until one fails; \<open>n\<close> counts the writes.\<close>

fun run_calls :: "snap_env \<Rightarrow> string \<Rightarrow> nat \<Rightarrow> wcall list \<Rightarrow> fs_op list \<times> go_error option" where
  "run_calls env tmp n [] = ([], None)"
| "run_calls env tmp n (WFail msg e # cs) = ([], Some (Errorf msg (Some e)))"
| "run_calls env tmp n (WPut msg bs # cs) =
     (case se_write env n of
        Some (e, m) \<Rightarrow> ([FAppend tmp (take m bs)], Some (Errorf msg (Some e)))
      | None \<Rightarrow>
          (let (ops, r) = run_calls env tmp (Suc n) cs in (FAppend tmp bs # ops, r)))"

definition cleanOldSnapshots :: "snap_env \<Rightarrow> dir \<Rightarrow> fs_op list" where
  "cleanOldSnapshots env d =
     (case se_glob env of Some e \<Rightarrow> []
      | None \<Rightarrow>
          (let files = glob_snapshots d in
           if length files \<le> MaxSnapshotsToKeep then []
           else map FRemove (take (length files - MaxSnapshotsToKeep) files)))"

definition write_snapshot_file :: "snap_env \<Rightarrow> l0_cache \<Rightarrow> dir \<Rightarrow> fs_op list \<times> go_error option" where
  "write_snapshot_file env c d =
     (case se_mkdir env of
        Some e \<Rightarrow> ([], Some (Errorf ''failed to create snapshot directory: '' (Some e)))
      | None \<Rightarrow>
     let snapshotFile = snapshot_name (se_stamp env);
         tempFile = snapshotFile @ ''.tmp''
     in (case se_create env of
        Some e \<Rightarrow> ([], Some (Errorf ''failed to create temp snapshot file: '' (Some e)))
      | None \<Rightarrow>
     let (ops, r) = run_calls env tempFile 0 (snapshot_calls env c);
         written = FCreate tempFile # ops
     in (case r of
        Some e \<Rightarrow> (written @ [FRemove tempFile], Some e)
      | None \<Rightarrow>
     (case se_sync env of
        Some e \<Rightarrow> (written @ [FRemove tempFile],
                    Some (Errorf ''failed to sync snapshot: '' (Some e)))
      | None \<Rightarrow>
     (case se_close env of
        Some e \<Rightarrow> (written @ [FRemove tempFile],
                    Some (Errorf ''failed to close snapshot file: '' (Some e)))
      | None \<Rightarrow>
     (case se_rename env of
        Some e \<Rightarrow> (written @ [FRemove tempFile],
                    Some (Errorf ''failed to commit snapshot: '' (Some e)))
      | None \<Rightarrow>
          (let committed = written @ [FRename tempFile snapshotFile] in
           (committed @ cleanOldSnapshots env (fs_run (se_mtime env) committed d), None))))))))"

definition WriteSnapshot ::
    "snap_env \<Rightarrow> l0_cache \<Rightarrow> dir \<Rightarrow> l0_cache \<times> fs_op list \<times> go_error option" where
  "WriteSnapshot env c d =
     (if l0_snapshotting c then (c, [], None)
      else (c\<lparr>l0_snapshotting := False\<rparr>, write_snapshot_file env (c\<lparr>l0_snapshotting := True\<rparr>) d))"

subsection \<open>The timer, the final snapshot and \<open>Close\<close>\<close>

definition snapshot :: "snap_env \<Rightarrow> l0_cache \<Rightarrow> dir \<Rightarrow> l0_cache \<times> fs_op list \<times> go_error option" where
  "snapshot env c d =
     (if l0_snapshotting c then (c, [], None)
      else (case WriteSnapshot env (c\<lparr>l0_snapshotting := True\<rparr>) d of
              (c1, ops, r) \<Rightarrow> (c1\<lparr>l0_snapshotting := False\<rparr>, ops, r)))"

text \<open>One tick of the timer, in a cache whose configuration starts it.\<close>

definition snapshot_tick :: "snap_env \<Rightarrow> l0_cache \<Rightarrow> dir \<Rightarrow> l0_cache \<times> fs_op list" where
  "snapshot_tick env c d =
     (if \<not> l0_enableSnapshot c \<or> l0_snapshotInt c \<le> 0 \<or> l0_cancelled c \<or> l0_snapshotting c
      then (c, [])
      else (case snapshot env c d of (c1, ops, r) \<Rightarrow> (c1, ops)))"

definition L0_Close :: "snap_env \<Rightarrow> l0_cache \<Rightarrow> dir \<Rightarrow> l0_cache \<times> fs_op list \<times> go_error option" where
  "L0_Close env c d =
     (if l0_closed c then (c, [], None)
      else (case snapshot env (c\<lparr>l0_closed := True, l0_cancelled := True\<rparr>) d of
              (c1, ops, r) \<Rightarrow> (c1, ops, None)))"

subsection \<open>Reading a snapshot\<close>

definition io_EOF :: go_error where "io_EOF = Errorf ''EOF'' None"
definition io_ErrUnexpectedEOF :: go_error where
  "io_ErrUnexpectedEOF = Errorf ''unexpected EOF'' None"

definition read_full :: "nat \<Rightarrow> bytes \<Rightarrow> go_error + bytes \<times> bytes" where
  "read_full n bs =
     (if n = 0 then Inr ([], bs)
      else if bs = [] then Inl io_EOF
      else if length bs < n then Inl io_ErrUnexpectedEOF
      else Inr (take n bs, drop n bs))"

definition read_u32 :: "bytes \<Rightarrow> go_error + nat \<times> bytes" where
  "read_u32 bs =
     (case read_full 4 bs of Inl e \<Rightarrow> Inl e | Inr (x, rest) \<Rightarrow> Inr (be_dec x, rest))"

text \<open>Upper-case hexadecimal digits, as \<^verbatim>\<open>%X\<close> prints them.\<close>

fun nat_hex :: "nat \<Rightarrow> string" where
  "nat_hex n =
     (let d = n mod 16; c = char_of (if d < 10 then 48 + d else 55 + d)
      in if n < 16 then [c] else nat_hex (n div 16) @ [c])"

declare nat_hex.simps [simp del]

definition zero_header :: snapshot_header where
  "zero_header = \<lparr>sn_Version = 0, sn_CreatedAt = \<lparr>tm_wall = 0, tm_mono = None\<rparr>,
     sn_EntryCount = 0, sn_MemoryUsage = 0, sn_Checksum = 0\<rparr>"

text \<open>
  \<open>unm\<close> is \<^verbatim>\<open>json.Unmarshal\<close> into the header: the header it leaves (partly filled when it
  fails) and its error. \<open>opened\<close> is what opening the path gives.
\<close>

definition ReadSnapshot ::
    "(bytes \<Rightarrow> snapshot_header \<Rightarrow> snapshot_header \<times> go_error option) \<Rightarrow> go_error + bytes \<Rightarrow>
     snapshot_header \<times> go_error option" where
  "ReadSnapshot unm opened =
     (case opened of
        Inl e \<Rightarrow> (zero_header, Some (Errorf ''failed to open snapshot file: '' (Some e)))
      | Inr bs0 \<Rightarrow>
     (case read_u32 bs0 of
        Inl e \<Rightarrow> (zero_header, Some (Errorf ''failed to read magic number: '' (Some e)))
      | Inr (magic, bs1) \<Rightarrow>
     if magic \<noteq> SnapshotMagic then
       (zero_header, Some (Errorf (''invalid snapshot: bad magic number (got 0x'' @ nat_hex magic @
          '', expected 0x'' @ nat_hex SnapshotMagic @ '')'') None))
     else
     (case read_u32 bs1 of
        Inl e \<Rightarrow> (zero_header, Some (Errorf ''failed to read version: '' (Some e)))
      | Inr (version, bs2) \<Rightarrow>
     if version \<noteq> SnapshotVersion then
       (zero_header, Some (Errorf (''unsupported snapshot version: '' @ fmt_d (int version) @
          '' (expected '' @ fmt_d (int SnapshotVersion) @ '')'') None))
     else
     (case read_u32 bs2 of
        Inl e \<Rightarrow> (zero_header, Some (Errorf ''failed to read header length: '' (Some e)))
      | Inr (headerLen, bs3) \<Rightarrow>
     (case read_full headerLen bs3 of
        Inl e \<Rightarrow> (zero_header, Some (Errorf ''failed to read header: '' (Some e)))
      | Inr (headerBytes, bs4) \<Rightarrow>
     (case unm headerBytes zero_header of
        (h, Some e) \<Rightarrow> (h, Some (Errorf ''failed to unmarshal header: '' (Some e)))
      | (h, None) \<Rightarrow> (h, None)))))))"

lemma read_full_length: "read_full n bs = Inr (x, rest) \<Longrightarrow> length rest + n = length bs"
  by (auto simp: read_full_def split: if_split_asm)

lemma read_u32_length: "read_u32 bs = Inr (x, rest) \<Longrightarrow> length rest + 4 = length bs"
  by (auto simp: read_u32_def dest: read_full_length split: sum.splits)

text \<open>
  The restore loop: entries until the end of the file. \<open>unm\<close> is \<^verbatim>\<open>json.Unmarshal\<close> into an
  entry, \<open>clk\<close> the clock at each \<^verbatim>\<open>Set\<close>; the result carries the bytes hashed and the unread
  rest.
\<close>

function restore_loop ::
    "(bytes \<Rightarrow> go_error + cache_entry) \<Rightarrow> (nat \<Rightarrow> go_time) \<Rightarrow> nat \<Rightarrow> bytes \<Rightarrow> bytes \<Rightarrow> l0_cache \<Rightarrow>
     (l0_cache \<times> (go_error + bytes \<times> bytes)) option" where
  "restore_loop unm clk n hashed bs c =
     (case read_u32 bs of
        Inl e \<Rightarrow>
          if e = io_EOF then Some (c, Inr (hashed, bs))
          else Some (c, Inl (Errorf ''failed to read entry length: '' (Some e)))
      | Inr (entryLen, bs1) \<Rightarrow>
     (case read_full entryLen bs1 of
        Inl e \<Rightarrow> Some (c, Inl (Errorf ''failed to read entry: '' (Some e)))
      | Inr (entryBytes, bs2) \<Rightarrow>
     (case unm entryBytes of
        Inl e \<Rightarrow> Some (c, Inl (Errorf ''failed to unmarshal entry: '' (Some e)))
      | Inr entry \<Rightarrow>
          (case L0_Set (clk n) (ce_Key entry) (ce_Value entry) (ce_TTL entry) c of
             None \<Rightarrow> None
           | Some (c1, r) \<Rightarrow> restore_loop unm clk (Suc n) (hashed @ entryBytes) bs2 c1))))"
  by pat_completeness auto
termination
  by (relation "measure (\<lambda>(unm, clk, n, hashed, bs, c). length bs)")
    (auto dest!: read_u32_length read_full_length)

declare restore_loop.simps [simp del]

definition RestoreFromSnapshot ::
    "(bytes \<Rightarrow> snapshot_header \<Rightarrow> snapshot_header \<times> go_error option) \<Rightarrow>
     (bytes \<Rightarrow> go_error + cache_entry) \<Rightarrow> (nat \<Rightarrow> go_time) \<Rightarrow> go_error + bytes \<Rightarrow> l0_cache \<Rightarrow>
     (l0_cache \<times> go_error option) option" where
  "RestoreFromSnapshot unmh unm clk opened c =
     (if l0_closed c then Some (c, Some (Errorf ''cache is closed'' None))
      else
     (case opened of
        Inl e \<Rightarrow> Some (c, Some (Errorf ''failed to open snapshot file: '' (Some e)))
      | Inr bs0 \<Rightarrow>
     (case read_u32 bs0 of
        Inl e \<Rightarrow> Some (c, Some (Errorf ''failed to read magic number: '' (Some e)))
      | Inr (magic, bs1) \<Rightarrow>
     if magic \<noteq> SnapshotMagic then
       Some (c, Some (Errorf ''invalid snapshot: bad magic number'' None))
     else
     (case read_u32 bs1 of
        Inl e \<Rightarrow> Some (c, Some (Errorf ''failed to read version: '' (Some e)))
      | Inr (version, bs2) \<Rightarrow>
     if version \<noteq> SnapshotVersion then
       Some (c, Some (Errorf (''unsupported snapshot version: '' @ fmt_d (int version)) None))
     else
     (case read_u32 bs2 of
        Inl e \<Rightarrow> Some (c, Some (Errorf ''failed to read header length: '' (Some e)))
      | Inr (headerLen, bs3) \<Rightarrow>
     (case read_full headerLen bs3 of
        Inl e \<Rightarrow> Some (c, Some (Errorf ''failed to read header: '' (Some e)))
      | Inr (headerBytes, bs4) \<Rightarrow>
     (case unmh headerBytes zero_header of
        (h, Some e) \<Rightarrow> Some (c, Some (Errorf ''failed to unmarshal header: '' (Some e)))
      | (h, None) \<Rightarrow>
     (case restore_loop unm clk 0 [] bs4 c of
        None \<Rightarrow> None
      | Some (c1, Inl e) \<Rightarrow> Some (c1, Some e)
      | Some (c1, Inr (hashed, rest)) \<Rightarrow>
     (case read_u32 rest of
        Inl e \<Rightarrow> Some (c1, Some (Errorf ''failed to read checksum: '' (Some e)))
      | Inr (stored, rest1) \<Rightarrow>
          if stored \<noteq> unat (crc32 hashed) then
            Some (c1, Some (Errorf (''snapshot checksum mismatch: stored=0x'' @ nat_hex stored @
              '', computed=0x'' @ nat_hex (unat (crc32 hashed))) None))
          else Some (c1, None))))))))))"

definition L0_Restore ::
    "(bytes \<Rightarrow> snapshot_header \<Rightarrow> snapshot_header \<times> go_error option) \<Rightarrow>
     (bytes \<Rightarrow> go_error + cache_entry) \<Rightarrow> (nat \<Rightarrow> go_time) \<Rightarrow> go_error + bytes \<Rightarrow> l0_cache \<Rightarrow>
     (l0_cache \<times> go_error option) option" where
  "L0_Restore unmh unm clk opened c =
     (if l0_closed c then Some (c, Some (L0_closed_error ''restore''))
      else RestoreFromSnapshot unmh unm clk opened c)"

text \<open>\<open>stat\<close> gives a file's modification time; a file whose \<^verbatim>\<open>os.Stat\<close> fails is skipped.\<close>

fun latest_loop :: "(string \<Rightarrow> int option) \<Rightarrow> string list \<Rightarrow> string \<Rightarrow> int \<Rightarrow> string" where
  "latest_loop stat [] latest latestTime = latest"
| "latest_loop stat (f # fs) latest latestTime =
     (case stat f of None \<Rightarrow> latest_loop stat fs latest latestTime
      | Some m \<Rightarrow>
          if latest = [] \<or> latestTime < m then latest_loop stat fs f m
          else latest_loop stat fs latest latestTime)"

definition FindLatestSnapshot ::
    "(string \<Rightarrow> int option) \<Rightarrow> go_error + string list \<Rightarrow> string \<times> go_error option" where
  "FindLatestSnapshot stat globbed =
     (case globbed of Inl e \<Rightarrow> ([], Some e)
      | Inr files \<Rightarrow>
          if length files = 0 then ([], Some (Errorf ''no snapshot files found'' None))
          else (let latest = latest_loop stat files [] 0 in
                if latest = [] then ([], Some (Errorf ''no valid snapshot files found'' None))
                else (latest, None)))"

end
