(* ===== verification/L0_Snapshot_Props.thy ===== *)
theory L0_Snapshot_Props
  imports L0_Snapshot
begin

text \<open>
  Properties of the snapshots: what a written file contains and what reading it gives, the
  atomicity of a write under a crash, which files the cleaning keeps, which file is chosen for
  a restore, and two defects: no restore ever succeeds, and neither the timer nor \<^verbatim>\<open>Close\<close>
  ever writes a file.
\<close>

subsection \<open>Reading what was written\<close>

lemma read_full_append [simp]: "n = length d \<Longrightarrow> read_full n (d @ rest) = Inr (d, rest)"
  by (auto simp: read_full_def)

lemma read_u32_enc [simp]:
  assumes "x < 4294967296"
  shows "read_u32 (be_enc 4 x @ rest) = Inr (x, rest)"
  using assms read_full_append [of 4 "be_enc 4 x" rest]
  by (simp add: read_u32_def be_dec_enc)

lemma read_u32_EOF [simp]: "read_u32 [] = Inl io_EOF"
  by (simp add: read_u32_def read_full_def)

lemma read_u32_EOF_iff: "read_u32 bs = Inl io_EOF \<longleftrightarrow> bs = []"
  by (auto simp: read_u32_def read_full_def io_EOF_def io_ErrUnexpectedEOF_def
      split: if_split_asm)

text \<open>The restore loop stops normally only at the end of the file.\<close>

lemma restore_loop_rest:
  "restore_loop unm clk n hashed bs c = Some (c', Inr (h, rest)) \<Longrightarrow> rest = []"
proof (induction unm clk n hashed bs c rule: restore_loop.induct)
  case (1 unm clk n hashed bs c)
  consider "bs = []" "rest = bs"
    | x y data bs2 e c1 r where "read_u32 bs = Inr (x, y)" "read_full x y = Inr (data, bs2)"
        "unm data = Inr e" "L0_Set (clk n) (ce_Key e) (ce_Value e) (ce_TTL e) c = Some (c1, r)"
        "restore_loop unm clk (Suc n) (hashed @ data) bs2 c1 = Some (c', Inr (h, rest))"
    using "1.prems"
    by (subst (asm) restore_loop.simps)
      (auto simp: read_u32_EOF_iff split: sum.splits option.splits if_split_asm)
  then show ?case
  proof cases
    case 2
    then show ?thesis using "1.IH" [OF 2(1) refl 2(2) refl 2(3,4) refl] by simp
  qed simp
qed

text \<open>
  C7. Restoring a snapshot never succeeds: whatever the file holds and whatever the decoder
  does, \<^verbatim>\<open>RestoreFromSnapshot\<close> does not return nil. The loop reads entries until the end of the
  file, so it takes the checksum for the length of an entry, and when it stops at the end of
  the file there is no checksum left to read.
\<close>

theorem restore_never_succeeds:
  "RestoreFromSnapshot unmh unm clk opened c \<noteq> Some (c', None)"
  by (auto simp: RestoreFromSnapshot_def dest!: restore_loop_rest
      split: sum.splits option.splits prod.splits)

text \<open>
  C14. No snapshot is ever written by the running cache: \<^verbatim>\<open>snapshot\<close> takes the snapshotting flag
  before it calls \<^verbatim>\<open>WriteSnapshot\<close>, which finds it taken and returns nil, so neither the timer
  nor \<^verbatim>\<open>Close\<close> touches the snapshot directory; both report success.
\<close>

theorem snapshot_never_writes:
  "snd (snapshot env c d) = ([], None) \<and> snd (snapshot_tick env c d) = [] \<and>
   snd (L0_Close env c d) = ([], None)"
proof -
  have "snd (snapshot env c d) = ([], None)" for c
    by (simp add: snapshot_def WriteSnapshot_def)
  then show ?thesis
    by (auto simp: snapshot_tick_def L0_Close_def split: prod.split) (metis prod.inject prod.collapse)+
qed

subsection \<open>The bytes of a snapshot\<close>

fun call_data :: "wcall \<Rightarrow> bytes" where
  "call_data (WPut msg bs) = bs"
| "call_data (WFail msg e) = []"

fun is_WPut :: "wcall \<Rightarrow> bool" where
  "is_WPut (WPut msg bs) = True"
| "is_WPut (WFail msg e) = False"

definition snapshot_bytes :: "snap_env \<Rightarrow> l0_cache \<Rightarrow> bytes" where
  "snapshot_bytes env c = concat (map call_data (snapshot_calls env c))"

text \<open>The header and every entry can be encoded, and no encoding is longer than 4 GB.\<close>

definition encodable :: "snap_env \<Rightarrow> l0_cache \<Rightarrow> bool" where
  "encodable env c \<longleftrightarrow>
     (case se_marshal_header env (make_header env c) of Inl e \<Rightarrow> False
      | Inr hb \<Rightarrow> length hb < 2 ^ 32) \<and>
     list_all (\<lambda>(k, e). case se_marshal_entry env e of Inl err \<Rightarrow> False
      | Inr data \<Rightarrow> length data < 2 ^ 32) (snapshot_entries env c)"

definition entry_frames :: "snap_env \<Rightarrow> (string \<times> cache_entry) list \<Rightarrow> bytes" where
  "entry_frames env ps =
     concat (map (\<lambda>p. be_enc 4 (length (entry_data env p)) @ entry_data env p) ps)"

lemma entry_frames_simps [simp]:
  "entry_frames env [] = []"
  "entry_frames env (p # ps) =
     be_enc 4 (length (entry_data env p)) @ entry_data env p @ entry_frames env ps"
  by (simp_all add: entry_frames_def)

lemma entry_calls_data:
  "se_marshal_entry env (snd p) = Inr data \<Longrightarrow>
   concat (map call_data (entry_calls env p)) =
     be_enc 4 (length (entry_data env p)) @ entry_data env p"
  by (cases p) (simp add: entry_data_def)

lemma snapshot_bytes_shape:
  assumes "encodable env c" and "se_marshal_header env (make_header env c) = Inr hb"
  shows "snapshot_bytes env c =
    be_enc 4 SnapshotMagic @ be_enc 4 SnapshotVersion @ be_enc 4 (length hb) @ hb @
    entry_frames env (snapshot_entries env c) @
    be_enc 4 (unat (crc32 (concat (map (entry_data env) (snapshot_entries env c)))))"
proof -
  have "concat (map call_data (concat (map (entry_calls env) ps))) = entry_frames env ps"
    if "list_all (\<lambda>(k, e). case se_marshal_entry env e of Inl err \<Rightarrow> False
        | Inr data \<Rightarrow> length data < 2 ^ 32) ps" for ps
    using that
  proof (induction ps)
    case (Cons p ps)
    then obtain data where "se_marshal_entry env (snd p) = Inr data"
      by (auto split: prod.splits sum.splits)
    from entry_calls_data [OF this] Cons show ?case by simp
  qed simp
  then show ?thesis
    using assms by (simp add: snapshot_bytes_def snapshot_calls_def encodable_def)
qed

lemma snapshot_constants: "SnapshotMagic < 4294967296" "SnapshotVersion < 4294967296"
  by (simp_all add: SnapshotMagic_def SnapshotVersion_def)

text \<open>
  Snapshot header round trip: reading a file that starts like a written snapshot checks the
  magic number and the version and returns the header the decoder gives for the header bytes
  that were written.
\<close>

theorem snapshot_header_roundtrip:
  assumes "encodable env c" and "se_marshal_header env (make_header env c) = Inr hb"
    and "unmh hb zero_header = (h, None)"
  shows "ReadSnapshot unmh (Inr (snapshot_bytes env c)) = (h, None)"
  using assms snapshot_constants
  by (simp add: ReadSnapshot_def snapshot_bytes_shape encodable_def)

subsection \<open>What a restore brings back\<close>

text \<open>The \<^verbatim>\<open>Set\<close> calls of a restore, in file order; their errors are only logged.\<close>

fun restore_sets ::
    "(nat \<Rightarrow> go_time) \<Rightarrow> nat \<Rightarrow> (string \<times> cache_entry) list \<Rightarrow> l0_cache \<Rightarrow> l0_cache option" where
  "restore_sets clk n [] c = Some c"
| "restore_sets clk n ((k, e) # ps) c =
     (case L0_Set (clk n) (ce_Key e) (ce_Value e) (ce_TTL e) c of None \<Rightarrow> None
      | Some (c1, r) \<Rightarrow> restore_sets clk (Suc n) ps c1)"

text \<open>Decoding gives back the three fields a restore uses.\<close>

definition decodes :: "snap_env \<Rightarrow> (bytes \<Rightarrow> go_error + cache_entry) \<Rightarrow> string \<times> cache_entry \<Rightarrow> bool"
  where
  "decodes env unm p \<longleftrightarrow>
     (case se_marshal_entry env (snd p) of Inl e \<Rightarrow> False
      | Inr data \<Rightarrow> length data < 2 ^ 32 \<and>
          (case unm data of Inl e \<Rightarrow> False
           | Inr e \<Rightarrow> ce_Key e = ce_Key (snd p) \<and> ce_Value e = ce_Value (snd p) \<and>
               ce_TTL e = ce_TTL (snd p)))"

lemma restore_loop_frames:
  assumes "list_all (decodes env unm) ps" and "restore_sets clk n ps c = Some c1"
  shows "restore_loop unm clk n hashed (entry_frames env ps @ rest) c =
    restore_loop unm clk (n + length ps) (hashed @ concat (map (entry_data env) ps)) rest c1"
  using assms
proof (induction ps arbitrary: n c hashed)
  case (Cons p ps)
  obtain k e where p: "p = (k, e)" by force
  from Cons.prems(1) p obtain data e' where data: "se_marshal_entry env e = Inr data"
      "length data < 4294967296" "unm data = Inr e'" "ce_Key e' = ce_Key e" "ce_Value e' = ce_Value e"
      "ce_TTL e' = ce_TTL e"
    by (auto simp: decodes_def split: sum.splits)
  from Cons.prems(2) p obtain c2 r where c2:
      "L0_Set (clk n) (ce_Key e) (ce_Value e) (ce_TTL e) c = Some (c2, r)"
      "restore_sets clk (Suc n) ps c2 = Some c1"
    by (auto split: option.splits)
  have ed: "entry_data env p = data" using data p by (simp add: entry_data_def)
  have "restore_loop unm clk n hashed (entry_frames env (p # ps) @ rest) c =
      restore_loop unm clk (Suc n) (hashed @ data) (entry_frames env ps @ rest) c2"
    by (subst restore_loop.simps) (simp add: ed data c2)
  then show ?case using Cons.IH [of "Suc n" c2 "hashed @ data"] Cons.prems(1) c2 ed by simp
qed simp

text \<open>Four bytes at the end of the file, read as the length of an entry, are an error.\<close>

lemma restore_loop_trailer:
  assumes "unm [] = Inl e0" and "x < 4294967296"
  shows "\<exists>err. restore_loop unm clk n hashed (be_enc 4 x) c = Some (c, Inl err)"
  using read_u32_enc [OF assms(2), of "[]"] assms(1)
  by (subst restore_loop.simps) (auto simp: read_full_def split: sum.split)

text \<open>
  Restoring a written snapshot: each entry of the file is stored with \<^verbatim>\<open>Set\<close>, in file order
  and with its own lifetime, and then the restore still reports an error, at the checksum. Of
  the decoder it takes that it gives back the key, value and lifetime of the entries written and
  rejects empty input.
\<close>

theorem restore_written_snapshot:
  assumes "encodable env c" and "se_marshal_header env (make_header env c) = Inr hb"
    and "unmh hb zero_header = (h, None)" and "unm [] = Inl e0"
    and "list_all (decodes env unm) (snapshot_entries env c)"
    and "\<not> l0_closed c0" and "restore_sets clk 0 (snapshot_entries env c) c0 = Some c1"
  shows "\<exists>err. RestoreFromSnapshot unmh unm clk (Inr (snapshot_bytes env c)) c0 = Some (c1, Some err)"
proof -
  let ?ps = "snapshot_entries env c"
  let ?crc = "unat (crc32 (concat (map (entry_data env) ?ps)))"
  have crc: "?crc < 4294967296" using unsigned_less [of "crc32 (concat (map (entry_data env) ?ps))", where 'a = nat]
    by simp
  from restore_loop_trailer [of unm e0, OF assms(4) crc]
  obtain err where "restore_loop unm clk (length ?ps) (concat (map (entry_data env) ?ps)) (be_enc 4 ?crc) c1
      = Some (c1, Inl err)" by blast
  with restore_loop_frames [OF assms(5,7), of "[]" "be_enc 4 ?crc"]
  have "restore_loop unm clk 0 [] (entry_frames env ?ps @ be_enc 4 ?crc) c0 = Some (c1, Inl err)"
    by simp
  with assms snapshot_constants show ?thesis
    by (simp add: RestoreFromSnapshot_def snapshot_bytes_shape encodable_def)
qed

subsection \<open>A write and its crashes\<close>

lemma fs_run_simps [simp]:
  "fs_run now [] d = d"
  "fs_run now (op # ops) d = fs_run now ops (fs_apply now op d)"
  "fs_run now (ops1 @ ops2) d = fs_run now ops2 (fs_run now ops1 d)"
  by (simp_all add: fs_run_def)

text \<open>Operations that touch one file only.\<close>

fun only_on :: "string \<Rightarrow> fs_op \<Rightarrow> bool" where
  "only_on tmp (FCreate p) = (p = tmp)"
| "only_on tmp (FAppend p bs) = (p = tmp)"
| "only_on tmp (FRename p q) = False"
| "only_on tmp (FRemove p) = (p = tmp)"

lemma fs_run_only:
  assumes "list_all (only_on tmp) ops" and "p \<noteq> tmp"
  shows "map_of (fs_run now ops d) p = map_of d p"
  using assms
proof (induction ops arbitrary: d)
  case (Cons op ops)
  then show ?case by (cases op) (simp_all split: option.split)
qed simp

lemma run_calls_only: "list_all (only_on tmp) (fst (run_calls env tmp n cs))"
  by (induction env tmp n cs rule: run_calls.induct)
    (auto split: option.split prod.split)

lemma run_calls_None:
  "run_calls env tmp n cs = (ops, None) \<Longrightarrow>
   list_all is_WPut cs \<and> ops = map (\<lambda>x. FAppend tmp (call_data x)) cs"
  by (induction env tmp n cs arbitrary: ops rule: run_calls.induct)
    (auto split: option.splits prod.splits)

lemma appends_content:
  "map_of d tmp = Some f \<Longrightarrow> fi_mtime f = now \<Longrightarrow>
   map_of (fs_run now (map (\<lambda>x. FAppend tmp (call_data x)) cs) d) tmp =
     Some (f\<lparr>fi_data := fi_data f @ concat (map call_data cs)\<rparr>)"
  by (induction cs arbitrary: d f) auto

lemma written_content:
  "map_of (fs_run now (FCreate tmp # map (\<lambda>x. FAppend tmp (call_data x)) cs) d) tmp =
     Some \<lparr>fi_data = concat (map call_data cs), fi_mtime = now\<rparr>"
  by (simp add: appends_content)

lemma snapshot_flag [simp]:
  "snapshot_entries env (c\<lparr>l0_snapshotting := b\<rparr>) = snapshot_entries env c"
  "make_header env (c\<lparr>l0_snapshotting := b\<rparr>) = make_header env c"
  "snapshot_calls env (c\<lparr>l0_snapshotting := b\<rparr>) = snapshot_calls env c"
proof -
  show e: "snapshot_entries env (c\<lparr>l0_snapshotting := b\<rparr>) = snapshot_entries env c"
    by (simp add: snapshot_entries_def)
  show h: "make_header env (c\<lparr>l0_snapshotting := b\<rparr>) = make_header env c"
    by (simp add: make_header_def)
  show "snapshot_calls env (c\<lparr>l0_snapshotting := b\<rparr>) = snapshot_calls env c"
    unfolding snapshot_calls_def e h ..
qed

text \<open>What a write that succeeds does before the cleaning.\<close>

abbreviation temp_name :: "snap_env \<Rightarrow> string" where
  "temp_name env \<equiv> snapshot_name (se_stamp env) @ ''.tmp''"

definition snapshot_writes :: "snap_env \<Rightarrow> l0_cache \<Rightarrow> fs_op list" where
  "snapshot_writes env c =
     FCreate (temp_name env) # map (\<lambda>x. FAppend (temp_name env) (call_data x)) (snapshot_calls env c)"

abbreviation commit_ops :: "snap_env \<Rightarrow> l0_cache \<Rightarrow> fs_op list" where
  "commit_ops env c \<equiv> snapshot_writes env c @ [FRename (temp_name env) (snapshot_name (se_stamp env))]"

lemma snapshot_writes_only: "list_all (only_on (temp_name env)) (snapshot_writes env c)"
  by (simp add: snapshot_writes_def list_all_iff)

lemma committed_file:
  "map_of (fs_run now (commit_ops env c) d) (snapshot_name (se_stamp env)) =
     Some \<lparr>fi_data = snapshot_bytes env c, fi_mtime = now\<rparr>"
proof -
  have "map_of (fs_run now (snapshot_writes env c) d) (temp_name env) =
      Some \<lparr>fi_data = snapshot_bytes env c, fi_mtime = now\<rparr>"
    unfolding snapshot_writes_def snapshot_bytes_def by (rule written_content)
  then show ?thesis by simp
qed

lemma committed_other:
  assumes "p \<noteq> snapshot_name (se_stamp env)" and "p \<noteq> temp_name env"
  shows "map_of (fs_run now (commit_ops env c) d) p = map_of d p"
  using fs_run_only [OF snapshot_writes_only assms(2), of now c d] assms by (auto split: option.split)

text \<open>The two shapes of a write: everything happens to the temporary file, or a commit follows.\<close>

lemma write_snapshot_ops:
  assumes "write_snapshot_file env c d = (ops, r)"
  shows "r \<noteq> None \<and> list_all (only_on (temp_name env)) ops \<or>
    r = None \<and> ops = commit_ops env c @ cleanOldSnapshots env (fs_run (se_mtime env) (commit_ops env c) d)"
proof -
  obtain wops wr where w: "run_calls env (temp_name env) 0 (snapshot_calls env c) = (wops, wr)" by force
  have only: "list_all (only_on (temp_name env)) wops"
    using run_calls_only [of "temp_name env" env 0 "snapshot_calls env c"] w by simp
  show ?thesis
  proof (cases wr)
    case None
    with run_calls_None w have "wops = map (\<lambda>x. FAppend (temp_name env) (call_data x)) (snapshot_calls env c)"
      by blast
    then show ?thesis
      using assms w None only
      by (auto simp: write_snapshot_file_def snapshot_writes_def Let_def split: option.splits)
  next
    case (Some e)
    then show ?thesis
      using assms w only by (auto simp: write_snapshot_file_def Let_def split: option.splits)
  qed
qed

lemma snapshot_writes_flag [simp]: "snapshot_writes env (c\<lparr>l0_snapshotting := b\<rparr>) = snapshot_writes env c"
  by (simp add: snapshot_writes_def)

lemma WriteSnapshot_ops:
  assumes "WriteSnapshot env c d = (c', ops, r)" and "\<not> l0_snapshotting c"
  shows "r \<noteq> None \<and> list_all (only_on (temp_name env)) ops \<or>
    r = None \<and> ops = commit_ops env c @ cleanOldSnapshots env (fs_run (se_mtime env) (commit_ops env c) d)"
proof -
  have "write_snapshot_file env (c\<lparr>l0_snapshotting := True\<rparr>) d = (ops, r)"
    using assms by (simp add: WriteSnapshot_def)
  from write_snapshot_ops [OF this] show ?thesis unfolding snapshot_writes_flag .
qed

lemma tmp_not_snapshot: "is_snapshot_name p \<Longrightarrow> p \<noteq> q @ ''.tmp''"
  by (auto simp: is_snapshot_name_def suffix_def append_eq_append_conv2 append_eq_Cons_conv
      Cons_eq_append_conv)

lemma removes_le: "map_of (fs_run now (map FRemove xs) d) \<subseteq>\<^sub>m map_of d"
proof (induction xs arbitrary: d)
  case (Cons x xs)
  have "map_of (fs_run now (map FRemove xs) (AList.delete x d)) \<subseteq>\<^sub>m (map_of d)(x := None)"
    using Cons [of "AList.delete x d"] by (simp only: AList_map_of_delete)
  moreover have "(map_of d)(x := None) \<subseteq>\<^sub>m map_of d" by (simp add: map_le_def)
  ultimately have "map_of (fs_run now (map FRemove xs) (AList.delete x d)) \<subseteq>\<^sub>m map_of d"
    by (rule map_le_trans)
  then show ?case by simp
qed simp

lemma take_past:
  "take k (w @ x # ys) = (if k \<le> length w then take k w else w @ x # take (k - Suc (length w)) ys)"
  by (auto simp: take_Cons' Suc_diff_Suc not_le)

lemma clean_shape: "\<exists>xs. cleanOldSnapshots env d = map FRemove xs"
proof -
  have "map FRemove [] = []" by simp
  then show ?thesis by (fastforce simp: cleanOldSnapshots_def Let_def split: option.split)
qed

lemma list_all_take: "list_all P xs \<Longrightarrow> list_all P (take k xs)"
  by (auto simp: list_all_iff dest: in_set_takeD)

text \<open>A crash leaves a part of the writes, or the commit and a part of the cleaning.\<close>

lemma take_snapshot_ops:
  "list_all (only_on (temp_name env)) (take k (commit_ops env c @ cleanOldSnapshots env d)) \<or>
   (\<exists>j ys. take k (commit_ops env c @ cleanOldSnapshots env d) = commit_ops env c @ map FRemove (take j ys))"
proof (cases "k \<le> length (snapshot_writes env c)")
  case True
  then show ?thesis using list_all_take [OF snapshot_writes_only] by simp
next
  case False
  obtain ys where "cleanOldSnapshots env d = map FRemove ys" using clean_shape by blast
  then show ?thesis using False take_past [of k "snapshot_writes env c"] by (auto simp: take_map)
qed

text \<open>
  C12. A snapshot write is atomic: after any prefix of its file operations (a crash at any point,
  or a failing call, included) every file of the directory that counts as a snapshot is either
  one that was there before, unchanged, or the new one with all its bytes.
\<close>

theorem snapshot_write_atomic:
  assumes "WriteSnapshot env c d = (c', ops, r)"
    and "map_of (fs_run (se_mtime env) (take k ops) d) p = Some f" and "is_snapshot_name p"
  shows "map_of d p = Some f \<or>
    p = snapshot_name (se_stamp env) \<and> fi_data f = snapshot_bytes env c"
proof (cases "l0_snapshotting c")
  case True
  then show ?thesis using assms by (simp add: WriteSnapshot_def)
next
  case False
  let ?w = "snapshot_writes env c"
  have p: "p \<noteq> temp_name env" by (rule tmp_not_snapshot [OF assms(3)])
  have unchanged: "map_of d p = Some f" if "list_all (only_on (temp_name env)) (take k ops)"
    using fs_run_only [OF that p] assms(2) by simp
  consider "list_all (only_on (temp_name env)) (take k ops)" | j ys where
    "take k ops = commit_ops env c @ map FRemove (take j ys)"
    using WriteSnapshot_ops [OF assms(1) False] take_snapshot_ops list_all_take by metis
  then show ?thesis
  proof cases
    case (2 j ys)
    have "map_of (fs_run (se_mtime env) (commit_ops env c) d) p = Some f"
      using removes_le assms(2) unfolding 2 fs_run_simps(3) [of _ "commit_ops env c"] by (rule map_leD)
    then show ?thesis
      using committed_file [of "se_mtime env" env c d] committed_other [of p env "se_mtime env" c d] p
      by (cases "p = snapshot_name (se_stamp env)") simp_all
  qed (use unchanged in blast)
qed

subsection \<open>Cleaning\<close>

lemma snapshot_name_matches: "is_snapshot_name (snapshot_name stamp)"
proof -
  have "CHR 0x2F \<notin> set (fmt_d stamp)"
    by (auto simp: fmt_d_def dest: set_nat_digits)
  moreover have "fmt_d stamp \<noteq> []" by (simp add: fmt_d_def nat_digits_nonempty)
  then have "0 < length (fmt_d stamp)" by simp
  ultimately show ?thesis
    by (simp add: is_snapshot_name_def snapshot_name_def suffix_def)
qed

lemma keys_removes: "map fst (fs_run now (map FRemove xs) d) = filter (\<lambda>x. x \<notin> set xs) (map fst d)"
proof (induction xs arbitrary: d)
  case (Cons x xs)
  have "map fst (AList.delete x d) = filter (\<lambda>y. y \<noteq> x) (map fst d)"
    by (induction d) auto
  then show ?case by (simp add: Cons conj_commute)
qed simp

lemma glob_removes:
  "glob_snapshots (fs_run now (map FRemove xs) d) = filter (\<lambda>x. x \<notin> set xs) (glob_snapshots d)"
  unfolding glob_snapshots_def keys_removes
  by (simp add: filter_sort conj_commute)

lemma distinct_fs_run: "distinct (map fst d) \<Longrightarrow> distinct (map fst (fs_run now ops d))"
proof (induction ops arbitrary: d)
  case (Cons op ops)
  have "distinct (map fst (fs_apply now op d))"
    using Cons.prems by (cases op) (auto split: option.split)
  with Cons.IH show ?case by simp
qed simp

lemma clean_eq:
  assumes "se_glob env = None"
  shows "cleanOldSnapshots env d =
    map FRemove (take (length (glob_snapshots d) - MaxSnapshotsToKeep) (glob_snapshots d))"
  using assms by (simp add: cleanOldSnapshots_def Let_def)

lemma glob_clean:
  assumes "distinct (map fst d)" and "se_glob env = None"
  shows "glob_snapshots (fs_run now (cleanOldSnapshots env d) d) =
    drop (length (glob_snapshots d) - MaxSnapshotsToKeep) (glob_snapshots d)"
proof -
  have "distinct (glob_snapshots d)" using assms(1) by (simp add: glob_snapshots_def)
  then show ?thesis
    unfolding clean_eq [OF assms(2)] glob_removes by (rule filter_notin_take)
qed

lemma map_of_removes:
  "p \<notin> set xs \<Longrightarrow> map_of (fs_run now (map FRemove xs) d) p = map_of d p"
  by (induction xs arbitrary: d) auto

lemma in_glob: "p \<in> set (glob_snapshots d) \<longleftrightarrow> is_snapshot_name p \<and> map_of d p \<noteq> None"
  by (auto simp: glob_snapshots_def map_of_eq_None_iff)

lemma sorted_last_ge:
  assumes "sorted xs" and "x \<in> set xs"
  shows "x \<le> last xs"
proof -
  obtain i where i: "i < length xs" "x = xs ! i" using assms(2) by (auto simp: in_set_conv_nth)
  then have "x \<le> xs ! (length xs - 1)" using assms(1) by (auto intro: sorted_nth_mono)
  moreover have "xs \<noteq> []" using i by auto
  ultimately show ?thesis using i by (simp add: last_conv_nth)
qed

text \<open>The greatest element of a sorted list is not among those dropped from its front.\<close>

lemma greatest_kept:
  assumes "sorted xs" and "distinct xs" and "x \<in> set xs" and "\<forall>y \<in> set xs. y \<le> x" and "m < length xs"
  shows "x \<in> set (drop m xs) \<and> x \<notin> set (take m xs)"
proof -
  have "last xs = x"
    using sorted_last_ge [OF assms(1,3)] assms(3,4) by (metis last_in_set list.set_cases order.antisym list.distinct(1))
  then have "x \<in> set (drop m xs)" using last_in_set [of "drop m xs"] assms(5) by (simp add: last_drop)
  then show ?thesis using set_take_disj_set_drop_if_distinct [OF assms(2), of m m] by auto
qed

text \<open>
  C20. A successful snapshot write commits: when the name of the new snapshot is the last in
  name order (names order like their time stamps), the directory afterwards holds the new
  snapshot with all its bytes and at most two others, and every older snapshot that was removed
  precedes in name order every one that is kept.
\<close>

theorem snapshot_commit:
  assumes "distinct (map fst d)" and "\<not> l0_snapshotting c" and "se_glob env = None"
    and "WriteSnapshot env c d = (c', ops, None)"
    and "\<forall>p \<in> set (glob_snapshots d). p \<le> snapshot_name (se_stamp env)"
  defines "d' \<equiv> fs_run (se_mtime env) ops d"
  shows "map_of d' (snapshot_name (se_stamp env)) =
      Some \<lparr>fi_data = snapshot_bytes env c, fi_mtime = se_mtime env\<rparr> \<and>
    length (glob_snapshots d') \<le> 3 \<and>
    (\<forall>p \<in> set (glob_snapshots d) - set (glob_snapshots d'). \<forall>q \<in> set (glob_snapshots d'). p \<le> q)"
proof -
  let ?file = "snapshot_name (se_stamp env)"
  define d1 where "d1 = fs_run (se_mtime env) (commit_ops env c) d"
  let ?F = "glob_snapshots d1"
  let ?m = "length ?F - MaxSnapshotsToKeep"
  have d': "d' = fs_run (se_mtime env) (cleanOldSnapshots env d1) d1"
    using WriteSnapshot_ops [OF assms(4,2)] by (simp add: d'_def d1_def)
  have dist: "distinct (map fst d1)" unfolding d1_def by (rule distinct_fs_run [OF assms(1)])
  have glob': "glob_snapshots d' = drop ?m ?F" unfolding d' by (rule glob_clean [OF dist assms(3)])
  have new: "map_of d1 ?file = Some \<lparr>fi_data = snapshot_bytes env c, fi_mtime = se_mtime env\<rparr>"
    unfolding d1_def by (rule committed_file)
  have globbed: "p \<in> set ?F \<longleftrightarrow> p = ?file \<or> p \<in> set (glob_snapshots d)" for p
  proof (cases "p = ?file")
    case False
    then have "map_of d1 p = map_of d p" if "is_snapshot_name p"
      unfolding d1_def using that by (intro committed_other) (simp_all add: tmp_not_snapshot)
    then show ?thesis using False by (simp add: in_glob cong: conj_cong)
  qed (simp add: in_glob snapshot_name_matches new)
  have F: "sorted ?F" "distinct ?F" using dist by (simp_all add: glob_snapshots_def)
  have greatest: "\<forall>p \<in> set ?F. p \<le> ?file" using assms(5) by (auto simp only: globbed)
  have "?m < length ?F" using globbed [of ?file] by (cases ?F) (simp_all add: MaxSnapshotsToKeep_def)
  then have kept: "?file \<in> set (drop ?m ?F)" "?file \<notin> set (take ?m ?F)"
    using greatest_kept [OF F, of ?file ?m] greatest globbed [of ?file] by blast+
  have "map_of d' ?file = map_of d1 ?file"
    unfolding d' clean_eq [OF assms(3)] by (rule map_of_removes [OF kept(2)])
  moreover have "p \<in> set (take ?m ?F)" if "p \<in> set (glob_snapshots d) - set (drop ?m ?F)" for p
    using that globbed [of p] set_append [of "take ?m ?F" "drop ?m ?F"] by simp
  moreover have "\<forall>p \<in> set (take ?m ?F). \<forall>q \<in> set (drop ?m ?F). p \<le> q"
    using F(1) sorted_append [of "take ?m ?F" "drop ?m ?F"] by simp
  ultimately show ?thesis unfolding glob' new by (auto simp: MaxSnapshotsToKeep_def)
qed

text \<open>Names order like their stamps, as long as these have the same number of digits.\<close>

lemma less_append_same_length:
  fixes xs ys :: "'a::linorder list"
  assumes "length xs = length ys" and "xs < ys"
  shows "xs @ us < ys @ vs"
  using assms by (induction xs ys rule: list_induct2) auto

lemma less_append_left: "us < vs \<Longrightarrow> xs @ us < xs @ vs" for xs :: "'a::linorder list"
  by (induction xs) auto

lemma nat_digits_less:
  assumes "m < n" and "length (nat_digits m) = length (nat_digits n)"
  shows "nat_digits m < nat_digits n"
  using assms
proof (induction n arbitrary: m rule: nat_digits.induct)
  case (1 n)
  have single: "length (nat_digits k) = 1 \<longleftrightarrow> k < 10" for k
    using nat_digits_nonempty [of "k div 10"] by (simp add: nat_digits.simps [of k])
  have char_less: "(char_of (48 + a) :: char) < char_of (48 + b)" if "a < b" "b < 10" for a b :: nat
    using that by (simp add: less_char_def)
  show ?case
  proof (cases "n < 10")
    case True
    then have "m < 10" using "1.prems"(1) by simp
    then show ?thesis using True "1.prems"(1) char_less [of m n]
      by (simp add: nat_digits.simps [of m] nat_digits.simps [of n])
  next
    case False
    then have "\<not> m < 10" using "1.prems"(2) single by metis
    note digits = nat_digits.simps [of m] nat_digits.simps [of n]
    consider "m div 10 < n div 10" | "m div 10 = n div 10" "m mod 10 < n mod 10"
      using "1.prems"(1) by (metis div_le_mono div_mod_decomp le_neq_implies_less nat_add_left_cancel_less
          nat_less_le)
    then show ?thesis
    proof cases
      case 1
      then have "nat_digits (m div 10) < nat_digits (n div 10)"
        using "1.IH" [OF False] "1.prems"(2) False \<open>\<not> m < 10\<close> by (simp add: digits)
      then show ?thesis using False \<open>\<not> m < 10\<close> "1.prems"(2)
        by (simp add: digits less_append_same_length)
    next
      case 2
      then show ?thesis using False \<open>\<not> m < 10\<close> char_less [of "m mod 10" "n mod 10"]
        by (simp add: digits less_append_left)
    qed
  qed
qed

lemma snapshot_name_less:
  assumes "0 \<le> m" and "m < n" and "length (fmt_d m) = length (fmt_d n)"
  shows "snapshot_name m < snapshot_name n"
  using assms nat_digits_less [of "nat m" "nat n"]
  by (simp add: snapshot_name_def fmt_d_def less_append_same_length)

subsection \<open>The snapshot to restore\<close>

text \<open>No file of the list is younger than \<open>m\<close>.\<close>

definition none_after :: "(string \<Rightarrow> int option) \<Rightarrow> string list \<Rightarrow> int \<Rightarrow> bool" where
  "none_after stat fs m = list_all (\<lambda>q. case stat q of None \<Rightarrow> True | Some n \<Rightarrow> n \<le> m) fs"

lemma none_after_simps [simp]:
  "none_after stat [] m"
  "none_after stat (f # fs) m \<longleftrightarrow>
     (case stat f of None \<Rightarrow> True | Some n \<Rightarrow> n \<le> m) \<and> none_after stat fs m"
  by (simp_all add: none_after_def)

lemma none_after_iff:
  "none_after stat fs m \<longleftrightarrow> (\<forall>q \<in> set fs. \<forall>n. stat q = Some n \<longrightarrow> n \<le> m)"
  by (auto simp: none_after_def list_all_iff split: option.split)

definition newest :: "(string \<Rightarrow> int option) \<Rightarrow> string list \<Rightarrow> string \<Rightarrow> int \<Rightarrow> bool" where
  "newest stat fs p m \<longleftrightarrow> p \<in> set fs \<and> stat p = Some m \<and> none_after stat fs m"

lemma latest_loop_newest:
  assumes "latest \<noteq> []" and "[] \<notin> set fs"
  shows "latest_loop stat fs latest t = latest \<and> none_after stat fs t \<or>
    (\<exists>m > t. newest stat fs (latest_loop stat fs latest t) m)"
  using assms
proof (induction fs arbitrary: latest t)
  case (Cons f fs)
  have ne: "f \<noteq> []" "[] \<notin> set fs" using Cons.prems(2) by auto
  show ?case
  proof (cases "stat f")
    case None
    then show ?thesis using Cons.IH [OF Cons.prems(1) ne(2), of t]
      by (auto simp: newest_def)
  next
    case (Some n)
    show ?thesis
    proof (cases "t < n")
      case True
      have step: "latest_loop stat (f # fs) latest t = latest_loop stat fs f n"
        using Some True by simp
      from Cons.IH [OF ne, of n] show ?thesis
      proof (elim disjE conjE exE)
        assume "latest_loop stat fs f n = f" "none_after stat fs n"
        then have "newest stat (f # fs) (latest_loop stat fs f n) n"
          using Some by (simp add: newest_def)
        then show ?thesis unfolding step using True by blast
      next
        fix m
        assume "n < m" "newest stat fs (latest_loop stat fs f n) m"
        then have "newest stat (f # fs) (latest_loop stat fs f n) m" "t < m"
          using Some True by (simp_all add: newest_def)
        then show ?thesis unfolding step by blast
      qed
    next
      case False
      then show ?thesis using Cons.IH [OF Cons.prems(1) ne(2), of t] Some Cons.prems(1)
        by (auto simp: newest_def)
    qed
  qed
qed simp

lemma latest_loop_start:
  assumes "[] \<notin> set fs"
  shows "latest_loop stat fs [] t = [] \<and> list_all (\<lambda>q. stat q = None) fs \<or>
    (\<exists>m. newest stat fs (latest_loop stat fs [] t) m)"
  using assms
proof (induction fs)
  case (Cons f fs)
  show ?case
  proof (cases "stat f")
    case None
    then show ?thesis using Cons by (auto simp: newest_def)
  next
    case (Some m)
    then have step: "latest_loop stat (f # fs) [] t = latest_loop stat fs f m" by simp
    have "f \<noteq> []" "[] \<notin> set fs" using Cons.prems by auto
    from latest_loop_newest [OF this, of stat m] Some show ?thesis
      unfolding step by (auto simp: newest_def)
  qed
qed simp

text \<open>
  \<^verbatim>\<open>FindLatestSnapshot\<close> on the snapshot files of a directory returns one that can be
  examined and is at least as recent as every other, and an error exactly when none can be
  examined.
\<close>

theorem find_latest_newest:
  "case FindLatestSnapshot stat (Inr (glob_snapshots d)) of
     (p, None) \<Rightarrow> p \<in> set (glob_snapshots d) \<and> (\<exists>m. stat p = Some m \<and>
       (\<forall>q \<in> set (glob_snapshots d). \<forall>n. stat q = Some n \<longrightarrow> n \<le> m))
   | (p, Some e) \<Rightarrow> \<forall>q \<in> set (glob_snapshots d). stat q = None"
proof -
  let ?fs = "glob_snapshots d"
  have ne: "[] \<notin> set ?fs" by (auto simp: glob_snapshots_def is_snapshot_name_def)
  show ?thesis
  proof (cases "?fs = []")
    case False
    from latest_loop_start [OF ne, of stat 0] show ?thesis
    proof (elim disjE conjE exE)
      fix m
      assume n: "newest stat ?fs (latest_loop stat ?fs [] 0) m"
      then have "latest_loop stat ?fs [] 0 \<noteq> []" using ne by (auto simp: newest_def)
      then show ?thesis using n False
        by (auto simp: FindLatestSnapshot_def newest_def none_after_iff)
    qed (simp add: FindLatestSnapshot_def list_all_iff)
  qed (simp add: FindLatestSnapshot_def)
qed

subsection \<open>Witnesses\<close>

text \<open>A cache of one shard and two slots with one entry, and a codec for that entry.\<close>

definition one_shard_cache :: l0_cache where
  "one_shard_cache =
     \<lparr>l0_shards = [new_shard 2], l0_shardCount = 1, l0_maxMemory = 1048576, l0_maxPayload = 100,
      l0_weightedUnit = 4096, l0_snapshotPath = ''snap'', l0_snapshotInt = 0,
      l0_enableSnapshot = True, l0_stats = zero_l0_stats, l0_closed = False,
      l0_snapshotting = False, l0_cancelled = False\<rparr>"

definition demo_entry :: cache_entry where
  "demo_entry = NewCacheEntry \<lparr>tm_wall = 0, tm_mono = None\<rparr> ''a'' [7] 5"

definition demo_cache :: l0_cache where
  "demo_cache = one_shard_cache\<lparr>l0_shards := [(new_shard 2)\<lparr>sh_entries := [(''a'', demo_entry)]\<rparr>]\<rparr>"

definition demo_env :: snap_env where
  "demo_env =
     \<lparr>se_stamp = 1000, se_now = \<lparr>tm_wall = 0, tm_mono = None\<rparr>, se_mtime = 3,
      se_iter = sh_entries, se_marshal_header = (\<lambda>h. Inr [1]),
      se_marshal_entry = (\<lambda>e. Inr [42]), se_mkdir = None, se_create = None,
      se_write = (\<lambda>n. None), se_sync = None, se_close = None, se_rename = None, se_glob = None\<rparr>"

definition demo_unm :: "bytes \<Rightarrow> go_error + cache_entry" where
  "demo_unm bs = (if bs = [42] then Inr demo_entry else Inl (Errorf ''bad'' None))"

definition demo_unmh :: "bytes \<Rightarrow> snapshot_header \<Rightarrow> snapshot_header \<times> go_error option" where
  "demo_unmh bs h = (h, None)"

lemma demo_header: "se_marshal_header demo_env (make_header demo_env demo_cache) = Inr [1]"
  by (simp add: demo_env_def)

lemma demo_entries: "snapshot_entries demo_env demo_cache = [(''a'', demo_entry)]"
  by (simp add: snapshot_entries_def demo_env_def demo_cache_def one_shard_cache_def)

lemma demo_marshal: "se_marshal_entry demo_env e = Inr [42]"
  by (simp add: demo_env_def)

lemma demo_encodable: "encodable demo_env demo_cache"
  by (simp add: encodable_def demo_header demo_entries demo_marshal)

lemma demo_unmh: "demo_unmh [1] zero_header = (zero_header, None)"
  by (simp add: demo_unmh_def)

theorem snapshot_header_roundtrip_witness:
  "ReadSnapshot demo_unmh (Inr (snapshot_bytes demo_env demo_cache)) = (zero_header, None)"
  using snapshot_header_roundtrip [of demo_env demo_cache "[1]" demo_unmh zero_header]
    demo_encodable demo_header demo_unmh by blast

lemma one_shard_inv: "cache_inv one_shard_cache"
  using new_shard_inv [of 2]
  by (simp add: cache_inv_def one_shard_cache_def) (simp add: new_shard_def)

lemma one_shard_set:
  "\<exists>c1. L0_Set now ''a'' [7] 5 one_shard_cache = Some (c1, None) \<and> l0_stored c1 ''a'' = Some [7]"
proof -
  have "\<not> l0_closed one_shard_cache" "l0_maxPayload one_shard_cache = 100"
    by (simp_all add: one_shard_cache_def)
  then obtain c1 where c1: "L0_Set now ''a'' [7] 5 one_shard_cache = Some (c1, None)"
    by (cases rule: L0_Set_cases [OF one_shard_inv, of now "''a''" "[7]" 5]) auto
  with l0_set_done [OF one_shard_inv c1] show ?thesis by auto
qed

theorem restore_written_snapshot_witness:
  "\<exists>c1 err. RestoreFromSnapshot demo_unmh demo_unm (\<lambda>n. \<lparr>tm_wall = 9, tm_mono = None\<rparr>)
      (Inr (snapshot_bytes demo_env demo_cache)) one_shard_cache = Some (c1, Some err) \<and>
    l0_stored c1 ''a'' = Some [7]"
proof -
  let ?clk = "\<lambda>n. \<lparr>tm_wall = 9, tm_mono = None\<rparr>"
  have dec: "list_all (decodes demo_env demo_unm) (snapshot_entries demo_env demo_cache)"
    by (simp add: demo_entries decodes_def demo_marshal demo_unm_def)
  obtain c1 where c1: "L0_Set \<lparr>tm_wall = 9, tm_mono = None\<rparr> ''a'' [7] 5 one_shard_cache = Some (c1, None)"
      "l0_stored c1 ''a'' = Some [7]"
    using one_shard_set by blast
  then have sets: "restore_sets ?clk 0 (snapshot_entries demo_env demo_cache) one_shard_cache = Some c1"
    by (simp add: demo_entries demo_entry_def)
  have "demo_unm [] = Inl (Errorf ''bad'' None)" "\<not> l0_closed one_shard_cache"
    by (simp_all add: demo_unm_def one_shard_cache_def)
  then show ?thesis
    using restore_written_snapshot [of demo_env demo_cache "[1]" demo_unmh zero_header demo_unm _
        one_shard_cache ?clk c1] demo_encodable demo_header demo_unmh dec sets c1(2) by blast
qed

lemma run_calls_ok:
  "(\<And>k. se_write env k = None) \<Longrightarrow> list_all is_WPut cs \<Longrightarrow> snd (run_calls env tmp n cs) = None"
  by (induction env tmp n cs rule: run_calls.induct) (auto split: prod.split)

lemma encodable_calls: "encodable env c \<Longrightarrow> list_all is_WPut (snapshot_calls env c)"
  by (auto simp: encodable_def snapshot_calls_def list_all_iff split: sum.splits prod.splits)

lemma WriteSnapshot_ok:
  assumes "\<not> l0_snapshotting c" and "encodable env c" and "\<And>k. se_write env k = None"
    and "se_mkdir env = None" "se_create env = None" "se_sync env = None" "se_close env = None"
      "se_rename env = None"
  shows "\<exists>ops. WriteSnapshot env c d = (c, ops, None)"
proof -
  let ?tmp = "snapshot_name (se_stamp env) @ ''.tmp''"
  obtain wops where "run_calls env ?tmp 0 (snapshot_calls env c) = (wops, None)"
    using run_calls_ok [OF assms(3) encodable_calls [OF assms(2)], of ?tmp 0]
    by (metis prod.collapse)
  then show ?thesis using assms
    by (simp add: WriteSnapshot_def write_snapshot_file_def Let_def)
qed

lemma demo_write: "\<exists>ops. WriteSnapshot demo_env demo_cache d = (demo_cache, ops, None)"
  by (rule WriteSnapshot_ok [OF _ demo_encodable])
    (simp_all add: demo_cache_def one_shard_cache_def demo_env_def)

theorem snapshot_write_atomic_witness:
  "\<exists>ops. WriteSnapshot demo_env demo_cache [] = (demo_cache, ops, None) \<and>
     (\<forall>f. map_of (fs_run 3 (take 2 ops) []) ''snapshot_1000.snap'' = Some f \<longrightarrow>
        fi_data f = snapshot_bytes demo_env demo_cache)"
proof -
  obtain ops where w: "WriteSnapshot demo_env demo_cache [] = (demo_cache, ops, None)"
    using demo_write by blast
  have "is_snapshot_name ''snapshot_1000.snap''" "se_mtime demo_env = 3"
    by (simp_all add: is_snapshot_name_def demo_env_def suffix_def)
  then show ?thesis
    using snapshot_write_atomic [OF w, of 2 "''snapshot_1000.snap''"] w by auto
qed

theorem snapshot_commit_witness:
  "\<exists>ops. WriteSnapshot demo_env demo_cache [] = (demo_cache, ops, None) \<and>
     map_of (fs_run 3 ops []) (snapshot_name 1000) =
       Some \<lparr>fi_data = snapshot_bytes demo_env demo_cache, fi_mtime = 3\<rparr>"
proof -
  obtain ops where w: "WriteSnapshot demo_env demo_cache [] = (demo_cache, ops, None)"
    using demo_write by blast
  have "\<not> l0_snapshotting demo_cache" "se_glob demo_env = None" "se_mtime demo_env = 3"
    "se_stamp demo_env = 1000"
    by (simp_all add: demo_cache_def one_shard_cache_def demo_env_def)
  then show ?thesis
    using snapshot_commit [of "[]" demo_cache demo_env demo_cache ops] w
    by (auto simp: glob_snapshots_def)
qed

theorem find_latest_newest_witness:
  "FindLatestSnapshot (\<lambda>p. Some 1)
     (Inr (glob_snapshots [(''snapshot_1000.snap'', \<lparr>fi_data = [], fi_mtime = 1\<rparr>)])) =
   (''snapshot_1000.snap'', None)"
proof -
  let ?d = "[(''snapshot_1000.snap'', \<lparr>fi_data = [], fi_mtime = 1\<rparr>)]"
  have "glob_snapshots ?d = [''snapshot_1000.snap'']"
    by (simp add: glob_snapshots_def is_snapshot_name_def suffix_def)
  with find_latest_newest [where stat = "\<lambda>p. Some 1" and d = ?d] show ?thesis
    by (cases "FindLatestSnapshot (\<lambda>p. Some 1) (Inr (glob_snapshots ?d))")
      (auto split: option.splits)
qed

end
