(* ===== verification/WAL.thy ===== *)
theory WAL
  imports Consts Errors
begin

text \<open>
  The write-ahead log and its manager (\<^verbatim>\<open>pkg/replay/recovery.go\<close>): entries, their framing and
  checksum, the scan of a log file, writing and checkpoints. JSON encoding and decoding, the
  calendar text of a time and the outcome of each system call are parameters. The concurrent
  part of \<^verbatim>\<open>Recover\<close> is in the theory \<^verbatim>\<open>Recovery\<close>.
\<close>

subsection \<open>Entries\<close>

text \<open>An \<^verbatim>\<open>Operation\<close> is an integer, and a decoded entry may hold any.\<close>

type_synonym wal_operation = int

definition OpSet :: wal_operation where "OpSet = 0"
definition OpDelete :: wal_operation where "OpDelete = 1"
definition OpPromote :: wal_operation where "OpPromote = 2"
definition OpDemote :: wal_operation where "OpDemote = 3"

record wal_entry =
  we_Sequence :: u64
  we_Timestamp :: go_time
  we_Operation :: wal_operation
  we_Key :: string
  we_Value :: bytes
  we_Metadata :: "(string \<times> string) list option"
  we_Tier :: int
  we_Checksum :: u64

definition WALHeaderSize :: nat where "WALHeaderSize = 8"
definition MaxWALEntrySize :: nat where "MaxWALEntrySize = 1024 * 1024"
definition WALEntryChannelBuffer :: nat where "WALEntryChannelBuffer = 100"
definition ErrorChannelBuffer :: nat where "ErrorChannelBuffer = 10"

subsection \<open>Framing and checksum\<close>

definition encodeEntry :: "(wal_entry \<Rightarrow> go_error + bytes) \<Rightarrow> wal_entry \<Rightarrow> go_error + bytes" where
  "encodeEntry marshal e =
     (case marshal e of Inl err \<Rightarrow> Inl err
      | Inr data \<Rightarrow> Inr (be_enc 8 (length data) @ data))"

definition decodeEntry :: "(bytes \<Rightarrow> go_error + wal_entry) \<Rightarrow> bytes \<Rightarrow> go_error + wal_entry" where
  "decodeEntry unm data = (case unm data of Inl err \<Rightarrow> Inl err | Inr e \<Rightarrow> Inr e)"

text \<open>
  \<^verbatim>\<open>Time.String\<close>: the calendar text of the wall clock (\<open>wt\<close>, a parameter), then for a time with
  a monotonic reading its seconds and nine digits of nanoseconds.
\<close>

fun pad_zeros :: "nat \<Rightarrow> string \<Rightarrow> string" where
  "pad_zeros n s = replicate (n - length s) CHR ''0'' @ s"

fun mono_text :: "int option \<Rightarrow> string" where
  "mono_text None = []"
| "mono_text (Some m) =
     '' m='' @ (if m < 0 then ''-'' else ''+'') @ nat_digits (nat \<bar>m\<bar> div 1000000000) @ ''.'' @
     pad_zeros 9 (nat_digits (nat \<bar>m\<bar> mod 1000000000))"

definition time_String :: "(int \<Rightarrow> string) \<Rightarrow> go_time \<Rightarrow> string" where
  "time_String wt t = wt (tm_wall t) @ mono_text (tm_mono t)"

definition computeChecksum :: "(int \<Rightarrow> string) \<Rightarrow> wal_entry \<Rightarrow> u64" where
  "computeChecksum wt e =
     fnv64a (be_enc 8 (unat (we_Sequence e)) @ bytes_of (we_Key e) @ we_Value e @
       bytes_of (time_String wt (we_Timestamp e)) @ be_enc 8 (nat (we_Operation e mod 2 ^ 64)))"

definition verifyChecksum :: "(int \<Rightarrow> string) \<Rightarrow> wal_entry \<Rightarrow> bool" where
  "verifyChecksum wt e \<longleftrightarrow> we_Checksum e = computeChecksum wt e"

subsection \<open>The scan of a log file\<close>

text \<open>
  One \<^verbatim>\<open>file.Read\<close> into a buffer of \<open>req\<close> bytes with \<open>av\<close> bytes left in the file: the
  environment \<open>rd\<close> says how many bytes it delivers and which error it returns.
  \<open>disk_read\<close> is a healthy disk file.
\<close>

type_synonym reader = "nat \<Rightarrow> nat \<Rightarrow> nat \<times> go_error option"

definition read_EOF :: go_error where "read_EOF = Errorf ''EOF'' None"

definition file_read :: "reader \<Rightarrow> nat \<Rightarrow> bytes \<Rightarrow> nat \<times> go_error option" where
  "file_read rd req bs =
     (case rd req (length bs) of (n, err) \<Rightarrow> (min n (min req (length bs)), err))"

definition disk_read :: reader where
  "disk_read req av =
     (if req = 0 then (0, None) else if av = 0 then (0, Some read_EOF) else (min req av, None))"

record wal_scan =
  sc_entries :: "wal_entry list"
  sc_corruptedSize :: u64
  sc_skippedEntries :: u64

definition skip_corrupt :: "nat \<Rightarrow> wal_scan \<Rightarrow> wal_scan" where
  "skip_corrupt n s =
     s\<lparr>sc_corruptedSize := sc_corruptedSize s + of_nat n,
       sc_skippedEntries := sc_skippedEntries s + 1\<rparr>"

lemma file_read_length: "file_read rd req bs = (n, err) \<Longrightarrow> n \<le> req \<and> n \<le> length bs"
  by (auto simp: file_read_def split: prod.splits)

text \<open>
  The loop of \<^verbatim>\<open>replayWAL\<close>; \<open>ctx i\<close> is the state of the context at iteration \<open>i\<close>. Every
  iteration that goes on has consumed a header, so the unread rest gets shorter.
\<close>

function replay_loop ::
    "reader \<Rightarrow> (bytes \<Rightarrow> go_error + wal_entry) \<Rightarrow> (int \<Rightarrow> string) \<Rightarrow> (nat \<Rightarrow> go_error option) \<Rightarrow>
     u64 \<Rightarrow> nat \<Rightarrow> bytes \<Rightarrow> wal_scan \<Rightarrow> wal_scan \<times> go_error option" where
  "replay_loop rd unm wt ctx ckpt i bs s =
     (case ctx i of
        Some e \<Rightarrow> (s, Some e)
      | None \<Rightarrow>
     (case file_read rd WALHeaderSize bs of (hn, herr) \<Rightarrow>
      if herr = Some read_EOF then (s, None)
      else if hn < WALHeaderSize then (s, None)
      else
        let size = be_dec (take WALHeaderSize bs); bs1 = drop WALHeaderSize bs in
        if MaxWALEntrySize < size then (skip_corrupt WALHeaderSize s, None)
        else
     (case file_read rd size bs1 of (n, err) \<Rightarrow>
        let buf = take n bs1; bs2 = drop n bs1 in
        if err = Some read_EOF then (s, None)
        else if err \<noteq> None then
          replay_loop rd unm wt ctx ckpt (Suc i) bs2 (skip_corrupt (n + WALHeaderSize) s)
        else if n < size then (skip_corrupt (n + WALHeaderSize) s, None)
        else
     (case decodeEntry unm buf of
        Inl e \<Rightarrow> replay_loop rd unm wt ctx ckpt (Suc i) bs2 (skip_corrupt (size + WALHeaderSize) s)
      | Inr entry \<Rightarrow>
          if we_Sequence entry \<le> ckpt then replay_loop rd unm wt ctx ckpt (Suc i) bs2 s
          else if \<not> verifyChecksum wt entry then
            replay_loop rd unm wt ctx ckpt (Suc i) bs2 (skip_corrupt (size + WALHeaderSize) s)
          else
            replay_loop rd unm wt ctx ckpt (Suc i) bs2
              (s\<lparr>sc_entries := sc_entries s @ [entry]\<rparr>)))))"
  by pat_completeness auto

termination
  by (relation "measure (\<lambda>(rd, unm, wt, ctx, ckpt, i, bs, s). length bs)")
    (auto simp: WALHeaderSize_def dest!: file_read_length [OF sym])

declare replay_loop.simps [simp del]

subsection \<open>The manager\<close>

record recovery_manager =
  rm_walPath :: string
  rm_checkpointPath :: string
  rm_maxWorkers :: int
  rm_sequence :: u64
  rm_closed :: bool
  rm_skippedEntries :: u64
  rm_corruptedSize :: u64
  rm_lastCheckpoint :: u64
  rm_lastCheckpointTime :: "go_time option"
  rm_checkpointInterval :: int
  rm_cancelled :: bool

text \<open>
  The disk: the log file, if there is one, and the files of the checkpoint directory (\<^verbatim>\<open>None\<close>
  when the directory does not exist), a directory entry being a subdirectory or a file.
\<close>

datatype dir_entry = DirSub | DirFile bytes

record wal_disk =
  wd_wal :: "bytes option"
  wd_checkpoints :: "(string \<times> dir_entry) list option"

record checkpoint =
  cp_Sequence :: u64
  cp_Timestamp :: go_time
  cp_WALPath :: string

text \<open>The outcome of the three system calls of the constructor.\<close>

record new_env =
  ne_mkdir_wal :: "go_error option"
  ne_mkdir_checkpoint :: "go_error option"
  ne_open :: "go_error option"

text \<open>
  \<^verbatim>\<open>initWAL\<close> opens the log for appending, creating it if need be; over a log that is not empty the
  sequence is set to 0 (without the scan that the comment announces).
\<close>

definition initWAL ::
    "new_env \<Rightarrow> recovery_manager \<Rightarrow> wal_disk \<Rightarrow> wal_disk \<times> (go_error + recovery_manager)" where
  [simp]: "initWAL env m d =
     (case ne_open env of
        Some e \<Rightarrow> (d, Inl (Errorf ''failed to open WAL file: '' (Some e)))
      | None \<Rightarrow>
          let log = (case wd_wal d of None \<Rightarrow> [] | Some bs \<Rightarrow> bs)
          in (d\<lparr>wd_wal := Some log\<rparr>, Inr (if log \<noteq> [] then m\<lparr>rm_sequence := 0\<rparr> else m)))"

definition NewRecoveryManager ::
    "new_env \<Rightarrow> string \<Rightarrow> string \<Rightarrow> int \<Rightarrow> int \<Rightarrow> wal_disk \<Rightarrow>
     wal_disk \<times> (go_error + recovery_manager)" where
  "NewRecoveryManager env walPath checkpointPath maxWorkers0 checkpointInterval0 d =
     (if walPath = [] then (d, Inl (Errorf ''wal_path cannot be empty'' None))
      else
        let maxWorkers = (if maxWorkers0 \<le> 0 then DefaultMaxReplayWorkers else maxWorkers0);
            checkpointInterval =
              (if checkpointInterval0 \<le> 0 then DefaultCheckpointInterval else checkpointInterval0)
        in (case ne_mkdir_wal env of
              Some e \<Rightarrow> (d, Inl (Errorf ''failed to create wal directory: '' (Some e)))
            | None \<Rightarrow>
           (case (if checkpointPath = [] then None else ne_mkdir_checkpoint env) of
              Some e \<Rightarrow> (d, Inl (Errorf ''failed to create checkpoint directory: '' (Some e)))
            | None \<Rightarrow>
           let d1 = (if checkpointPath = [] then d
                     else d\<lparr>wd_checkpoints :=
                       Some (case wd_checkpoints d of None \<Rightarrow> [] | Some fs \<Rightarrow> fs)\<rparr>)
           in (case initWAL env
                 \<lparr>rm_walPath = walPath, rm_checkpointPath = checkpointPath,
                  rm_maxWorkers = maxWorkers, rm_sequence = 0, rm_closed = False,
                  rm_skippedEntries = 0, rm_corruptedSize = 0, rm_lastCheckpoint = 0,
                  rm_lastCheckpointTime = None,
                  rm_checkpointInterval = checkpointInterval, rm_cancelled = False\<rparr> d1 of
              (d2, Inl e) \<Rightarrow> (d2, Inl (Errorf ''failed to initialize WAL: '' (Some e)))
            | (d2, Inr m) \<Rightarrow> (d2, Inr m)))))"

text \<open>
  \<^verbatim>\<open>Write\<close>: the result says whether it starts a checkpoint goroutine. A failing write may have
  appended a prefix of the frame; the environment gives the error and how much was written.
\<close>

record write_env =
  wv_now :: go_time
  wv_marshal :: "wal_entry \<Rightarrow> go_error + bytes"
  wv_write :: "(go_error \<times> nat) option"

definition append_wal :: "bytes \<Rightarrow> wal_disk \<Rightarrow> wal_disk" where
  "append_wal bs d = d\<lparr>wd_wal := Some ((case wd_wal d of None \<Rightarrow> [] | Some old \<Rightarrow> old) @ bs)\<rparr>"

definition stamp_entry :: "(int \<Rightarrow> string) \<Rightarrow> go_time \<Rightarrow> u64 \<Rightarrow> wal_entry \<Rightarrow> wal_entry" where
  "stamp_entry wt now seq entry =
     (let e1 = entry\<lparr>we_Sequence := seq, we_Timestamp := now\<rparr>
      in e1\<lparr>we_Checksum := computeChecksum wt e1\<rparr>)"

definition WAL_Write ::
    "(int \<Rightarrow> string) \<Rightarrow> write_env \<Rightarrow> wal_entry \<Rightarrow> recovery_manager \<Rightarrow> wal_disk \<Rightarrow>
     recovery_manager \<times> wal_disk \<times> wal_entry \<times> bool \<times> go_error option" where
  "WAL_Write wt env entry m d =
     (if rm_closed m then (m, d, entry, False, Some (Errorf ''recovery manager is closed'' None))
      else
        let m1 = m\<lparr>rm_sequence := rm_sequence m + 1\<rparr>;
            e1 = stamp_entry wt (wv_now env) (rm_sequence m1) entry
        in (case encodeEntry (wv_marshal env) e1 of
              Inl err \<Rightarrow> (m1, d, e1, False, Some (Errorf ''failed to encode entry: '' (Some err)))
            | Inr data \<Rightarrow>
           (case wv_write env of
              Some (err, n) \<Rightarrow>
                (m1, append_wal (take n data) d, e1, False,
                 Some (Errorf ''failed to write WAL: '' (Some err)))
            | None \<Rightarrow>
                (m1, append_wal data d, e1,
                 rm_sequence m1 mod of_int (rm_checkpointInterval m1) = 0, None))))"

definition checkpoint_file :: "u64 \<Rightarrow> string" where
  "checkpoint_file seq = ''checkpoint_'' @ nat_digits (unat seq) @ ''.json''"

text \<open>
  The checkpoint goroutine, which runs at some time after the write that starts it; \<open>w\<close> is the
  outcome of writing the file (a failing write may leave a prefix of it).
\<close>

definition take_checkpoint ::
    "(checkpoint \<Rightarrow> go_error + bytes) \<Rightarrow> (go_error \<times> nat) option \<Rightarrow> go_time \<Rightarrow> go_time \<Rightarrow>
     recovery_manager \<Rightarrow> wal_disk \<Rightarrow> recovery_manager \<times> wal_disk \<times> go_error option" where
  "take_checkpoint marshal w now later m d =
     (if rm_checkpointPath m = [] then (m, d, None)
      else
        let seq = rm_sequence m in
        (case marshal \<lparr>cp_Sequence = seq, cp_Timestamp = now, cp_WALPath = rm_walPath m\<rparr> of
           Inl err \<Rightarrow> (m, d, Some (Errorf ''failed to marshal checkpoint: '' (Some err)))
         | Inr data \<Rightarrow>
             let put = (\<lambda>bs. d\<lparr>wd_checkpoints := map_option
                   (AList.update (checkpoint_file seq) (DirFile bs)) (wd_checkpoints d)\<rparr>)
             in (case w of
                   Some (err, n) \<Rightarrow>
                     (m, put (take n data), Some (Errorf ''failed to write checkpoint: '' (Some err)))
                 | None \<Rightarrow>
                     (m\<lparr>rm_lastCheckpoint := seq, rm_lastCheckpointTime := Some later\<rparr>,
                      put data, None))))"

text \<open>
  \<open>unr\<close> lists the files that cannot be read, \<open>unm\<close> is \<^verbatim>\<open>json.Unmarshal\<close> into a checkpoint and
  \<open>dirErr\<close> an error of reading the directory other than its absence.
\<close>

fun latest_checkpoint ::
    "(string \<Rightarrow> bool) \<Rightarrow> (bytes \<Rightarrow> go_error + checkpoint) \<Rightarrow> (string \<times> dir_entry) list \<Rightarrow>
     u64 \<Rightarrow> u64" where
  "latest_checkpoint unr unm [] latest = latest"
| "latest_checkpoint unr unm ((name, DirSub) # fs) latest = latest_checkpoint unr unm fs latest"
| "latest_checkpoint unr unm ((name, DirFile data) # fs) latest =
     (if unr name then latest_checkpoint unr unm fs latest
      else (case unm data of
              Inl err \<Rightarrow> latest_checkpoint unr unm fs latest
            | Inr cp \<Rightarrow> latest_checkpoint unr unm fs
                (if latest < cp_Sequence cp then cp_Sequence cp else latest)))"

definition findLatestCheckpoint ::
    "(string \<Rightarrow> bool) \<Rightarrow> (bytes \<Rightarrow> go_error + checkpoint) \<Rightarrow> go_error option \<Rightarrow>
     recovery_manager \<Rightarrow> wal_disk \<Rightarrow> go_error + u64" where
  "findLatestCheckpoint unr unm dirErr m d =
     (if rm_checkpointPath m = [] then Inr 0
      else (case wd_checkpoints d of
              None \<Rightarrow> Inr 0
            | Some fs \<Rightarrow>
                (case dirErr of
                   Some e \<Rightarrow> Inl (Errorf ''failed to read checkpoint directory: '' (Some e))
                 | None \<Rightarrow> Inr (latest_checkpoint unr unm fs 0))))"

definition replayWAL ::
    "reader \<Rightarrow> (bytes \<Rightarrow> go_error + wal_entry) \<Rightarrow> (int \<Rightarrow> string) \<Rightarrow> (nat \<Rightarrow> go_error option) \<Rightarrow>
     go_error option \<Rightarrow> u64 \<Rightarrow> recovery_manager \<Rightarrow> wal_disk \<Rightarrow>
     recovery_manager \<times> wal_entry list \<times> go_error option" where
  "replayWAL rd unm wt ctx openErr ckpt m d =
     (case wd_wal d of
        None \<Rightarrow> (m, [], None)
      | Some bs \<Rightarrow>
          (case openErr of
             Some e \<Rightarrow> (m, [], Some (Errorf ''failed to open WAL: '' (Some e)))
           | None \<Rightarrow>
               (case replay_loop rd unm wt ctx ckpt 0 bs
                   \<lparr>sc_entries = [], sc_corruptedSize = rm_corruptedSize m,
                    sc_skippedEntries = rm_skippedEntries m\<rparr> of
                  (s, err) \<Rightarrow>
                    (m\<lparr>rm_corruptedSize := sc_corruptedSize s,
                       rm_skippedEntries := sc_skippedEntries s\<rparr>, sc_entries s, err))))"

definition WAL_Close ::
    "go_error option \<Rightarrow> go_error option \<Rightarrow> recovery_manager \<Rightarrow> recovery_manager \<times> go_error option"
  where
  "WAL_Close sync cl m =
     (if rm_closed m then (m, None)
      else
        let m1 = m\<lparr>rm_closed := True, rm_cancelled := True\<rparr>
        in (case sync of
              Some e \<Rightarrow> (m1, Some (Errorf ''failed to sync WAL: '' (Some e)))
            | None \<Rightarrow>
                (case cl of
                   Some e \<Rightarrow> (m1, Some (Errorf ''failed to close WAL: '' (Some e)))
                 | None \<Rightarrow> (m1, None))))"

text \<open>
  \<^verbatim>\<open>WALReader.ReadEntry\<close>: one framed entry, with no check of its size or of how much was read.
  \<open>old\<close> is the memory behind the reader's buffer, which is reused (with what it holds) when it is
  large enough; the result carries the buffer and the unread rest of the file.
\<close>

definition ReadEntry ::
    "reader \<Rightarrow> (bytes \<Rightarrow> go_error + wal_entry) \<Rightarrow> bytes \<Rightarrow> bytes \<Rightarrow>
     (go_error + wal_entry) \<times> bytes \<times> bytes" where
  "ReadEntry rd unm old bs =
     (case file_read rd WALHeaderSize bs of
        (n, Some err) \<Rightarrow> (Inl err, old, drop n bs)
      | (n, None) \<Rightarrow>
          let size = be_dec (take n bs @ replicate (WALHeaderSize - n) 0);
              bs1 = drop n bs;
              buffer = (if length old < size then replicate size 0 else old)
          in (case file_read rd size bs1 of
                (k, err) \<Rightarrow>
                  let buffer1 = take k bs1 @ drop k buffer in
                  (case err of
                     Some e \<Rightarrow> (Inl e, buffer1, drop k bs1)
                   | None \<Rightarrow> (decodeEntry unm (take size buffer1), buffer1, drop k bs1))))"

end
