(* ===== verification/WAL_Props.thy ===== *)
theory WAL_Props
  imports WAL
begin

text \<open>
  Properties of the write-ahead log: which entries a scan recovers from any sequence of frames
  with a torn tail, the round trip of written entries, what the checksum detects, the checkpoint
  that is chosen, and three defects: an entry above the size limit hides everything after it, and
  the checksum covers the monotonic clock reading, which no encoding keeps.
\<close>

subsection \<open>One frame\<close>

definition frame :: "bytes \<Rightarrow> bytes" where
  "frame data = be_enc 8 (length data) @ data"

definition frames :: "bytes list \<Rightarrow> bytes" where
  "frames ds = concat (map frame ds)"

lemma frames_simps [simp]: "frames [] = []" "frames (d # ds) = frame d @ frames ds"
  "frames (ds1 @ ds2) = frames ds1 @ frames ds2"
  by (simp_all add: frames_def)

lemma encodeEntry_frame: "marshal e = Inr data \<Longrightarrow> encodeEntry marshal e = Inr (frame data)"
  by (simp add: encodeEntry_def frame_def)

text \<open>What the scan makes of one complete frame.\<close>

definition frame_effect ::
    "(bytes \<Rightarrow> go_error + wal_entry) \<Rightarrow> (int \<Rightarrow> string) \<Rightarrow> u64 \<Rightarrow> bytes \<Rightarrow> wal_scan \<Rightarrow> wal_scan" where
  "frame_effect unm wt ckpt data s =
     (case unm data of
        Inl e \<Rightarrow> skip_corrupt (length data + 8) s
      | Inr entry \<Rightarrow>
          if we_Sequence entry \<le> ckpt then s
          else if \<not> verifyChecksum wt entry then skip_corrupt (length data + 8) s
          else s\<lparr>sc_entries := sc_entries s @ [entry]\<rparr>)"

definition accepted ::
    "(bytes \<Rightarrow> go_error + wal_entry) \<Rightarrow> (int \<Rightarrow> string) \<Rightarrow> u64 \<Rightarrow> bytes \<Rightarrow> wal_entry option" where
  "accepted unm wt ckpt data =
     (case unm data of Inl e \<Rightarrow> None
      | Inr entry \<Rightarrow> if ckpt < we_Sequence entry \<and> verifyChecksum wt entry then Some entry else None)"

abbreviation scan_disk ::
    "(bytes \<Rightarrow> go_error + wal_entry) \<Rightarrow> (int \<Rightarrow> string) \<Rightarrow> u64 \<Rightarrow> nat \<Rightarrow> bytes \<Rightarrow> wal_scan \<Rightarrow>
     wal_scan \<times> go_error option" where
  "scan_disk unm wt ckpt \<equiv> replay_loop disk_read unm wt (\<lambda>i. None) ckpt"

lemma sc_entries_skip [simp]: "sc_entries (skip_corrupt n s) = sc_entries s"
  by (simp add: skip_corrupt_def)

lemma frame_effect_entries:
  "sc_entries (frame_effect unm wt ckpt data s) =
     sc_entries s @ (case accepted unm wt ckpt data of None \<Rightarrow> [] | Some e \<Rightarrow> [e])"
  by (auto simp: frame_effect_def accepted_def not_le split: sum.split)

lemma frame_effects_entries:
  "sc_entries (fold (frame_effect unm wt ckpt) ds s) =
     sc_entries s @ List.map_filter (accepted unm wt ckpt) ds"
  by (induction ds arbitrary: s)
    (auto simp: frame_effect_entries map_filter_simps split: option.split)

lemma disk_header:
  assumes "8 \<le> length bs"
  shows "file_read disk_read WALHeaderSize bs = (8, None)"
  using assms by (auto simp: file_read_def disk_read_def WALHeaderSize_def)

lemma disk_body:
  assumes "n \<le> length bs"
  shows "file_read disk_read n bs = (n, None)"
  using assms by (auto simp: file_read_def disk_read_def)

lemma frame_header:
  assumes "length data < 256 ^ 8"
  shows "be_dec (take WALHeaderSize (frame data @ rest)) = length data"
    and "drop WALHeaderSize (frame data @ rest) = data @ rest"
  using assms by (simp_all add: WALHeaderSize_def frame_def be_dec_enc)

lemma max_entry_lt: "n \<le> MaxWALEntrySize \<Longrightarrow> n < 256 ^ 8"
  by (simp add: MaxWALEntrySize_def)

text \<open>One iteration on a healthy file, once there is a whole header.\<close>

lemma scan_step:
  assumes "8 \<le> length x" and "sz = be_dec (take WALHeaderSize x)" and "t = drop WALHeaderSize x"
  shows "scan_disk unm wt ckpt i x s =
    (if MaxWALEntrySize < sz then (skip_corrupt 8 s, None)
     else if length t < sz then (if t = [] then s else skip_corrupt (length t + 8) s, None)
     else scan_disk unm wt ckpt (Suc i) (drop sz t) (frame_effect unm wt ckpt (take sz t) s))"
proof -
  have w: "WALHeaderSize = 8" by (simp add: WALHeaderSize_def)
  have h: "file_read disk_read WALHeaderSize x = (8, None)" by (rule disk_header [OF assms(1)])
  have b: "file_read disk_read sz t =
      (if length t < sz then (length t, if t = [] then Some read_EOF else None) else (sz, None))"
    using disk_body [of sz t] by (auto simp: file_read_def disk_read_def)
  have dec: "decodeEntry unm data = unm data" for data
    by (simp add: decodeEntry_def split: sum.split)
  note unfold = replay_loop.simps [of disk_read unm wt "\<lambda>i. None" ckpt i x s]
  note facts = h b Let_def dec frame_effect_def assms(2,3) [symmetric] option.case prod.case
  consider "MaxWALEntrySize < sz" | "\<not> MaxWALEntrySize < sz" "length t < sz"
    | "\<not> MaxWALEntrySize < sz" "\<not> length t < sz" by blast
  then show ?thesis
  proof cases
    case 1
    then show ?thesis unfolding unfold facts by (simp add: w)
  next
    case 2
    then show ?thesis unfolding unfold facts by (simp add: w)
  next
    case 3
    then have "length (take sz t) = sz" by simp
    then show ?thesis using 3 unfolding unfold facts
      by (cases "unm (take sz t)") (auto simp: w)
  qed
qed

lemma scan_frame:
  assumes "length data \<le> MaxWALEntrySize"
  shows "scan_disk unm wt ckpt i (frame data @ rest) s =
    scan_disk unm wt ckpt (Suc i) rest (frame_effect unm wt ckpt data s)"
proof -
  note hdr = frame_header [OF max_entry_lt [OF assms], of rest]
  show ?thesis
    using assms scan_step [OF _ hdr(1) [symmetric] hdr(2) [symmetric], of unm wt ckpt i s]
    by (simp add: frame_def not_le)
qed

lemma scan_frames:
  assumes "list_all (\<lambda>d. length d \<le> MaxWALEntrySize) ds"
  shows "scan_disk unm wt ckpt i (frames ds @ rest) s =
    scan_disk unm wt ckpt (i + length ds) rest (fold (frame_effect unm wt ckpt) ds s)"
  using assms
  by (induction ds arbitrary: i s) (simp_all add: scan_frame)

subsection \<open>Torn tails\<close>

lemma scan_torn:
  assumes "length data \<le> MaxWALEntrySize" and "k < length (frame data)"
  shows "\<exists>s'. scan_disk unm wt ckpt i (take k (frame data)) s = (s', None) \<and>
    sc_entries s' = sc_entries s"
proof (cases "k < 8")
  case True
  then have "length (take k (frame data)) = k" using assms(2) by simp
  then have "file_read disk_read WALHeaderSize (take k (frame data)) =
      (k, if k = 0 then Some read_EOF else None)"
    using True by (auto simp: file_read_def disk_read_def WALHeaderSize_def)
  then show ?thesis using True
    by (subst replay_loop.simps) (simp add: WALHeaderSize_def)
next
  case False
  define t where "t = take (k - 8) data"
  define x where "x = be_enc 8 (length data) @ t"
  have bs: "take k (frame data) = x"
    using False by (simp add: frame_def t_def x_def)
  have t: "length t < length data" using assms(2) False by (auto simp: frame_def t_def)
  have d: "length data = be_dec (take WALHeaderSize x)" "t = drop WALHeaderSize x"
    using max_entry_lt [OF assms(1)] by (simp_all add: x_def WALHeaderSize_def be_dec_enc)
  have "8 \<le> length x" by (simp add: x_def)
  from scan_step [OF this d, of unm wt ckpt i s] show ?thesis
    unfolding bs using assms(1) t by simp
qed

definition empty_scan :: wal_scan where
  "empty_scan = \<lparr>sc_entries = [], sc_corruptedSize = 0, sc_skippedEntries = 0\<rparr>"

lemma scan_torn_frames:
  assumes "list_all (\<lambda>d. length d \<le> MaxWALEntrySize) ds" and "length data \<le> MaxWALEntrySize"
    and "k < length (frame data)"
  shows "\<exists>s. scan_disk unm wt ckpt 0 (frames ds @ take k (frame data)) empty_scan = (s, None) \<and>
    sc_entries s = List.map_filter (accepted unm wt ckpt) ds"
proof -
  let ?s = "fold (frame_effect unm wt ckpt) ds empty_scan"
  obtain s where "scan_disk unm wt ckpt (length ds) (take k (frame data)) ?s = (s, None)"
    "sc_entries s = sc_entries ?s"
    using scan_torn [OF assms(2,3)] by blast
  then show ?thesis
    using scan_frames [OF assms(1), of unm wt ckpt 0]
    by (simp add: frame_effects_entries empty_scan_def)
qed

lemma scan_recovers_frames:
  assumes "list_all (\<lambda>d. length d \<le> MaxWALEntrySize) ds"
  shows "\<exists>s. scan_disk unm wt ckpt 0 (frames ds @ take 0 (frame [])) empty_scan = (s, None) \<and>
    sc_entries s = List.map_filter (accepted unm wt ckpt) ds"
  by (rule scan_torn_frames [OF assms]) (simp_all add: frame_def)

text \<open>
  C15. What a scan recovers: from any sequence of frames of at most one megabyte, followed by any
  proper prefix of a frame (a torn last write), the scan ends without an error and returns, in
  file order, exactly the entries that decode, have a sequence number above the checkpoint and a
  valid checksum; a damaged entry costs only itself.
\<close>

theorem scan_recovers:
  assumes "list_all (\<lambda>d. length d \<le> MaxWALEntrySize) ds" and "length data \<le> MaxWALEntrySize"
    and "k < length (frame data)"
  shows "\<exists>s. scan_disk unm wt ckpt 0 (frames ds @ take k (frame data)) empty_scan = (s, None) \<and>
    sc_entries s = List.map_filter (accepted unm wt ckpt) ds"
  using assms by (rule scan_torn_frames)

subsection \<open>Writing\<close>

text \<open>A write that reports success: numbers, stamps and appends one frame.\<close>

lemma WAL_Write_ok:
  assumes "WAL_Write wt env entry m d = (m', d', e, b, None)"
  shows "\<exists>data. \<not> rm_closed m \<and> e = stamp_entry wt (wv_now env) (rm_sequence m + 1) entry \<and>
    wv_marshal env e = Inr data \<and> m' = m\<lparr>rm_sequence := rm_sequence m + 1\<rparr> \<and>
    d' = append_wal (frame data) d \<and>
    b = ((rm_sequence m + 1) mod of_int (rm_checkpointInterval m) = 0)"
  using assms
  by (auto simp: WAL_Write_def Let_def encodeEntry_def frame_def
      split: if_split_asm sum.splits option.splits)

lemma verify_stamp: "verifyChecksum wt (stamp_entry wt now seq e)"
  by (simp add: stamp_entry_def verifyChecksum_def computeChecksum_def Let_def)

text \<open>A sequence of writes; it stops at the first one that fails.\<close>

fun write_all ::
    "(int \<Rightarrow> string) \<Rightarrow> (write_env \<times> wal_entry) list \<Rightarrow> recovery_manager \<Rightarrow> wal_disk \<Rightarrow>
     (recovery_manager \<times> wal_disk \<times> wal_entry list) option" where
  "write_all wt [] m d = Some (m, d, [])"
| "write_all wt ((env, e) # ws) m d =
     (case WAL_Write wt env e m d of
        (m1, d1, e1, b, Some err) \<Rightarrow> None
      | (m1, d1, e1, b, None) \<Rightarrow>
          (case write_all wt ws m1 d1 of None \<Rightarrow> None
           | Some (m2, d2, es) \<Rightarrow> Some (m2, d2, e1 # es)))"

text \<open>What JSON keeps of an entry: all but the monotonic clock reading of its time stamp.\<close>

definition json_view :: "wal_entry \<Rightarrow> wal_entry" where
  "json_view e = e\<lparr>we_Timestamp := (we_Timestamp e)\<lparr>tm_mono := None\<rparr>\<rparr>"

text \<open>The encoder of a write is undone by the decoder, and keeps entries below the limit.\<close>

definition codec_ok :: "(bytes \<Rightarrow> go_error + wal_entry) \<Rightarrow> write_env \<Rightarrow> bool" where
  "codec_ok unm env \<longleftrightarrow>
     (\<forall>e data. wv_marshal env e = Inr data \<longrightarrow>
        unm data = Inr (json_view e) \<and> length data \<le> MaxWALEntrySize)"

lemma write_all_log:
  assumes "write_all wt ws m d = Some (m', d', es)" and "wd_wal d = Some bs"
    and "\<forall>(env, e) \<in> set ws. codec_ok unm env"
    and "uint (rm_sequence m) + int (length ws) < 2 ^ 64"
  shows "\<exists>ds. wd_wal d' = Some (bs @ frames ds) \<and> length ds = length es \<and>
    map unm ds = map (Inr \<circ> json_view) es \<and> list_all (\<lambda>d. length d \<le> MaxWALEntrySize) ds \<and>
    list_all (\<lambda>e. verifyChecksum wt e) es \<and>
    map we_Sequence es = map (\<lambda>i. rm_sequence m + 1 + of_nat i) [0..<length es] \<and>
    length es = length ws"
  using assms
proof (induction ws arbitrary: m d es bs)
  case (Cons w ws)
  obtain env e where w: "w = (env, e)" by force
  from Cons.prems(1) w obtain m1 d1 e1 b es1 where step: "WAL_Write wt env e m d = (m1, d1, e1, b, None)"
      "write_all wt ws m1 d1 = Some (m', d', es1)" "es = e1 # es1"
    by (auto split: prod.splits option.splits)
  from WAL_Write_ok [OF step(1)] obtain data where data: "wv_marshal env e1 = Inr data"
      "e1 = stamp_entry wt (wv_now env) (rm_sequence m + 1) e"
      "m1 = m\<lparr>rm_sequence := rm_sequence m + 1\<rparr>" "d1 = append_wal (frame data) d"
    by blast
  have unm: "unm data = Inr (json_view e1)" "length data \<le> MaxWALEntrySize"
    using Cons.prems(3) w data(1) by (auto simp: codec_ok_def)
  have wal1: "wd_wal d1 = Some (bs @ frame data)"
    using Cons.prems(2) data(4) by (simp add: append_wal_def)
  have seq1: "rm_sequence m1 = rm_sequence m + 1" using data(3) by simp
  have "uint (rm_sequence m1) = uint (rm_sequence m) + 1"
    using Cons.prems(4) by (simp add: seq1 uint_word_ariths)
  then have "uint (rm_sequence m1) + int (length ws) < 2 ^ 64" using Cons.prems(4) by simp
  moreover have "\<forall>(env, e) \<in> set ws. codec_ok unm env" using Cons.prems(3) by simp
  ultimately obtain ds where
    "wd_wal d' = Some ((bs @ frame data) @ frames ds)" "length ds = length es1"
    "map unm ds = map (Inr \<circ> json_view) es1" "list_all (\<lambda>d. length d \<le> MaxWALEntrySize) ds"
    "list_all (\<lambda>e. verifyChecksum wt e) es1"
    "map we_Sequence es1 = map (\<lambda>i. rm_sequence m1 + 1 + of_nat i) [0..<length es1]"
    "length es1 = length ws"
    using Cons.IH [OF step(2) wal1] by blast
  moreover have "map (\<lambda>i. rm_sequence m + 1 + of_nat i) [0..<length es] =
      (rm_sequence m + 1) # map (\<lambda>i. rm_sequence m1 + 1 + of_nat i) [0..<length es1]"
  proof -
    have "[0..<length es] = 0 # map Suc [0..<length es1]"
      unfolding step(3) by (simp add: map_Suc_upt upt_conv_Cons del: upt_Suc)
    then show ?thesis by (simp add: seq1 o_def add.assoc)
  qed
  moreover have "verifyChecksum wt e1" "we_Sequence e1 = rm_sequence m + 1"
    by (simp_all add: data(2) verify_stamp) (simp add: stamp_entry_def Let_def)
  ultimately show ?case
    using unm step(3) by (intro exI [of _ "data # ds"]) simp
qed simp

lemma json_view_id: "tm_mono (we_Timestamp e) = None \<Longrightarrow> json_view e = e"
  by (simp add: json_view_def)

lemma accepted_views:
  assumes "map unm ds = map (Inr \<circ> json_view) es"
  shows "List.map_filter (accepted unm wt ckpt) ds =
    filter (\<lambda>e. ckpt < we_Sequence e \<and> verifyChecksum wt e) (map json_view es)"
  using assms
proof (induction ds arbitrary: es)
  case (Cons d ds)
  then obtain e es' where "es = e # es'" by (cases es) auto
  with Cons show ?case by (simp add: map_filter_simps accepted_def json_view_def)
qed (simp add: map_filter_simps)

lemma small_seq_pos:
  assumes "int n < 2 ^ 64 - 1" and "i < n"
  shows "(0 :: u64) < 1 + of_nat i"
proof -
  have "uint (1 + of_nat i :: u64) = 1 + int i"
    using assms by (simp add: uint_word_ariths unsigned_of_nat take_bit_eq_mod)
  then show ?thesis by (simp add: word_less_def)
qed

lemma scan_eof: "scan_disk unm wt ckpt i [] s = (s, None)"
  by (subst replay_loop.simps) (simp add: file_read_def disk_read_def WALHeaderSize_def)

lemma intact_frames:
  assumes "map unm ds = map Inr es" and "\<forall>e \<in> set es. ckpt < we_Sequence e \<and> verifyChecksum wt e"
  shows "fold (frame_effect unm wt ckpt) ds s = s\<lparr>sc_entries := sc_entries s @ es\<rparr>"
  using assms
proof (induction ds arbitrary: es s)
  case (Cons d ds)
  then obtain e es' where es: "es = e # es'" "unm d = Inr e" "map unm ds = map Inr es'" by auto
  have "frame_effect unm wt ckpt d s = s\<lparr>sc_entries := sc_entries s @ [e]\<rparr>"
    using Cons.prems(2) es by (simp add: frame_effect_def not_le)
  then show ?case using Cons.IH [OF es(3)] Cons.prems(2) es(1) by simp
qed simp

lemma write_scan_back:
  assumes "write_all wt ws m d = Some (m', d', es)" and "wd_wal d = Some []"
    and "rm_sequence m = 0" and "int (length ws) < 2 ^ 64 - 1"
    and "\<forall>(env, e) \<in> set ws. codec_ok unm env"
    and "\<forall>e \<in> set es. tm_mono (we_Timestamp e) = None"
  shows "\<exists>bs. wd_wal d' = Some bs \<and>
    scan_disk unm wt 0 0 bs empty_scan = (empty_scan\<lparr>sc_entries := es\<rparr>, None) \<and>
    map we_Sequence es = map (\<lambda>i. 1 + of_nat i) [0..<length ws]"
proof -
  have "uint (rm_sequence m) + int (length ws) < 2 ^ 64" using assms(3,4) by simp
  from write_all_log [OF assms(1,2,5) this] obtain ds where ds:
      "wd_wal d' = Some (frames ds)" "map unm ds = map (Inr \<circ> json_view) es"
      "list_all (\<lambda>d. length d \<le> MaxWALEntrySize) ds" "list_all (\<lambda>e. verifyChecksum wt e) es"
      "map we_Sequence es = map (\<lambda>i. 1 + of_nat i) [0..<length es]" "length es = length ws"
    using assms(3) by auto
  have view: "map unm ds = map Inr es"
    using assms(6) by (simp add: ds(2) json_view_id)
  have "\<forall>x \<in> set (map we_Sequence es). 0 < x"
    unfolding ds(5) using small_seq_pos [OF assms(4)] ds(6) by auto
  then have "\<forall>e \<in> set es. 0 < we_Sequence e \<and> verifyChecksum wt e"
    using ds(4) by (auto simp: list_all_iff)
  from intact_frames [OF view this]
  have "scan_disk unm wt 0 0 (frames ds @ []) empty_scan = (empty_scan\<lparr>sc_entries := es\<rparr>, None)"
    unfolding scan_frames [OF ds(3)] by (simp add: scan_eof empty_scan_def)
  then show ?thesis using ds(1,5,6) by simp
qed

text \<open>A codec that knows one entry, for the witnesses.\<close>

definition demo_now :: go_time where "demo_now = \<lparr>tm_wall = 0, tm_mono = None\<rparr>"
definition demo_wt :: "int \<Rightarrow> string" where "demo_wt w = ''t''"

definition demo_base :: wal_entry where
  "demo_base = \<lparr>we_Sequence = 0, we_Timestamp = demo_now, we_Operation = OpSet, we_Key = ''k'',
     we_Value = [7], we_Metadata = None, we_Tier = 0, we_Checksum = 0\<rparr>"

definition demo_entry1 :: wal_entry where
  "demo_entry1 = stamp_entry demo_wt demo_now 1 demo_base"

definition demo_marshal :: "wal_entry \<Rightarrow> go_error + bytes" where
  "demo_marshal e = (if e = demo_entry1 then Inr [1] else Inl (Errorf ''bad'' None))"

definition demo_unmarshal :: "bytes \<Rightarrow> go_error + wal_entry" where
  "demo_unmarshal bs = (if bs = [1] then Inr demo_entry1 else Inl (Errorf ''bad'' None))"

definition demo_write_env :: write_env where
  "demo_write_env = \<lparr>wv_now = demo_now, wv_marshal = demo_marshal, wv_write = None\<rparr>"

definition demo_manager :: recovery_manager where
  "demo_manager = \<lparr>rm_walPath = ''wal'', rm_checkpointPath = [], rm_maxWorkers = 4, rm_sequence = 0,
     rm_closed = False, rm_skippedEntries = 0, rm_corruptedSize = 0, rm_lastCheckpoint = 0,
     rm_lastCheckpointTime = None, rm_checkpointInterval = 10000, rm_cancelled = False\<rparr>"

definition empty_disk :: wal_disk where
  "empty_disk = \<lparr>wd_wal = Some [], wd_checkpoints = None\<rparr>"

lemma demo_entry1_time: "we_Timestamp demo_entry1 = demo_now" "we_Sequence demo_entry1 = 1"
  by (simp_all add: demo_entry1_def stamp_entry_def Let_def)

lemma demo_codec: "codec_ok demo_unmarshal demo_write_env"
  by (auto simp: codec_ok_def demo_write_env_def demo_marshal_def demo_unmarshal_def
      MaxWALEntrySize_def json_view_id demo_entry1_time demo_now_def split: if_split_asm)

lemma demo_write_all:
  "\<exists>m' d'. write_all demo_wt [(demo_write_env, demo_base)] demo_manager empty_disk =
     Some (m', d', [demo_entry1])"
  by (simp add: WAL_Write_def Let_def demo_manager_def demo_write_env_def encodeEntry_def
      demo_marshal_def demo_entry1_def)

theorem scan_recovers_witness:
  "\<exists>s. scan_disk demo_unmarshal demo_wt 0 0 (frames [[9], [1]] @ take 8 (frame [1])) empty_scan =
     (s, None) \<and> sc_entries s = [demo_entry1]"
proof -
  have "verifyChecksum demo_wt demo_entry1" by (simp add: demo_entry1_def verify_stamp)
  then have "List.map_filter (accepted demo_unmarshal demo_wt 0) [[9], [1]] = [demo_entry1]"
    by (simp add: map_filter_simps accepted_def demo_unmarshal_def demo_entry1_time)
  then show ?thesis
    using scan_recovers [of "[[9], [1]]" "[1]" 8 demo_unmarshal demo_wt 0]
    by (simp add: MaxWALEntrySize_def frame_def)
qed

subsection \<open>The size limit\<close>

text \<open>
  An entry above the size limit ends the log: \<^verbatim>\<open>Write\<close> accepts an entry whose encoding is
  longer than one megabyte and reports success, but a scan stops at it, so neither it nor any
  entry written after it is ever recovered; only eight bytes are counted as corrupted.
\<close>

theorem oversized_entry_hides_rest:
  assumes "WAL_Write wt env entry m d = (m', d', e, b, None)" and "wd_wal d = Some (frames ds)"
    and "list_all (\<lambda>x. length x \<le> MaxWALEntrySize) ds"
    and "wv_marshal env e = Inr data" and "MaxWALEntrySize < length data"
    and "length data < 2 ^ 64"
  shows "wd_wal d' = Some (frames ds @ frame data) \<and>
    scan_disk unm wt ckpt 0 ((frames ds @ frame data) @ rest) empty_scan =
      (skip_corrupt 8 (fold (frame_effect unm wt ckpt) ds empty_scan), None)"
proof -
  have d': "wd_wal d' = Some (frames ds @ frame data)"
    using WAL_Write_ok [OF assms(1)] assms(2,4) by (auto simp: append_wal_def)
  have "length data < 256 ^ 8" using assms(6) by simp
  note hdr = frame_header [OF this, of rest]
  have "scan_disk unm wt ckpt i (frame data @ rest) s = (skip_corrupt 8 s, None)" for i s
    using assms(5) scan_step [OF _ hdr(1) [symmetric] hdr(2) [symmetric], of unm wt ckpt i s]
    by (simp add: frame_def)
  then show ?thesis
    using d' scan_frames [OF assms(3), of unm wt ckpt 0 "frame data @ rest" empty_scan] by simp
qed

definition big_env :: write_env where
  "big_env = demo_write_env\<lparr>wv_marshal := (\<lambda>e. Inr (replicate 1048577 0))\<rparr>"

theorem oversized_entry_hides_rest_witness:
  "\<exists>m' d' e b. WAL_Write demo_wt big_env demo_base demo_manager empty_disk = (m', d', e, b, None) \<and>
     scan_disk demo_unmarshal demo_wt 0 0 (frame (replicate 1048577 0) @ frame [1]) empty_scan =
       (skip_corrupt 8 empty_scan, None)"
proof -
  have "\<exists>m' d' e b. WAL_Write demo_wt big_env demo_base demo_manager empty_disk = (m', d', e, b, None)"
    by (simp add: WAL_Write_def Let_def demo_manager_def big_env_def demo_write_env_def encodeEntry_def)
      blast
  then obtain m' d' e b where
    w: "WAL_Write demo_wt big_env demo_base demo_manager empty_disk = (m', d', e, b, None)"
    by blast
  moreover have "wv_marshal big_env e = Inr (replicate 1048577 0)"
    "MaxWALEntrySize < length (replicate 1048577 (0 :: byte))"
    by (simp_all add: big_env_def MaxWALEntrySize_def)
  ultimately show ?thesis
    using oversized_entry_hides_rest [OF w, of "[]" "replicate 1048577 0" demo_unmarshal 0 "frame [1]"]
    by (simp add: empty_disk_def)
qed

subsection \<open>The checksum\<close>

text \<open>
  C21. What the checksum detects: an entry that verifies no longer does when one byte of its
  value or one character of its key is replaced by another.
\<close>

theorem checksum_detects_byte:
  assumes "verifyChecksum wt e"
  shows "(we_Value e = xs @ b # ys \<and> b' \<noteq> b \<longrightarrow> \<not> verifyChecksum wt (e\<lparr>we_Value := xs @ b' # ys\<rparr>)) \<and>
    (we_Key e = us @ c # vs \<and> c' \<noteq> c \<longrightarrow> \<not> verifyChecksum wt (e\<lparr>we_Key := us @ c' # vs\<rparr>))"
proof (intro conjI impI)
  assume v: "we_Value e = xs @ b # ys \<and> b' \<noteq> b"
  then show "\<not> verifyChecksum wt (e\<lparr>we_Value := xs @ b' # ys\<rparr>)"
    using assms fnv64a_single_byte [of b b'
        "be_enc 8 (unat (we_Sequence e)) @ bytes_of (we_Key e) @ xs"
        "ys @ bytes_of (time_String wt (we_Timestamp e)) @ be_enc 8 (nat (we_Operation e mod 2 ^ 64))"]
    by (auto simp: verifyChecksum_def computeChecksum_def)
next
  assume v: "we_Key e = us @ c # vs \<and> c' \<noteq> c"
  then have "(of_char c :: byte) \<noteq> of_char c'" using v by (auto simp: of_char_byte_inj)
  then show "\<not> verifyChecksum wt (e\<lparr>we_Key := us @ c' # vs\<rparr>)"
    using v assms fnv64a_single_byte [of "of_char c" "of_char c'"
        "be_enc 8 (unat (we_Sequence e)) @ bytes_of us" "bytes_of vs @ we_Value e @
         bytes_of (time_String wt (we_Timestamp e)) @ be_enc 8 (nat (we_Operation e mod 2 ^ 64))"]
    by (auto simp: verifyChecksum_def computeChecksum_def bytes_of_def)
qed

theorem checksum_detects_byte_witness:
  "\<not> verifyChecksum demo_wt (demo_entry1\<lparr>we_Value := [8]\<rparr>)"
proof -
  have "verifyChecksum demo_wt demo_entry1" "we_Value demo_entry1 = [] @ 7 # []"
    by (simp_all add: demo_entry1_def verify_stamp) (simp add: stamp_entry_def Let_def demo_base_def)
  then show ?thesis using checksum_detects_byte [of demo_wt demo_entry1 "[]" 7 "[]" 8] by simp
qed

subsection \<open>The monotonic clock in the checksum\<close>

text \<open>The lowest bit of an FNV-1a hash is the parity of the lowest bits of the bytes.\<close>

lemma bit0_fnv64a_step: "bit (fnv64a_step h b) 0 \<longleftrightarrow> bit h 0 \<noteq> bit b 0"
proof -
  have u: "bit (ucast b :: u64) 0 = bit b 0" by (simp add: bit_simps)
  have "odd (1099511628211 :: u64)" by simp
  then have "bit (x * 1099511628211) 0 = bit x 0" for x :: u64
    unfolding bit_0 even_mult_iff by blast
  then show ?thesis unfolding fnv64a_step_def by (simp only: bit_xor_iff u)
qed

lemma bit0_fnv64a_foldl:
  "bit (foldl fnv64a_step h bs) 0 \<longleftrightarrow> bit h 0 \<noteq> odd (length (filter (\<lambda>b. bit b 0) bs))"
proof (induction bs arbitrary: h)
  case (Cons b bs)
  show ?case unfolding foldl.simps Cons.IH bit0_fnv64a_step by (cases "bit b 0") simp_all
qed simp

text \<open>The bytes hashed before the monotonic part of the time stamp.\<close>

definition hash_before_mono :: "(int \<Rightarrow> string) \<Rightarrow> wal_entry \<Rightarrow> u64" where
  "hash_before_mono wt e =
     fnv64a (be_enc 8 (unat (we_Sequence e)) @ bytes_of (we_Key e) @ we_Value e @
       bytes_of (wt (tm_wall (we_Timestamp e))))"

lemma bytes_of_append: "bytes_of (s @ t) = bytes_of s @ bytes_of t"
  by (simp add: bytes_of_def)

lemma fnv64a_append: "fnv64a (xs @ ys) = foldl fnv64a_step (fnv64a xs) ys"
  by (simp add: fnv64a_def)

lemma computeChecksum_split:
  "computeChecksum wt e =
     foldl fnv64a_step
       (foldl fnv64a_step (hash_before_mono wt e) (bytes_of (mono_text (tm_mono (we_Timestamp e)))))
       (be_enc 8 (nat (we_Operation e mod 2 ^ 64)))"
proof -
  let ?op = "be_enc 8 (nat (we_Operation e mod 2 ^ 64))"
  let ?m = "bytes_of (mono_text (tm_mono (we_Timestamp e)))"
  let ?pre = "be_enc 8 (unat (we_Sequence e)) @ bytes_of (we_Key e) @ we_Value e @
    bytes_of (wt (tm_wall (we_Timestamp e)))"
  have "computeChecksum wt e = fnv64a ((?pre @ ?m) @ ?op)"
    by (simp only: computeChecksum_def time_String_def bytes_of_append append_assoc)
  then show ?thesis by (simp only: fnv64a_append hash_before_mono_def)
qed

lemma hash_before_mono_view [simp]: "hash_before_mono wt (json_view e) = hash_before_mono wt e"
  by (simp add: hash_before_mono_def json_view_def)

lemma verify_view:
  assumes "verifyChecksum wt e"
  shows "verifyChecksum wt (json_view e) \<longleftrightarrow>
    foldl fnv64a_step (hash_before_mono wt e) (bytes_of (mono_text (tm_mono (we_Timestamp e)))) =
      hash_before_mono wt e"
proof -
  have "we_Checksum (json_view e) = computeChecksum wt e"
    using assms by (simp add: verifyChecksum_def json_view_def)
  moreover have "computeChecksum wt (json_view e) =
      foldl fnv64a_step (hash_before_mono wt e) (be_enc 8 (nat (we_Operation e mod 2 ^ 64)))"
    by (simp add: computeChecksum_split) (simp add: json_view_def bytes_of_def)
  ultimately show ?thesis
    by (auto simp: verifyChecksum_def computeChecksum_split dest: fnv64a_foldl_inj)
qed

definition mono_parity :: "int option \<Rightarrow> bool" where
  "mono_parity t = odd (length (filter (\<lambda>b. bit b 0) (bytes_of (mono_text t))))"

text \<open>
  C9. Entries written by a running process do not survive a restart: \<^verbatim>\<open>Write\<close> hashes the text of
  \<^verbatim>\<open>time.Now()\<close>, which ends in the monotonic clock reading, and JSON drops that reading, so the
  decoded entry verifies only if hashing the reading's text happens to leave the hash state as
  it was; never, when that text has an odd number of odd bytes. A scan then skips every such
  entry as corrupted and recovers none.
\<close>

theorem live_entries_rejected:
  "(verifyChecksum wt (json_view (stamp_entry wt now seq e)) \<longleftrightarrow>
     (let h = hash_before_mono wt (stamp_entry wt now seq e)
      in foldl fnv64a_step h (bytes_of (mono_text (tm_mono now))) = h)) \<and>
   (mono_parity (tm_mono now) \<longrightarrow> \<not> verifyChecksum wt (json_view (stamp_entry wt now seq e))) \<and>
   (write_all wt ws m d = Some (m', d', es) \<and> wd_wal d = Some [] \<and>
    uint (rm_sequence m) + int (length ws) < 2 ^ 64 \<and> (\<forall>(env, e) \<in> set ws. codec_ok unm env) \<and>
    (\<forall>e \<in> set es. mono_parity (tm_mono (we_Timestamp e))) \<longrightarrow>
    (\<exists>bs s. wd_wal d' = Some bs \<and> scan_disk unm wt ckpt 0 bs empty_scan = (s, None) \<and>
       sc_entries s = []))"
proof -
  have stamp: "we_Timestamp (stamp_entry wt now seq e) = now"
    by (simp add: stamp_entry_def Let_def)
  have parity: "\<not> verifyChecksum wt (json_view e)"
    if "verifyChecksum wt e" "mono_parity (tm_mono (we_Timestamp e))" for e
  proof
    assume "verifyChecksum wt (json_view e)"
    then have "foldl fnv64a_step (hash_before_mono wt e) (bytes_of (mono_text (tm_mono (we_Timestamp e))))
        = hash_before_mono wt e"
      using verify_view [OF that(1)] by blast
    then show False
      using bit0_fnv64a_foldl [of "hash_before_mono wt e"
          "bytes_of (mono_text (tm_mono (we_Timestamp e)))"] that(2)
      by (simp add: mono_parity_def)
  qed
  have "\<exists>bs s. wd_wal d' = Some bs \<and> scan_disk unm wt ckpt 0 bs empty_scan = (s, None) \<and>
      sc_entries s = []"
    if w: "write_all wt ws m d = Some (m', d', es)" "wd_wal d = Some []"
      "uint (rm_sequence m) + int (length ws) < 2 ^ 64" "\<forall>(env, e) \<in> set ws. codec_ok unm env"
      and mono: "\<forall>e \<in> set es. mono_parity (tm_mono (we_Timestamp e))"
  proof -
    from write_all_log [OF w(1,2,4,3)] obtain ds where ds: "wd_wal d' = Some (frames ds)"
        "map unm ds = map (Inr \<circ> json_view) es" "list_all (\<lambda>d. length d \<le> MaxWALEntrySize) ds"
        "list_all (\<lambda>e. verifyChecksum wt e) es"
      by auto
    have "List.map_filter (accepted unm wt ckpt) ds = []"
      unfolding accepted_views [OF ds(2)]
      using ds(4) mono parity by (auto simp: filter_empty_conv list_all_iff)
    moreover have "\<exists>s. scan_disk unm wt ckpt 0 (frames ds @ take 0 (frame [])) empty_scan = (s, None) \<and>
        sc_entries s = List.map_filter (accepted unm wt ckpt) ds"
      by (rule scan_recovers_frames [OF ds(3)])
    ultimately show ?thesis using ds(1) by auto
  qed
  then show ?thesis
    using verify_view [OF verify_stamp [of wt now seq e]] parity [OF verify_stamp [of wt now seq e]]
    by (auto simp: Let_def stamp)
qed

theorem live_entries_rejected_witness:
  "mono_parity (Some 2) \<and> \<not> verifyChecksum demo_wt (json_view (stamp_entry demo_wt
     \<lparr>tm_wall = 0, tm_mono = Some 2\<rparr> 1 demo_base))"
proof -
  have t: "mono_text (Some 2) = '' m=+0.000000002''"
  proof -
    have "nat_digits 0 = ''0''" "nat_digits 2 = ''2''" "pad_zeros 9 ''2'' = ''000000002''"
      by code_simp+
    then show ?thesis by simp
  qed
  have p: "mono_parity (Some 2)" unfolding mono_parity_def t by code_simp
  have "mono_parity (tm_mono \<lparr>tm_wall = 0, tm_mono = Some 2\<rparr>) \<longrightarrow> \<not> verifyChecksum demo_wt
      (json_view (stamp_entry demo_wt \<lparr>tm_wall = 0, tm_mono = Some 2\<rparr> 1 demo_base))"
    by (rule live_entries_rejected [THEN conjunct2, THEN conjunct1])
  with p show ?thesis by (simp only: go_time.select_convs simp_thms)
qed

subsection \<open>Checkpoints\<close>

definition readable_checkpoints ::
    "(string \<Rightarrow> bool) \<Rightarrow> (bytes \<Rightarrow> go_error + checkpoint) \<Rightarrow> (string \<times> dir_entry) list \<Rightarrow> u64 list" where
  "readable_checkpoints unr unm fs =
     List.map_filter (\<lambda>(name, f). case f of DirSub \<Rightarrow> None
       | DirFile data \<Rightarrow> if unr name then None
           else (case unm data of Inl e \<Rightarrow> None | Inr cp \<Rightarrow> Some (cp_Sequence cp))) fs"

lemma latest_checkpoint_fold:
  "latest_checkpoint unr unm fs latest = fold max (readable_checkpoints unr unm fs) latest"
  by (induction unr unm fs latest rule: latest_checkpoint.induct)
    (auto simp: readable_checkpoints_def map_filter_simps max_def split: sum.split)

lemma fold_max_Max: "fold max xs (x :: 'a::linorder) = Max (set (x # xs))"
  by (metis Max.set_eq_fold)

text \<open>
  The checkpoint of a recovery is the highest sequence number among the checkpoint files that
  can be read and decoded (zero if there is none); files that cannot are ignored.
\<close>

theorem latest_checkpoint_max:
  "latest_checkpoint unr unm fs 0 = Max (insert 0 (set (readable_checkpoints unr unm fs)))"
  unfolding latest_checkpoint_fold fold_max_Max by simp

end
