(* ===== verification/Recovery.thy ===== *)
theory Recovery
  imports WAL_Props "HOL-Library.Multiset"
begin

text \<open>
  \<^verbatim>\<open>Recover\<close> of \<^verbatim>\<open>pkg/replay/recovery.go\<close>: the main goroutine sends the entries of the scan to
  worker goroutines over a channel of 100 entries, the workers apply them and report errors over
  a channel of 10, which nobody reads before all workers are done. The goroutines are a step
  relation: each step is one channel operation or one call of the apply function, and a step
  that would block is not enabled. \<open>ap\<close> is the apply function, over a state of its own.
\<close>

subsection \<open>Goroutines\<close>

datatype worker = WIdle | WHold wal_entry | WSend go_error | WDone

text \<open>
  The main goroutine: at the \<^verbatim>\<open>select\<close> for the next entry, about to send that entry, waiting for
  the workers with the entry channel closed, and done.
\<close>

datatype main_phase = MSelect | MSend | MWait | MDone

record 's rstate =
  rs_todo :: "wal_entry list"
  rs_phase :: main_phase
  rs_chan :: "wal_entry list"
  rs_errs :: "go_error option list"
  rs_workers :: "worker list"
  rs_replayed :: nat
  rs_applied :: "wal_entry list"
  rs_app :: 's

definition rinit :: "nat \<Rightarrow> wal_entry list \<Rightarrow> 's \<Rightarrow> 's rstate" where
  "rinit n es app =
     \<lparr>rs_todo = es, rs_phase = MSelect, rs_chan = [], rs_errs = [], rs_workers = replicate n WIdle,
      rs_replayed = 0, rs_applied = [], rs_app = app\<rparr>"

text \<open>\<open>canc\<close> says whether the context may be cancelled; its \<^verbatim>\<open>Done\<close> case is then a possible choice.\<close>

inductive rstep ::
    "(wal_entry \<Rightarrow> 's \<Rightarrow> 's \<times> go_error option) \<Rightarrow> bool \<Rightarrow> 's rstate \<Rightarrow> 's rstate \<Rightarrow> bool"
  for ap :: "wal_entry \<Rightarrow> 's \<Rightarrow> 's \<times> go_error option" and canc :: bool
  where
  sel_nil: "rs_phase s = MSelect \<Longrightarrow> rs_todo s \<noteq> [] \<Longrightarrow> length (rs_errs s) < ErrorChannelBuffer \<Longrightarrow>
    rstep ap canc s (s\<lparr>rs_errs := rs_errs s @ [None], rs_phase := MSend\<rparr>)"
| sel_default: "rs_phase s = MSelect \<Longrightarrow> rs_todo s \<noteq> [] \<Longrightarrow>
    ErrorChannelBuffer \<le> length (rs_errs s) \<Longrightarrow> rstep ap canc s (s\<lparr>rs_phase := MSend\<rparr>)"
| sel_done: "rs_phase s = MSelect \<Longrightarrow> rs_todo s \<noteq> [] \<Longrightarrow> canc \<Longrightarrow>
    rstep ap canc s (s\<lparr>rs_phase := MWait\<rparr>)"
| sel_end: "rs_phase s = MSelect \<Longrightarrow> rs_todo s = [] \<Longrightarrow> rstep ap canc s (s\<lparr>rs_phase := MWait\<rparr>)"
| send: "rs_phase s = MSend \<Longrightarrow> rs_todo s = e # es \<Longrightarrow> length (rs_chan s) < WALEntryChannelBuffer \<Longrightarrow>
    rstep ap canc s (s\<lparr>rs_todo := es, rs_chan := rs_chan s @ [e], rs_phase := MSelect,
      rs_replayed := rs_replayed s + 1\<rparr>)"
| take_entry: "i < length (rs_workers s) \<Longrightarrow> rs_workers s ! i = WIdle \<Longrightarrow> rs_chan s = e # es \<Longrightarrow>
    rstep ap canc s (s\<lparr>rs_chan := es, rs_workers := (rs_workers s)[i := WHold e]\<rparr>)"
| apply_ok: "i < length (rs_workers s) \<Longrightarrow> rs_workers s ! i = WHold e \<Longrightarrow>
    ap e (rs_app s) = (app', None) \<Longrightarrow>
    rstep ap canc s (s\<lparr>rs_app := app', rs_applied := rs_applied s @ [e],
      rs_workers := (rs_workers s)[i := WIdle]\<rparr>)"
| apply_err: "i < length (rs_workers s) \<Longrightarrow> rs_workers s ! i = WHold e \<Longrightarrow>
    ap e (rs_app s) = (app', Some err) \<Longrightarrow>
    rstep ap canc s (s\<lparr>rs_app := app', rs_applied := rs_applied s @ [e],
      rs_workers := (rs_workers s)[i := WSend err]\<rparr>)"
| report: "i < length (rs_workers s) \<Longrightarrow> rs_workers s ! i = WSend err \<Longrightarrow>
    length (rs_errs s) < ErrorChannelBuffer \<Longrightarrow>
    rstep ap canc s (s\<lparr>rs_errs := rs_errs s @ [Some err],
      rs_workers := (rs_workers s)[i := WIdle]\<rparr>)"
| exit: "i < length (rs_workers s) \<Longrightarrow> rs_workers s ! i = WIdle \<Longrightarrow> rs_chan s = [] \<Longrightarrow>
    rs_phase s = MWait \<Longrightarrow> rstep ap canc s (s\<lparr>rs_workers := (rs_workers s)[i := WDone]\<rparr>)"
| finish: "rs_phase s = MWait \<Longrightarrow> list_all (\<lambda>w. w = WDone) (rs_workers s) \<Longrightarrow>
    rstep ap canc s (s\<lparr>rs_phase := MDone\<rparr>)"

abbreviation rreach ::
    "(wal_entry \<Rightarrow> 's \<Rightarrow> 's \<times> go_error option) \<Rightarrow> bool \<Rightarrow> nat \<Rightarrow> wal_entry list \<Rightarrow> 's \<Rightarrow>
     's rstate \<Rightarrow> bool" where
  "rreach ap canc n es app s \<equiv> (rstep ap canc)\<^sup>*\<^sup>* (rinit n es app) s"

subsection \<open>\<open>Recover\<close>\<close>

record recovery_result =
  rr_EntriesReplayed :: nat
  rr_EntriesSkipped :: u64
  rr_CorruptedSize :: u64
  rr_Duration :: int
  rr_Errors :: "go_error list"
  rr_Success :: bool

definition failed_result :: "go_error \<Rightarrow> recovery_result" where
  "failed_result e = \<lparr>rr_EntriesReplayed = 0, rr_EntriesSkipped = 0, rr_CorruptedSize = 0,
     rr_Duration = 0, rr_Errors = [e], rr_Success = False\<rparr>"

text \<open>
  Up to the start of the workers: either an early return (result, if any, and error) or the
  entries to apply. The environment collects the parameters of the scan.
\<close>

record recover_env =
  rv_read :: reader
  rv_unmarshal :: "bytes \<Rightarrow> go_error + wal_entry"
  rv_wall :: "int \<Rightarrow> string"
  rv_ctx :: "nat \<Rightarrow> go_error option"
  rv_open :: "go_error option"
  rv_unreadable :: "string \<Rightarrow> bool"
  rv_unmarshal_cp :: "bytes \<Rightarrow> go_error + checkpoint"
  rv_readdir :: "go_error option"

definition recover_prepare ::
    "recover_env \<Rightarrow> recovery_manager \<Rightarrow> wal_disk \<Rightarrow>
     recovery_manager \<times> ((recovery_result option \<times> go_error) + wal_entry list)" where
  "recover_prepare env m d =
     (if rm_closed m then (m, Inl (None, Errorf ''recovery manager is closed'' None))
      else
     (case findLatestCheckpoint (rv_unreadable env) (rv_unmarshal_cp env) (rv_readdir env) m d of
        Inl e \<Rightarrow> (m, Inl (Some (failed_result e), e))
      | Inr latest \<Rightarrow>
     (case replayWAL (rv_read env) (rv_unmarshal env) (rv_wall env) (rv_ctx env) (rv_open env)
        latest m d of
        (m1, entries, Some e) \<Rightarrow> (m1, Inl (Some (failed_result e), e))
      | (m1, entries, None) \<Rightarrow> (m1, Inr entries))))"

text \<open>From the closing of the error channel on: the errors collected and the new sequence.\<close>

definition collect_errors :: "go_error option list \<Rightarrow> go_error list" where
  "collect_errors errs = List.map_filter (\<lambda>e. e) errs"

definition recover_finish ::
    "int \<Rightarrow> wal_entry list \<Rightarrow> 's rstate \<Rightarrow> recovery_manager \<Rightarrow> recovery_manager \<times> recovery_result" where
  "recover_finish duration entries s m =
     (let errors = collect_errors (rs_errs s);
          result = \<lparr>rr_EntriesReplayed = rs_replayed s, rr_EntriesSkipped = rm_skippedEntries m,
            rr_CorruptedSize = rm_corruptedSize m, rr_Duration = duration, rr_Errors = errors,
            rr_Success = (length errors = 0)\<rparr>
      in ((if entries \<noteq> [] then m\<lparr>rm_sequence := we_Sequence (last entries)\<rparr> else m), result))"

inductive Recover ::
    "(wal_entry \<Rightarrow> 's \<Rightarrow> 's \<times> go_error option) \<Rightarrow> bool \<Rightarrow> recover_env \<Rightarrow> recovery_manager \<Rightarrow> wal_disk \<Rightarrow>
     's \<Rightarrow> recovery_manager \<Rightarrow> 's \<Rightarrow> recovery_result option \<Rightarrow> go_error option \<Rightarrow> bool" where
  early: "recover_prepare env m d = (m1, Inl (result, err)) \<Longrightarrow>
    Recover ap canc env m d app m1 app result (Some err)"
| replayed: "recover_prepare env m d = (m1, Inr entries) \<Longrightarrow>
    rreach ap canc (nat (rm_maxWorkers m)) entries app s \<Longrightarrow> rs_phase s = MDone \<Longrightarrow>
    recover_finish duration entries s m1 = (m2, result) \<Longrightarrow>
    Recover ap canc env m d app m2 (rs_app s) (Some result) None"

subsection \<open>Every run ends\<close>

fun worker_weight :: "worker \<Rightarrow> nat" where
  "worker_weight WIdle = 1"
| "worker_weight (WHold e) = 4"
| "worker_weight (WSend e) = 3"
| "worker_weight WDone = 0"

fun phase_weight :: "main_phase \<Rightarrow> nat" where
  "phase_weight MSelect = 4"
| "phase_weight MSend = 3"
| "phase_weight MWait = 1"
| "phase_weight MDone = 0"

definition rmeasure :: "'s rstate \<Rightarrow> nat" where
  "rmeasure s = 6 * length (rs_todo s) + 4 * length (rs_chan s) + phase_weight (rs_phase s) +
     (\<Sum>w\<leftarrow>rs_workers s. worker_weight w)"

lemma rstep_measure: "rstep ap canc s s' \<Longrightarrow> rmeasure s' < rmeasure s"
proof (induction rule: rstep.induct)
  case (take_entry i s e es)
  then show ?case
    using sum_list_update_add [of i "rs_workers s" worker_weight "WHold e"] by (simp add: rmeasure_def)
next
  case (apply_ok i s e app')
  then show ?case
    using sum_list_update_add [of i "rs_workers s" worker_weight WIdle] by (simp add: rmeasure_def)
next
  case (apply_err i s e app' err)
  then show ?case
    using sum_list_update_add [of i "rs_workers s" worker_weight "WSend err"] by (simp add: rmeasure_def)
next
  case (report i s err)
  then show ?case
    using sum_list_update_add [of i "rs_workers s" worker_weight WIdle] by (simp add: rmeasure_def)
next
  case (exit i s)
  then show ?case
    using sum_list_update_add [of i "rs_workers s" worker_weight WDone] by (simp add: rmeasure_def)
qed (simp_all add: rmeasure_def)

end
