(* ===== verification/Recovery_Props.thy ===== *)
theory Recovery_Props
  imports Recovery Protocol
begin

text \<open>
  Properties of \<^verbatim>\<open>Recover\<close>: with an apply function that never fails every run ends with every
  entry applied exactly once; a failing entry that is not among the first nine blocks the
  recovery forever; one worker applies in log order, two need not; and after a restart the
  sequence numbers start below the checkpoint.
\<close>

subsection \<open>What every run keeps\<close>

fun held :: "worker \<Rightarrow> wal_entry multiset" where
  "held (WHold e) = {#e#}"
| "held _ = {#}"

definition held_mset :: "worker list \<Rightarrow> wal_entry multiset" where
  "held_mset ws = (\<Sum>w\<leftarrow>ws. held w)"

lemma held_mset_update:
  "i < length ws \<Longrightarrow> held_mset (ws[i := w]) + held (ws ! i) = held_mset ws + held w"
  unfolding held_mset_def by (rule sum_list_update_add)

definition rinv :: "nat \<Rightarrow> wal_entry list \<Rightarrow> 's rstate \<Rightarrow> bool" where
  "rinv n es s \<longleftrightarrow>
     length (rs_workers s) = n \<and> length (rs_errs s) \<le> ErrorChannelBuffer \<and>
     length (rs_chan s) \<le> WALEntryChannelBuffer \<and>
     mset (rs_applied s) + held_mset (rs_workers s) + mset (rs_chan s) + mset (rs_todo s) = mset es \<and>
     rs_replayed s + length (rs_todo s) = length es \<and>
     (rs_phase s = MSend \<longrightarrow> rs_todo s \<noteq> []) \<and>
     (rs_phase s = MWait \<or> rs_phase s = MDone \<longrightarrow> rs_todo s = []) \<and>
     (WDone \<in> set (rs_workers s) \<longrightarrow> rs_chan s = [] \<and> (rs_phase s = MWait \<or> rs_phase s = MDone)) \<and>
     (rs_phase s = MDone \<longrightarrow> (\<forall>w \<in> set (rs_workers s). w = WDone))"

lemma rinv_init: "rinv n es (rinit n es app)"
proof -
  have "held_mset (replicate n WIdle) = {#}"
    by (induction n) (simp_all add: held_mset_def)
  then show ?thesis by (auto simp: rinv_def rinit_def)
qed

lemma held_mset_steps:
  assumes "i < length ws"
  shows "ws ! i = WIdle \<Longrightarrow> held_mset (ws[i := WHold e]) = held_mset ws + {#e#}"
    and "ws ! i = WHold e \<Longrightarrow> held_mset ws = held_mset (ws[i := WIdle]) + {#e#}"
    and "ws ! i = WHold e \<Longrightarrow> held_mset ws = held_mset (ws[i := WSend err]) + {#e#}"
    and "ws ! i = WSend err \<Longrightarrow> held_mset (ws[i := WIdle]) = held_mset ws"
    and "ws ! i = WIdle \<Longrightarrow> held_mset (ws[i := WDone]) = held_mset ws"
  using held_mset_update [OF assms, of "WHold e"] held_mset_update [OF assms, of WIdle]
    held_mset_update [OF assms, of "WSend err"] held_mset_update [OF assms, of WDone]
  by simp_all

lemma not_done: "rs_phase s = MDone \<Longrightarrow> \<forall>w \<in> set (rs_workers s). w = WDone \<Longrightarrow>
  i < length (rs_workers s) \<Longrightarrow> rs_workers s ! i = WDone"
  by (metis nth_mem)

lemma rinv_step:
  assumes "rstep ap False s s'" and "rinv n es s"
  shows "rinv n es s'"
  using assms
proof (induction rule: rstep.induct)
  case (sel_nil s)
  then show ?case by (auto simp: rinv_def ErrorChannelBuffer_def)
next
  case (sel_default s)
  then show ?case by (auto simp: rinv_def)
next
  case (sel_end s)
  then show ?case by (auto simp: rinv_def)
next
  case (send s e es')
  then show ?case by (auto simp: rinv_def WALEntryChannelBuffer_def ac_simps)
next
  case (take_entry i s e es')
  then have "WDone \<notin> set (rs_workers s)" "rs_phase s \<noteq> MDone"
    by (auto simp: rinv_def dest: not_done)
  moreover have "mset (rs_applied s) + held_mset (rs_workers s) + mset (rs_chan s) +
      mset (rs_todo s) = mset es" using take_entry.prems by (simp add: rinv_def)
  ultimately show ?case using take_entry held_mset_steps(1) [OF take_entry.hyps(1,2), of e]
    by (auto simp: rinv_def ac_simps dest: set_update_other)
next
  case (apply_ok i s e app')
  have "rs_phase s \<noteq> MDone" using apply_ok by (auto simp: rinv_def dest: not_done)
  then show ?case using apply_ok held_mset_steps(2) [OF apply_ok.hyps(1,2)]
    by (auto simp: rinv_def dest: set_update_other)
next
  case (apply_err i s e app' err)
  have "rs_phase s \<noteq> MDone" using apply_err by (auto simp: rinv_def dest: not_done)
  then show ?case using apply_err held_mset_steps(3) [OF apply_err.hyps(1,2), of err]
    by (auto simp: rinv_def dest: set_update_other)
next
  case (report i s err)
  have "rs_phase s \<noteq> MDone" using report by (auto simp: rinv_def dest: not_done)
  then show ?case using report held_mset_steps(4) [OF report.hyps(1,2)]
    by (auto simp: rinv_def dest: set_update_other)
next
  case (exit i s)
  then show ?case using held_mset_steps(5) [OF exit.hyps(1,2)]
    by (auto simp: rinv_def dest: set_update_other)
next
  case (finish s)
  then show ?case by (auto simp: rinv_def list_all_iff)
qed simp

lemma app_log_step:
  assumes "rstep ap canc s s'" and "rs_app s = fold (\<lambda>e a. fst (ap e a)) (rs_applied s) app"
  shows "rs_app s' = fold (\<lambda>e a. fst (ap e a)) (rs_applied s') app"
  using assms by (induction rule: rstep.induct) simp_all

lemma app_log:
  "rreach ap canc n es app s \<Longrightarrow> rs_app s = fold (\<lambda>e a. fst (ap e a)) (rs_applied s) app"
  by (induction rule: rtranclp_induct) (simp add: rinit_def, rule app_log_step)

interpretation rec: protocol "rstep ap False" "rinv n es" rmeasure for ap n es
  by unfold_locales (rule rinv_step, assumption+, rule rstep_measure)

lemma rinv_reach: "rreach ap False n es app s \<Longrightarrow> rinv n es s"
  by (erule rec.inv_reach) (rule rinv_init)

subsection \<open>Recovery with an apply function that never fails\<close>

definition quiet :: "'s rstate \<Rightarrow> bool" where
  "quiet s \<longleftrightarrow> (\<forall>err. WSend err \<notin> set (rs_workers s)) \<and> (\<forall>e \<in> set (rs_errs s). e = None)"

lemma quiet_step:
  assumes "rstep ap False s s'" and "rinv n es s" and "quiet s"
    and "\<And>e app. e \<in> set es \<Longrightarrow> snd (ap e app) = None"
  shows "quiet s'"
  using assms
proof (induction rule: rstep.induct)
  case (apply_err i s e app' err)
  have "e \<in># held_mset (rs_workers s)"
    using held_mset_steps(3) [OF apply_err.hyps(1,2), of err] by simp
  moreover have "mset (rs_applied s) + held_mset (rs_workers s) + mset (rs_chan s) + mset (rs_todo s)
      = mset es"
    using apply_err.prems(1) by (simp add: rinv_def)
  then have "held_mset (rs_workers s) \<subseteq># mset es"
    by (metis mset_subset_eq_add_left mset_subset_eq_add_right subset_mset.order_trans)
  ultimately have "e \<in> set es" by (auto dest: mset_subset_eqD)
  with apply_err.prems(3) [of e "rs_app s"] apply_err.hyps(3) show ?case by simp
next
  case (report i s err)
  then have "WSend err \<in> set (rs_workers s)" by (metis nth_mem)
  with report show ?case by (simp add: quiet_def)
qed (auto simp: quiet_def dest!: set_update_other)

lemma rprogress:
  assumes "rinv n es s" and "\<And>err. WSend err \<in> set (rs_workers s) \<Longrightarrow> length (rs_errs s) < ErrorChannelBuffer"
    and "0 < n" and "rs_phase s \<noteq> MDone"
  shows "\<exists>s'. rstep ap False s s'"
proof -
  let ?w = "rs_workers s ! 0"
  have n: "length (rs_workers s) = n" using assms(1) by (simp add: rinv_def)
  have busy: "\<exists>s'. rstep ap False s s'" if i: "i < n" "rs_workers s ! i \<noteq> WDone"
      "rs_chan s \<noteq> [] \<or> rs_phase s = MWait" for i
  proof (cases "rs_workers s ! i")
    case WIdle
    then show ?thesis using that n take_entry [of i s] exit [of i s]
      by (cases "rs_chan s") blast+
  next
    case (WHold e)
    then show ?thesis using i(1) n apply_ok [of i s e ap] apply_err [of i s e ap]
      by (cases "ap e (rs_app s)"; cases "snd (ap e (rs_app s))") fastforce+
  next
    case (WSend err)
    then have "WSend err \<in> set (rs_workers s)" using i(1) n by (metis nth_mem)
    then show ?thesis using report [OF _ WSend assms(2)] i(1) n by blast
  qed (use that in simp)
  show ?thesis
  proof (cases "rs_phase s")
    case MSelect
    then show ?thesis
      using sel_nil [of s ap False] sel_default [of s ap False] sel_end [of s ap False] by fastforce
  next
    case MSend
    then obtain e es' where todo: "rs_todo s = e # es'"
      using assms(1) by (cases "rs_todo s") (auto simp: rinv_def)
    show ?thesis
    proof (cases "length (rs_chan s) < WALEntryChannelBuffer")
      case True
      then show ?thesis using send [OF MSend todo] by blast
    next
      case False
      then have "rs_chan s \<noteq> []" by (auto simp: WALEntryChannelBuffer_def)
      moreover have "?w \<noteq> WDone"
        using assms(1,3) n MSend by (metis main_phase.distinct(7,9) nth_mem rinv_def)
      ultimately show ?thesis using busy [of 0] assms(3) by blast
    qed
  next
    case MWait
    show ?thesis
    proof (cases "list_all (\<lambda>w. w = WDone) (rs_workers s)")
      case True
      then show ?thesis using finish [OF MWait] by blast
    next
      case False
      then obtain i where "i < n" "rs_workers s ! i \<noteq> WDone"
        using n by (auto simp: list_all_length)
      then show ?thesis using busy MWait by blast
    qed
  qed (use assms in simp)
qed

lemma held_done: "\<forall>w \<in> set ws. w = WDone \<Longrightarrow> held_mset ws = {#}"
  by (induction ws) (auto simp: held_mset_def)

definition clean_run :: "(wal_entry \<Rightarrow> 's \<Rightarrow> 's \<times> go_error option) \<Rightarrow> nat \<Rightarrow> wal_entry list \<Rightarrow> 's rstate \<Rightarrow> bool" where
  "clean_run ap n es s \<longleftrightarrow>
     rinv n es s \<and> quiet s \<and> 0 < n \<and> (\<forall>e \<in> set es. \<forall>app. snd (ap e app) = None)"

interpretation clean: ending_protocol "rstep ap False" "clean_run ap n es" rmeasure "\<lambda>s. rs_phase s = MDone"
  for ap n es
proof unfold_locales
  fix s s' :: "'a rstate"
  assume c: "clean_run ap n es s"
  show "clean_run ap n es s'" if "rstep ap False s s'"
    using c rinv_step [OF that] quiet_step [OF that] unfolding clean_run_def by blast
  show "rmeasure s' < rmeasure s" if "rstep ap False s s'" using that by (rule rstep_measure)
  show "\<exists>s'. rstep ap False s s'" if "rs_phase s \<noteq> MDone"
    using c that rprogress [of n es s] by (auto simp: clean_run_def quiet_def)
qed

lemma clean_init:
  assumes "0 < n" and "\<And>e app. e \<in> set es \<Longrightarrow> snd (ap e app) = None"
  shows "clean_run ap n es (rinit n es app)"
  using assms rinv_init [of n es app] by (simp add: clean_run_def quiet_def rinit_def)

lemma done_applied:
  assumes "rinv n es s" and "0 < n" and "rs_phase s = MDone"
  shows "mset (rs_applied s) = mset es \<and> rs_replayed s = length es"
proof -
  have ws: "\<forall>w \<in> set (rs_workers s). w = WDone" and len: "length (rs_workers s) = n"
    using assms by (simp_all add: rinv_def)
  then have "WDone \<in> set (rs_workers s)" using assms(2) by (metis nth_mem)
  then have "rs_chan s = []" "rs_todo s = []" using assms(1,3) by (simp_all add: rinv_def)
  then show ?thesis using assms(1) held_done [OF ws] by (simp add: rinv_def)
qed

lemma clean_done:
  assumes "clean_run ap n es s" and "rs_phase s = MDone"
  shows "mset (rs_applied s) = mset es \<and> rs_replayed s = length es \<and> collect_errors (rs_errs s) = []"
proof -
  have inv: "rinv n es s" "quiet s" "0 < n" using assms(1) by (simp_all add: clean_run_def)
  have "collect_errors (rs_errs s) = []"
    using inv(2) by (simp add: quiet_def collect_errors_def map_filter_def filter_empty_conv)
  then show ?thesis using done_applied [OF inv(1,3) assms(2)] by simp
qed

text \<open>
  C10. Recovery without failures always ends and loses nothing: if the apply function fails on no
  entry, then from every state the goroutines can reach \<^verbatim>\<open>Recover\<close> can be run to its end, every run
  comes to a stop within \<open>rmeasure\<close> steps, a state in which no goroutine can move is the finished
  one, and in the finished state each entry has been applied exactly once, all are counted and no
  error was collected.
\<close>

theorem recover_completes:
  assumes "0 < n" and "\<And>e app. e \<in> set es \<Longrightarrow> snd (ap e app) = None"
    and "rreach ap False n es app s"
  shows "(\<exists>s'. (rstep ap False)\<^sup>*\<^sup>* s s' \<and> rs_phase s' = MDone) \<and>
    (\<forall>run. run 0 = s \<longrightarrow> (\<exists>i \<le> rmeasure s. \<not> rstep ap False (run i) (run (Suc i)))) \<and>
    ((\<nexists>s'. rstep ap False s s') \<longrightarrow> rs_phase s = MDone) \<and>
    (rs_phase s = MDone \<longrightarrow> mset (rs_applied s) = mset es \<and> rs_replayed s = length es \<and>
       collect_errors (rs_errs s) = [])"
proof -
  have c: "clean_run ap n es s" by (rule clean.inv_reach [OF assms(3) clean_init [OF assms(1,2)]])
  show ?thesis
    using clean.ends [OF c] clean.runs_stop [of ap n es] clean.progress [OF c] clean_done [OF c] c
    by blast
qed

subsection \<open>Logs short enough for the error channel\<close>

text \<open>
  What may still be put on the error channel: a nil for each entry not sent, and an error for each
  entry on which the apply function can fail and which is not yet applied.
\<close>

definition may_fail :: "(wal_entry \<Rightarrow> 's \<Rightarrow> 's \<times> go_error option) \<Rightarrow> wal_entry \<Rightarrow> nat" where
  "may_fail ap e = (if \<exists>app. snd (ap e app) \<noteq> None then 1 else 0)"

fun worker_reports :: "(wal_entry \<Rightarrow> 's \<Rightarrow> 's \<times> go_error option) \<Rightarrow> worker \<Rightarrow> nat" where
  "worker_reports ap (WHold e) = may_fail ap e"
| "worker_reports ap (WSend err) = 1"
| "worker_reports ap _ = 0"

definition short_run :: "(wal_entry \<Rightarrow> 's \<Rightarrow> 's \<times> go_error option) \<Rightarrow> nat \<Rightarrow> wal_entry list \<Rightarrow> 's rstate \<Rightarrow> bool" where
  "short_run ap n es s \<longleftrightarrow> rinv n es s \<and> 0 < n \<and>
     length (rs_errs s) + (\<Sum>e\<leftarrow>rs_todo s. 1 + may_fail ap e) + (\<Sum>e\<leftarrow>rs_chan s. may_fail ap e) +
       (\<Sum>w\<leftarrow>rs_workers s. worker_reports ap w)
     \<le> ErrorChannelBuffer + (if rs_phase s = MSend then 1 else 0)"

lemma short_step:
  assumes "rstep ap False s s'" and "short_run ap n es s"
  shows "short_run ap n es s'"
proof -
  have inv: "rinv n es s'" "0 < n" using assms rinv_step unfolding short_run_def by blast+
  note upd = sum_list_update_add [where f = "worker_reports ap"]
  show ?thesis
    using assms inv
  proof (induction rule: rstep.induct)
    case (take_entry i s e es')
    then show ?case using upd [OF take_entry.hyps(1), of "WHold e"] by (simp add: short_run_def)
  next
    case (apply_ok i s e app')
    then show ?case using upd [OF apply_ok.hyps(1), of WIdle] by (simp add: short_run_def)
  next
    case (apply_err i s e app' err)
    have "may_fail ap e = 1" using apply_err.hyps(3) by (metis may_fail_def option.distinct(1) snd_conv)
    then show ?case
      using apply_err upd [OF apply_err.hyps(1), of "WSend err"] by (simp add: short_run_def)
  next
    case (report i s err)
    then show ?case using upd [OF report.hyps(1), of WIdle] by (simp add: short_run_def)
  next
    case (exit i s)
    then show ?case using upd [OF exit.hyps(1), of WDone] by (simp add: short_run_def)
  qed (simp_all add: short_run_def)
qed

lemma short_room:
  assumes "short_run ap n es s" and "WSend err \<in> set (rs_workers s)"
  shows "length (rs_errs s) < ErrorChannelBuffer"
proof -
  have "worker_reports ap (WSend err) \<le> (\<Sum>w\<leftarrow>rs_workers s. worker_reports ap w)"
    using assms(2) by (intro member_le_sum_list) (auto intro: rev_image_eqI)
  then show ?thesis
    using assms(1) by (cases "rs_todo s") (auto simp: short_run_def rinv_def split: if_split_asm)
qed

interpretation short: ending_protocol "rstep ap False" "short_run ap n es" rmeasure "\<lambda>s. rs_phase s = MDone"
  for ap n es
proof unfold_locales
  fix s s' :: "'a rstate"
  assume c: "short_run ap n es s"
  show "short_run ap n es s'" if "rstep ap False s s'" by (rule short_step [OF that c])
  show "rmeasure s' < rmeasure s" if "rstep ap False s s'" using that by (rule rstep_measure)
  show "\<exists>s'. rstep ap False s s'" if "rs_phase s \<noteq> MDone"
    using c short_room [OF c] rprogress [OF _ _ _ that] unfolding short_run_def by blast
qed

lemma short_init:
  assumes "0 < n" and "length es + (\<Sum>e\<leftarrow>es. may_fail ap e) \<le> 10"
  shows "short_run ap n es (rinit n es app)"
proof -
  have "(\<Sum>e\<leftarrow>es. 1 + may_fail ap e) = length es + (\<Sum>e\<leftarrow>es. may_fail ap e)"
    by (induction es) simp_all
  then show ?thesis
    using assms rinv_init [of n es app]
    by (simp add: short_run_def rinit_def ErrorChannelBuffer_def sum_list_replicate)
qed

text \<open>
  C13. Which logs cannot block: if the entries of a log and those of them on which the apply
  function can fail are ten together, then whatever the schedule the goroutines always can go on
  until \<^verbatim>\<open>Recover\<close> is done, no run is infinite, and at the end each entry was applied exactly
  once, failing or not. (One more and \<open>failing_entry_blocks_recovery\<close> applies: nine entries that
  apply and a tenth that fails.)
\<close>

theorem short_log_recovers:
  assumes "0 < n" and "length es + (\<Sum>e\<leftarrow>es. may_fail ap e) \<le> 10" and "rreach ap False n es app s"
  shows "(\<exists>s'. (rstep ap False)\<^sup>*\<^sup>* s s' \<and> rs_phase s' = MDone) \<and>
    (\<forall>run. run 0 = s \<longrightarrow> (\<exists>i \<le> rmeasure s. \<not> rstep ap False (run i) (run (Suc i)))) \<and>
    ((\<nexists>s'. rstep ap False s s') \<longrightarrow> rs_phase s = MDone) \<and>
    (rs_phase s = MDone \<longrightarrow> mset (rs_applied s) = mset es \<and> rs_replayed s = length es)"
proof -
  have c: "short_run ap n es s" by (rule short.inv_reach [OF assms(3) short_init [OF assms(1,2)]])
  have "rs_phase s = MDone \<longrightarrow> mset (rs_applied s) = mset es \<and> rs_replayed s = length es"
    using c done_applied [of n es s] by (simp add: short_run_def)
  then show ?thesis using short.ends [OF c] short.runs_stop [of ap n es] short.progress [OF c] c by blast
qed

subsection \<open>A failing entry blocks recovery\<close>

text \<open>
  The first \<open>sent\<close> entries have been sent and the first \<open>taken\<close> of them received; every entry sent
  has put a nil on the error channel while it had room; once entry \<open>j\<close> has been received, the
  error channel is full and some worker still has an error to report.
\<close>

definition stuck_worker :: "wal_entry \<Rightarrow> worker \<Rightarrow> bool" where
  "stuck_worker e w \<longleftrightarrow> w = WHold e \<or> (\<exists>err. w = WSend err)"

definition jam :: "nat \<Rightarrow> wal_entry list \<Rightarrow> nat \<Rightarrow> nat \<Rightarrow> 's rstate \<Rightarrow> bool" where
  "jam j es sent taken s \<longleftrightarrow>
     taken \<le> sent \<and> sent \<le> length es \<and> rs_todo s = drop sent es \<and>
     rs_chan s = drop taken (take sent es) \<and>
     min ErrorChannelBuffer (sent + (if rs_phase s = MSend then 1 else 0)) \<le> length (rs_errs s) \<and>
     (j < taken \<longrightarrow> length (rs_errs s) = ErrorChannelBuffer \<and>
        (\<exists>w \<in> set (rs_workers s). stuck_worker (es ! j) w))"

lemma stuck_update:
  assumes "\<exists>w \<in> set ws. stuck_worker e w" and "\<not> stuck_worker e (ws ! i) \<or> stuck_worker e x"
  shows "\<exists>w \<in> set (ws[i := x]). stuck_worker e w"
proof (cases "i < length ws")
  case True
  obtain k where k: "k < length ws" "stuck_worker e (ws ! k)"
    using assms(1) by (metis in_set_conv_nth)
  show ?thesis
  proof (cases "k = i")
    case True
    then have "stuck_worker e x" using k assms(2) by blast
    then show ?thesis using True k(1) by (metis set_update_memI)
  next
    case False
    then have "ws[i := x] ! k = ws ! k" by simp
    then show ?thesis using k by (metis length_list_update nth_mem)
  qed
next
  case False
  then show ?thesis using assms(1) by (simp add: list_update_beyond)
qed

lemma drop_take_Cons:
  assumes "drop k (take n xs) = y # ys"
  shows "k < n" "k < length xs" "xs ! k = y" "drop (Suc k) (take n xs) = ys"
proof -
  from assms show k: "k < n" and l: "k < length xs" by (auto intro: ccontr)
  then have "drop k (take n xs) = xs ! k # drop (Suc k) (take n xs)"
    by (simp add: Cons_nth_drop_Suc [symmetric])
  with assms show "xs ! k = y" "drop (Suc k) (take n xs) = ys" by simp_all
qed

lemma jam_step:
  assumes "rstep ap False s s'" and "jam j es sent taken s" and "rinv n es s"
    and "ErrorChannelBuffer \<le> Suc j" and "snd (ap (es ! j) (rs_app s)) \<noteq> None"
  shows "\<exists>sent' taken'. jam j es sent' taken' s'"
  using assms
proof (induction rule: rstep.induct)
  case (sel_nil s)
  then have "jam j es sent taken (s\<lparr>rs_errs := rs_errs s @ [None], rs_phase := MSend\<rparr>)"
    by (auto simp: jam_def)
  then show ?case by blast
next
  case (sel_default s)
  then have "jam j es sent taken (s\<lparr>rs_phase := MSend\<rparr>)" by (auto simp: jam_def)
  then show ?case by blast
next
  case (sel_end s)
  then have "jam j es sent taken (s\<lparr>rs_phase := MWait\<rparr>)" by (auto simp: jam_def)
  then show ?case by blast
next
  case (send s e es')
  then have sent: "sent < length es" "es ! sent = e" "es' = drop (Suc sent) es"
    by (auto simp: jam_def) (metis drop_eq_Nil leI list.distinct(1) list.inject Cons_nth_drop_Suc)+
  have "jam j es (Suc sent) taken (s\<lparr>rs_todo := es', rs_chan := rs_chan s @ [e], rs_phase := MSelect,
      rs_replayed := rs_replayed s + 1\<rparr>)"
    using send sent by (auto simp: jam_def take_Suc_conv_app_nth)
  then show ?case by blast
next
  case (take_entry i s e es')
  have "drop taken (take sent es) = e # es'" using take_entry by (simp add: jam_def)
  note d = drop_take_Cons [OF this]
  have "\<not> stuck_worker (es ! j) (rs_workers s ! i)" using take_entry.hyps by (simp add: stuck_worker_def)
  moreover have "WHold e \<in> set ((rs_workers s)[i := WHold e])"
    using take_entry.hyps(1) by (rule set_update_memI)
  moreover have "length (rs_errs s) = ErrorChannelBuffer" if "taken = j"
    using take_entry.prems that d(1) by (auto simp: jam_def rinv_def)
  ultimately have "jam j es sent (Suc taken)
      (s\<lparr>rs_chan := es', rs_workers := (rs_workers s)[i := WHold e]\<rparr>)"
    using take_entry.prems d stuck_update [of "rs_workers s" "es ! j" i]
    by (auto simp: jam_def less_Suc_eq stuck_worker_def)
  then show ?case by blast
next
  case (apply_ok i s e app')
  then have "e \<noteq> es ! j" by (metis snd_conv)
  then have "\<not> stuck_worker (es ! j) (rs_workers s ! i)"
    using apply_ok.hyps by (simp add: stuck_worker_def)
  then have "jam j es sent taken (s\<lparr>rs_app := app', rs_applied := rs_applied s @ [e],
      rs_workers := (rs_workers s)[i := WIdle]\<rparr>)"
    using apply_ok.prems stuck_update [of "rs_workers s" "es ! j" i WIdle] by (auto simp: jam_def)
  then show ?case by blast
next
  case (apply_err i s e app' err)
  have "stuck_worker (es ! j) (WSend err)" by (simp add: stuck_worker_def)
  then have "jam j es sent taken (s\<lparr>rs_app := app', rs_applied := rs_applied s @ [e],
      rs_workers := (rs_workers s)[i := WSend err]\<rparr>)"
    using apply_err.prems stuck_update [of "rs_workers s" "es ! j" i "WSend err"]
    by (auto simp: jam_def)
  then show ?case by blast
next
  case (report i s err)
  then have "jam j es sent taken (s\<lparr>rs_errs := rs_errs s @ [Some err],
      rs_workers := (rs_workers s)[i := WIdle]\<rparr>)"
    by (auto simp: jam_def)
  then show ?case by blast
next
  case (exit i s)
  have "\<not> stuck_worker (es ! j) (rs_workers s ! i)" using exit.hyps by (simp add: stuck_worker_def)
  then have "jam j es sent taken (s\<lparr>rs_workers := (rs_workers s)[i := WDone]\<rparr>)"
    using exit.prems stuck_update [of "rs_workers s" "es ! j" i WDone] by (auto simp: jam_def)
  then show ?case by blast
next
  case (finish s)
  then have "jam j es sent taken (s\<lparr>rs_phase := MDone\<rparr>)" by (auto simp: jam_def)
  then show ?case by blast
qed simp

lemma applied_set: "rreach ap False n es app s \<Longrightarrow> set (rs_applied s) \<subseteq> set es"
  using rinv_reach [of ap n es app s]
  by (auto simp: rinv_def dest!: arg_cong [where f = set_mset])

lemma jammed_recovery:
  assumes "0 < n" and "j < length es" and "9 \<le> j"
    and "\<And>ps. set ps \<subseteq> set es \<Longrightarrow> snd (ap (es ! j) (fold (\<lambda>e a. fst (ap e a)) ps app)) \<noteq> None"
  shows "\<not> (\<exists>s. rreach ap False n es app s \<and> rs_phase s = MDone)"
proof
  assume "\<exists>s. rreach ap False n es app s \<and> rs_phase s = MDone"
  then obtain s where s: "rreach ap False n es app s" "rs_phase s = MDone" by blast
  have j: "ErrorChannelBuffer \<le> Suc j" using assms(3) by (simp add: ErrorChannelBuffer_def)
  have "\<exists>sent taken. jam j es sent taken s"
    using s(1)
  proof (induction rule: rtranclp_induct)
    case base
    have "jam j es 0 0 (rinit n es app)" by (simp add: jam_def rinit_def)
    then show ?case by blast
  next
    case (step s s')
    then obtain sent taken where jam: "jam j es sent taken s" by blast
    have "snd (ap (es ! j) (rs_app s)) \<noteq> None"
      unfolding app_log [OF step.hyps(1)] by (rule assms(4)) (rule applied_set [OF step.hyps(1)])
    from jam_step [of ap s s' j es, OF step.hyps(2) jam rinv_reach [OF step.hyps(1)] j this]
    show ?case .
  qed
  then obtain sent taken where jam: "jam j es sent taken s" by blast
  have inv: "rinv n es s" by (rule rinv_reach [OF s(1)])
  then have ws: "\<forall>w \<in> set (rs_workers s). w = WDone" and len: "length (rs_workers s) = n"
    using s(2) by (simp_all add: rinv_def)
  then have "WDone \<in> set (rs_workers s)" using assms(1) by (metis nth_mem)
  then have "rs_chan s = []" "rs_todo s = []" using inv s(2) by (simp_all add: rinv_def)
  then have "j < taken" using jam assms(2) by (auto simp: jam_def)
  then obtain w where "w \<in> set (rs_workers s)" "stuck_worker (es ! j) w"
    using jam by (auto simp: jam_def)
  then show False using ws by (auto simp: stuck_worker_def)
qed

text \<open>
  C8. Recovery can hang: the error channel holds ten errors, nobody reads it before the workers
  are done, and the main loop itself fills it with nils. If the apply function fails on an entry
  that has at least nine entries before it, \<^verbatim>\<open>Recover\<close> never returns: no reachable state is
  final, and since every run is finite, every run ends blocked.
\<close>

theorem failing_entry_blocks_recovery:
  assumes "0 < n" and "j < length es" and "9 \<le> j" and "\<And>app. snd (ap (es ! j) app) \<noteq> None"
  shows "\<not> (\<exists>s. rreach ap False n es app s \<and> rs_phase s = MDone)"
  by (rule jammed_recovery [OF assms(1-3)]) (rule assms(4))

definition replay_demo :: "wal_entry \<Rightarrow> (string \<rightharpoonup> bytes) \<Rightarrow> (string \<rightharpoonup> bytes) \<times> go_error option" where
  "replay_demo e m =
     (if we_Operation e = OpSet then (m(we_Key e \<mapsto> we_Value e), None)
      else (m(we_Key e := None), None))"

theorem recover_completes_witness:
  "\<exists>s. rreach replay_demo False 4 [demo_base] Map.empty s \<and> rs_phase s = MDone \<and>
     rs_applied s = [demo_base]"
proof -
  have "\<And>e app. e \<in> set [demo_base] \<Longrightarrow> snd (replay_demo e app) = None"
    by (simp add: replay_demo_def)
  note rc = recover_completes [where n = 4 and es = "[demo_base]" and ap = replay_demo and
      app = Map.empty, OF _ this]
  obtain s where s: "rreach replay_demo False 4 [demo_base] Map.empty s" "rs_phase s = MDone"
    using rc [of "rinit 4 [demo_base] Map.empty"] by auto
  then show ?thesis using rc [of s] by auto
qed

definition replay_refuse :: "wal_entry \<Rightarrow> unit \<Rightarrow> unit \<times> go_error option" where
  "replay_refuse e u =
     ((), if we_Operation e = OpDelete then Some (ErrCode ErrCodeNotFound) else None)"

theorem failing_entry_blocks_recovery_witness:
  "\<not> (\<exists>s. rreach replay_refuse False 4
     (replicate 9 demo_base @ [demo_base\<lparr>we_Operation := OpDelete\<rparr>]) () s \<and> rs_phase s = MDone)"
proof (rule failing_entry_blocks_recovery [where j = 9])
  show "snd (replay_refuse ((replicate 9 demo_base @ [demo_base\<lparr>we_Operation := OpDelete\<rparr>]) ! 9) u)
      \<noteq> None" for u
    by (simp add: nth_append replay_refuse_def)
qed simp_all

theorem short_log_recovers_witness:
  "\<exists>s. rreach replay_refuse False 4 (demo_base # replicate 4 (demo_base\<lparr>we_Operation := OpDelete\<rparr>)) () s \<and>
     rs_phase s = MDone \<and> length (rs_applied s) = 5"
proof -
  let ?es = "demo_base # replicate 4 (demo_base\<lparr>we_Operation := OpDelete\<rparr>)"
  have "length ?es + (\<Sum>e\<leftarrow>?es. may_fail replay_refuse e) \<le> 10"
    by (simp add: may_fail_def replay_refuse_def sum_list_replicate)
  note rc = short_log_recovers [where n = 4 and app = "()", OF _ this]
  obtain s where s: "rreach replay_refuse False 4 ?es () s" "rs_phase s = MDone"
    using rc [of "rinit 4 ?es ()"] by auto
  have "mset (rs_applied s) = mset ?es" using rc [OF zero_less_numeral s(1)] s(2) by blast
  then have "length (rs_applied s) = length ?es" by (rule mset_eq_length)
  then show ?thesis using s by auto
qed

subsection \<open>The order of replay\<close>

fun held_list :: "worker \<Rightarrow> wal_entry list" where
  "held_list (WHold e) = [e]"
| "held_list _ = []"

definition single_order :: "wal_entry list \<Rightarrow> 's rstate \<Rightarrow> bool" where
  "single_order es s \<longleftrightarrow> (\<exists>w. rs_workers s = [w] \<and>
     rs_applied s @ held_list w @ rs_chan s @ rs_todo s = es)"

lemma single_order_step:
  "rstep ap canc s s' \<Longrightarrow> single_order es s \<Longrightarrow> single_order es s'"
  by (induction rule: rstep.induct) (auto simp: single_order_def)

lemma single_worker_order:
  assumes "rreach ap False 1 es app s" and "rs_phase s = MDone"
  shows "rs_applied s = es"
proof -
  have "single_order es s"
    using assms(1)
  proof (induction rule: rtranclp_induct)
    case base
    show ?case by (simp add: single_order_def rinit_def)
  qed (rule single_order_step)
  then obtain w where w: "rs_workers s = [w]" "rs_applied s @ held_list w @ rs_chan s @ rs_todo s = es"
    by (auto simp: single_order_def)
  have "rinv 1 es s" by (rule rinv_reach [OF assms(1)])
  then have "w = WDone" "rs_todo s = []" "rs_chan s = []"
    using assms(2) w(1) by (auto simp: rinv_def)
  then show ?thesis using w(2) by simp
qed

text \<open>
  A scheduler: one action of the main goroutine or of a worker, to exhibit runs.
\<close>

datatype raction = RSelect | RSend | RTake nat | RApply nat | RExit nat | RFinish

fun rexec ::
    "(wal_entry \<Rightarrow> 's \<Rightarrow> 's \<times> go_error option) \<Rightarrow> raction \<Rightarrow> 's rstate \<Rightarrow> 's rstate option" where
  "rexec ap RSelect s =
     (if rs_phase s \<noteq> MSelect then None
      else if rs_todo s = [] then Some (s\<lparr>rs_phase := MWait\<rparr>)
      else if length (rs_errs s) < ErrorChannelBuffer then
        Some (s\<lparr>rs_errs := rs_errs s @ [None], rs_phase := MSend\<rparr>)
      else Some (s\<lparr>rs_phase := MSend\<rparr>))"
| "rexec ap RSend s =
     (case rs_todo s of
        [] \<Rightarrow> None
      | e # es \<Rightarrow>
          if rs_phase s = MSend \<and> length (rs_chan s) < WALEntryChannelBuffer then
            Some (s\<lparr>rs_todo := es, rs_chan := rs_chan s @ [e], rs_phase := MSelect,
              rs_replayed := rs_replayed s + 1\<rparr>)
          else None)"
| "rexec ap (RTake i) s =
     (case rs_chan s of
        [] \<Rightarrow> None
      | e # es \<Rightarrow>
          if i < length (rs_workers s) \<and> rs_workers s ! i = WIdle then
            Some (s\<lparr>rs_chan := es, rs_workers := (rs_workers s)[i := WHold e]\<rparr>)
          else None)"
| "rexec ap (RApply i) s =
     (if i < length (rs_workers s) then
        (case rs_workers s ! i of
           WHold e \<Rightarrow>
             (case ap e (rs_app s) of
                (app', None) \<Rightarrow>
                  Some (s\<lparr>rs_app := app', rs_applied := rs_applied s @ [e],
                    rs_workers := (rs_workers s)[i := WIdle]\<rparr>)
              | (app', Some err) \<Rightarrow>
                  Some (s\<lparr>rs_app := app', rs_applied := rs_applied s @ [e],
                    rs_workers := (rs_workers s)[i := WSend err]\<rparr>))
         | _ \<Rightarrow> None)
      else None)"
| "rexec ap (RExit i) s =
     (if i < length (rs_workers s) \<and> rs_workers s ! i = WIdle \<and> rs_chan s = [] \<and> rs_phase s = MWait
      then Some (s\<lparr>rs_workers := (rs_workers s)[i := WDone]\<rparr>) else None)"
| "rexec ap RFinish s =
     (if rs_phase s = MWait \<and> list_all (\<lambda>w. w = WDone) (rs_workers s)
      then Some (s\<lparr>rs_phase := MDone\<rparr>) else None)"

fun run_schedule ::
    "(wal_entry \<Rightarrow> 's \<Rightarrow> 's \<times> go_error option) \<Rightarrow> raction list \<Rightarrow> 's rstate \<Rightarrow> 's rstate option" where
  "run_schedule ap [] s = Some s"
| "run_schedule ap (a # as) s = Option.bind (rexec ap a s) (run_schedule ap as)"

lemma rexec_rstep: "rexec ap a s = Some s' \<Longrightarrow> rstep ap False s s'"
  by (cases a) (auto intro: rstep.intros rstep.send [simplified] split: if_split_asm list.splits worker.splits prod.splits
      option.splits simp: not_less)

lemma run_schedule_reach: "run_schedule ap as s = Some s' \<Longrightarrow> (rstep ap False)\<^sup>*\<^sup>* s s'"
proof (induction as arbitrary: s)
  case (Cons a as)
  then obtain s1 where "rexec ap a s = Some s1" "run_schedule ap as s1 = Some s'"
    by (auto simp: bind_eq_Some_conv)
  then show ?case using Cons.IH rexec_rstep converse_rtranclp_into_rtranclp [of "rstep ap False" s s1 s']
    by blast
qed simp

lemma schedule_result:
  assumes "case run_schedule ap as s0 of None \<Rightarrow> False | Some s \<Rightarrow> P s"
  shows "\<exists>s. (rstep ap False)\<^sup>*\<^sup>* s0 s \<and> P s"
  using assms by (cases "run_schedule ap as s0") (auto dest: run_schedule_reach)

definition swap_schedule :: "raction list" where
  "swap_schedule = [RSelect, RSend, RSelect, RSend, RSelect, RTake 0, RTake 1, RApply 1, RApply 0,
     RExit 0, RExit 1, RFinish]"

definition set_then_delete :: "wal_entry list" where
  "set_then_delete = [demo_base, demo_base\<lparr>we_Operation := OpDelete\<rparr>]"

text \<open>
  C18. Replay order: with a single worker a finished recovery has applied the entries in log
  order, so its effect is that of a sequential replay; with two workers it need not: after a log
  that sets a key and then deletes it, a finished recovery can leave the key set.
\<close>

theorem replay_order:
  "(rreach ap False 1 es app s \<and> rs_phase s = MDone \<longrightarrow>
      rs_app s = fold (\<lambda>e a. fst (ap e a)) es app) \<and>
   (\<exists>s. rreach replay_demo False 2 set_then_delete Map.empty s \<and> rs_phase s = MDone \<and>
      rs_app s ''k'' = Some [7]) \<and>
   fold (\<lambda>e a. fst (replay_demo e a)) set_then_delete Map.empty ''k'' = None"
proof (intro conjI impI)
  assume r: "rreach ap False 1 es app s \<and> rs_phase s = MDone"
  have "rs_applied s = es" by (rule single_worker_order [OF r [THEN conjunct1] r [THEN conjunct2]])
  then show "rs_app s = fold (\<lambda>e a. fst (ap e a)) es app" using app_log r by metis
next
  have "case run_schedule replay_demo swap_schedule (rinit 2 set_then_delete Map.empty) of
      None \<Rightarrow> False | Some s \<Rightarrow> rs_phase s = MDone \<and> rs_app s ''k'' = Some [7]"
    by code_simp
  then show "\<exists>s. rreach replay_demo False 2 set_then_delete Map.empty s \<and> rs_phase s = MDone \<and>
      rs_app s ''k'' = Some [7]"
    by (rule schedule_result)
  show "fold (\<lambda>e a. fst (replay_demo e a)) set_then_delete Map.empty ''k'' = None"
    by (simp add: set_then_delete_def replay_demo_def demo_base_def OpSet_def OpDelete_def)
qed

theorem replay_order_witness:
  "\<exists>s. rreach replay_demo False 1 [demo_base] Map.empty s \<and> rs_phase s = MDone \<and>
     rs_app s = [''k'' \<mapsto> [7]]"
proof -
  have "case run_schedule replay_demo [RSelect, RSend, RSelect, RTake 0, RApply 0, RExit 0, RFinish]
      (rinit 1 [demo_base] Map.empty) of None \<Rightarrow> False | Some s \<Rightarrow> rs_phase s = MDone"
    by code_simp
  from schedule_result [OF this]
  obtain s where s: "rreach replay_demo False 1 [demo_base] Map.empty s" "rs_phase s = MDone"
    by blast
  have "rs_app s = fold (\<lambda>e a. fst (replay_demo e a)) [demo_base] Map.empty"
    using replay_order [where ap = replay_demo and es = "[demo_base]" and app = Map.empty and s = s] s
    by blast
  then show ?thesis using s by (auto simp: replay_demo_def demo_base_def)
qed

subsection \<open>Sequence numbers after a restart\<close>

text \<open>
  C19. A restart after a checkpoint loses the writes that follow: a new manager counts from zero,
  a recovery that replays no entry (all are at or below the checkpoint) leaves it there, and so
  the next writes, as many as the checkpoint's number, all get numbers at or below the
  checkpoint: a later recovery with that checkpoint finds nothing more than before them.
\<close>

theorem checkpoint_hides_new_writes:
  assumes "NewRecoveryManager ne wp cp mw ci d0 = (d, Inr m0)"
    and "recover_finish duration [] s m0 = (m, result)"
    and "wd_wal d = Some (frames old)" and "list_all (\<lambda>x. length x \<le> MaxWALEntrySize) old"
    and "write_all wt ws m d = Some (m', d', es)" and "\<forall>(env, e) \<in> set ws. codec_ok unm env"
    and "length ws \<le> unat ckpt"
  shows "\<exists>bs s1 s2. wd_wal d' = Some bs \<and>
    scan_disk unm wt ckpt 0 (frames old) empty_scan = (s1, None) \<and>
    scan_disk unm wt ckpt 0 bs empty_scan = (s2, None) \<and> sc_entries s2 = sc_entries s1"
proof -
  have "rm_sequence m0 = 0"
    using assms(1) by (auto simp: NewRecoveryManager_def Let_def split: if_split_asm option.splits)
  then have m: "rm_sequence m = 0" using assms(2) by (simp add: recover_finish_def Let_def)
  have ckpt: "unat ckpt < 2 ^ 64" using unsigned_less [of ckpt, where 'a = nat] by simp
  then have "int (length ws) < 2 ^ 64" using assms(7) by simp
  then have "uint (rm_sequence m) + int (length ws) < 2 ^ 64" using m by simp
  from write_all_log [OF assms(5,3,6) this] obtain ds where ds:
      "wd_wal d' = Some (frames old @ frames ds)" "map unm ds = map (Inr \<circ> json_view) es"
      "list_all (\<lambda>d. length d \<le> MaxWALEntrySize) ds"
      "map we_Sequence es = map (\<lambda>i. 1 + of_nat i) [0..<length es]" "length es = length ws"
    using m by auto
  have "we_Sequence e \<le> ckpt" if "e \<in> set es" for e
  proof -
    have "\<forall>x \<in> set (map we_Sequence es). x \<le> ckpt"
    proof
      fix x
      assume "x \<in> set (map we_Sequence es)"
      then obtain i where i: "x = 1 + of_nat i" "i < length ws" unfolding ds(4) using ds(5) by auto
      have "unat (1 + of_nat i :: u64) = Suc i"
        using i(2) assms(7) ckpt by (simp add: unat_word_ariths unat_of_nat)
      then show "x \<le> ckpt" using i assms(7) by (simp add: word_le_nat_alt)
    qed
    then show ?thesis using that by simp
  qed
  then have "List.map_filter (accepted unm wt ckpt) ds = []"
    unfolding accepted_views [OF ds(2)] by (auto simp: filter_empty_conv json_view_def not_less)
  moreover obtain s1 where "scan_disk unm wt ckpt 0 (frames old @ take 0 (frame [])) empty_scan = (s1, None)"
      "sc_entries s1 = List.map_filter (accepted unm wt ckpt) old"
    using scan_recovers_frames [OF assms(4)] by blast
  moreover have "list_all (\<lambda>d. length d \<le> MaxWALEntrySize) (old @ ds)" using assms(4) ds(3) by simp
  from scan_recovers_frames [OF this, of unm wt ckpt] obtain s2 where
      "scan_disk unm wt ckpt 0 (frames (old @ ds) @ take 0 (frame [])) empty_scan = (s2, None)"
      "sc_entries s2 = List.map_filter (accepted unm wt ckpt) (old @ ds)"
    by blast
  moreover have "List.map_filter f (xs @ ys) = List.map_filter f xs @ List.map_filter f ys"
    for f :: "bytes \<Rightarrow> wal_entry option" and xs ys by (simp add: map_filter_def)
  ultimately show ?thesis using ds(1) by auto
qed

theorem checkpoint_hides_new_writes_witness:
  "\<exists>d m0 m result m' d' bs s2. NewRecoveryManager \<lparr>ne_mkdir_wal = None, ne_mkdir_checkpoint = None,
       ne_open = None\<rparr> ''wal'' [] 4 10000 empty_disk = (d, Inr m0) \<and>
     recover_finish 0 [] (rinit 4 [] ()) m0 = (m, result) \<and>
     write_all demo_wt [(demo_write_env, demo_base)] m d = Some (m', d', [demo_entry1]) \<and>
     wd_wal d' = Some bs \<and> scan_disk demo_unmarshal demo_wt 1 0 bs empty_scan = (s2, None) \<and>
     sc_entries s2 = []"
proof -
  let ?ne = "\<lparr>ne_mkdir_wal = None, ne_mkdir_checkpoint = None, ne_open = None\<rparr>"
  have new: "NewRecoveryManager ?ne ''wal'' [] 4 10000 empty_disk = (empty_disk, Inr demo_manager)"
    by (simp add: NewRecoveryManager_def Let_def empty_disk_def demo_manager_def)
  obtain result where fin: "recover_finish 0 [] (rinit 4 [] ()) demo_manager = (demo_manager, result)"
    by (simp add: recover_finish_def Let_def)
  obtain m' d' where w: "write_all demo_wt [(demo_write_env, demo_base)] demo_manager empty_disk =
      Some (m', d', [demo_entry1])"
    using demo_write_all by blast
  have codec: "\<forall>(env, e) \<in> set [(demo_write_env, demo_base)]. codec_ok demo_unmarshal env"
    using demo_codec by simp
  have wal: "wd_wal empty_disk = Some (frames [])" by (simp add: empty_disk_def)
  obtain bs s1 s2 where r: "wd_wal d' = Some bs"
      "scan_disk demo_unmarshal demo_wt 1 0 (frames []) empty_scan = (s1, None)"
      "scan_disk demo_unmarshal demo_wt 1 0 bs empty_scan = (s2, None)" "sc_entries s2 = sc_entries s1"
    using checkpoint_hides_new_writes [OF new fin wal _ w codec, of 1] by auto
  have "file_read disk_read WALHeaderSize [] = (0, Some read_EOF)"
    by (simp add: file_read_def disk_read_def WALHeaderSize_def)
  then have "s1 = empty_scan" using r(2) by (subst (asm) replay_loop.simps) simp
  then show ?thesis using new fin w r by (auto simp: empty_scan_def)
qed

end
