(* ===== verification/Crash_Recovery.thy ===== *)
theory Crash_Recovery
  imports Recovery_Props
begin

text \<open>
  The log and the recovery together: what a process wrote is what the next process applies. The
  theorems are about complete runs of \<^verbatim>\<open>Recover\<close>, from the construction of the manager on the disk
  the writes left to the result it returns.
\<close>

text \<open>A restart at which nothing fails: the file is read as it is, the context is not cancelled.\<close>

definition healthy :: "(bytes \<Rightarrow> go_error + wal_entry) \<Rightarrow> (int \<Rightarrow> string) \<Rightarrow> recover_env \<Rightarrow> bool" where
  "healthy unm wt env \<longleftrightarrow>
     rv_read env = disk_read \<and> rv_unmarshal env = unm \<and> rv_wall env = wt \<and>
     rv_ctx env = (\<lambda>i. None) \<and> rv_open env = None"

lemma new_manager_shape:
  assumes "NewRecoveryManager ne wp [] mw ci d = (d2, Inr m2)"
  shows "0 < rm_maxWorkers m2" "\<not> rm_closed m2" "rm_checkpointPath m2 = []" "rm_sequence m2 = 0"
    "rm_skippedEntries m2 = 0" "rm_corruptedSize m2 = 0" "wd_wal d = Some bs \<Longrightarrow> wd_wal d2 = Some bs"
  using assms
  by (auto simp: NewRecoveryManager_def Let_def DefaultMaxReplayWorkers_def
      split: if_split_asm option.split_asm)

lemma prepare_clean:
  assumes "NewRecoveryManager ne wp [] mw ci d = (d2, Inr m2)" and "healthy unm wt env"
    and "wd_wal d = Some bs" and "scan_disk unm wt 0 0 bs empty_scan = (s, None)"
  shows "\<exists>m1. recover_prepare env m2 d2 = (m1, Inr (sc_entries s)) \<and> rm_sequence m1 = 0 \<and>
    rm_skippedEntries m1 = sc_skippedEntries s"
  using assms(2,4) new_manager_shape [OF assms(1)] assms(3)
  by (simp add: recover_prepare_def findLatestCheckpoint_def replayWAL_def healthy_def empty_scan_def)

lemma last_sequence:
  assumes "map we_Sequence es = map (\<lambda>i. 1 + of_nat i) [0..<n]" and "es \<noteq> []"
  shows "we_Sequence (last es) = of_nat n"
proof -
  have n: "0 < n" using assms by (cases n) auto
  have "we_Sequence (last es) = last (map we_Sequence es)" using assms(2) by (simp add: last_map)
  also have "\<dots> = 1 + of_nat (n - 1)" using n by (simp add: assms(1) last_map)
  finally show ?thesis using n by (simp add: of_nat_diff)
qed

definition recovered_all ::
    "(wal_entry \<Rightarrow> 's \<Rightarrow> 's \<times> go_error option) \<Rightarrow> bool \<Rightarrow> wal_entry list \<Rightarrow> 's \<Rightarrow> 's \<Rightarrow>
     recovery_result \<Rightarrow> bool" where
  "recovered_all ap ordered es app app' res \<longleftrightarrow>
     rr_Success res \<and> rr_Errors res = [] \<and> rr_EntriesReplayed res = length es \<and>
     rr_EntriesSkipped res = 0 \<and>
     (\<exists>ps. mset ps = mset es \<and> app' = fold (\<lambda>e a. fst (ap e a)) ps app \<and> (ordered \<longrightarrow> ps = es))"

lemma finished_recovers:
  assumes "clean_run ap n es s" and "rreach ap False n es app s" and "rs_phase s = MDone"
    and "recover_finish duration es s m1 = (m2, res)" and "rm_skippedEntries m1 = 0"
  shows "recovered_all ap (n = 1) es app (rs_app s) res"
proof -
  have "rs_applied s = es" if "n = 1"
    by (rule single_worker_order [OF _ assms(3)]) (use assms(2) that in simp)
  then have "\<exists>ps. mset ps = mset es \<and> rs_app s = fold (\<lambda>e a. fst (ap e a)) ps app \<and> (n = 1 \<longrightarrow> ps = es)"
    using clean_done [OF assms(1,3)] app_log [OF assms(2)] by blast
  then show ?thesis
    using clean_done [OF assms(1,3)] assms(4,5)
    by (auto simp: recovered_all_def recover_finish_def Let_def)
qed


definition demo_env :: recover_env where
  "demo_env = \<lparr>rv_read = disk_read, rv_unmarshal = demo_unmarshal, rv_wall = demo_wt,
     rv_ctx = (\<lambda>i. None), rv_open = None, rv_unreadable = (\<lambda>f. False),
     rv_unmarshal_cp = (\<lambda>bs. Inl (Errorf ''bad'' None)), rv_readdir = None\<rparr>"


end
