(* ===== verification/L1.thy ===== *)
theory L1
  imports Go_Lib Hashes Tier_Spec "HOL-Library.Monad_Syntax"
begin

text \<open>
  The SSD tier (\<^verbatim>\<open>pkg/l1/l1_badger.go\<close>): a cache of shards, each a Badger database. Badger is
  not part of the repository: its calls are the fields of a record, over a type \<open>'db\<close> of database
  states, and \<open>badger_ok\<close> states the documented behaviour the code relies on. Each operation of
  the cache is one definition with its guards, its transaction and its counters; an operation
  holds one shard's lock from its lookup to its return, so it is one atomic step.
\<close>

subsection \<open>Badger\<close>

datatype compression = ZSTD | Snappy | NoCompression

record badger_opts =
  bo_Dir :: string
  bo_ValueDir :: string
  bo_SyncWrites :: bool
  bo_InMemory :: bool
  bo_Compression :: compression
  bo_MemTableSize :: int
  bo_NumGoroutines :: int
  bo_BlockCacheSize :: int

text \<open>The write of an update transaction: an entry with its expiry second (0 for none), or a delete.\<close>

datatype badger_write = SetEntry string bytes u64 | DeleteKey string

fun write_key :: "badger_write \<Rightarrow> string" where
  "write_key (SetEntry k v ex) = k"
| "write_key (DeleteKey k) = k"

text \<open>
  \<open>bd_View\<close>: the error of starting a read transaction, if any. \<open>bd_Get\<close>: the lookup in a
  transaction, then the copy of the item's value. \<open>bd_Update\<close>: a transaction with one write, to
  its commit. \<open>bd_Items\<close>: what an iterator over a transaction yields, in its order. Keys are Go
  strings; their conversion to bytes and back loses nothing.
\<close>

record 'db badger =
  bd_DefaultOptions :: "string \<Rightarrow> badger_opts"
  bd_Open :: "badger_opts \<Rightarrow> go_error + 'db"
  bd_ErrKeyNotFound :: go_error
  bd_View :: "'db \<Rightarrow> go_error option"
  bd_Get :: "go_time \<Rightarrow> string \<Rightarrow> 'db \<Rightarrow> go_error + (go_error + bytes)"
  bd_Update :: "badger_write \<Rightarrow> 'db \<Rightarrow> 'db \<times> go_error option"
  bd_Size :: "'db \<Rightarrow> int"
  bd_Sync :: "'db \<Rightarrow> 'db \<times> go_error option"
  bd_Close :: "'db \<Rightarrow> 'db \<times> go_error option"
  bd_Items :: "go_time \<Rightarrow> 'db \<Rightarrow> (string \<times> (go_error + bytes)) list"

text \<open>
  The documented behaviour: \<open>cont\<close> gives what a database holds, a value and its expiry second
  for each key. A lookup finds exactly the keys held and not expired (an entry expires when the
  clock's second reaches its expiry second), a committed write is applied, a failed one leaves
  the database as it was, syncing changes nothing.
\<close>

type_synonym contents = "string \<rightharpoonup> bytes \<times> u64"

fun live :: "go_time \<Rightarrow> bytes \<times> u64 \<Rightarrow> bool" where
  "live now (v, ex) \<longleftrightarrow> ex = 0 \<or> word_of_int (unix_sec now) < ex"

fun apply_write :: "badger_write \<Rightarrow> contents \<Rightarrow> contents" where
  "apply_write (SetEntry k v ex) m = m(k \<mapsto> (v, ex))"
| "apply_write (DeleteKey k) m = m(k := None)"

definition badger_ok :: "'db badger \<Rightarrow> ('db \<Rightarrow> contents) \<Rightarrow> bool" where
  "badger_ok B cont \<longleftrightarrow>
     (\<forall>now k db. (case bd_Get B now k db of
          Inr (Inr v) \<Rightarrow> (\<exists>ex. cont db k = Some (v, ex) \<and> live now (v, ex))
        | Inr (Inl e) \<Rightarrow> (\<exists>x. cont db k = Some x \<and> live now x)
        | Inl e \<Rightarrow> e = bd_ErrKeyNotFound B \<longrightarrow> (\<forall>x. cont db k = Some x \<longrightarrow> \<not> live now x))) \<and>
     (\<forall>w db db'. bd_Update B w db = (db', None) \<longrightarrow> cont db' = apply_write w (cont db)) \<and>
     (\<forall>w db db' e. bd_Update B w db = (db', Some e) \<longrightarrow> cont db' = cont db) \<and>
     (\<forall>db. cont (fst (bd_Sync B db)) = cont db)"

subsection \<open>State\<close>

record l1_stats =
  s1_Reads :: u64
  s1_Writes :: u64
  s1_Deletes :: u64
  s1_Hits :: u64
  s1_Misses :: u64
  s1_DiskUsage :: u64
  s1_Weight :: int

definition zero_l1_stats :: l1_stats where
  "zero_l1_stats =
     \<lparr>s1_Reads = 0, s1_Writes = 0, s1_Deletes = 0, s1_Hits = 0, s1_Misses = 0,
      s1_DiskUsage = 0, s1_Weight = 0\<rparr>"

record l1_config =
  c1_SSDPath :: string
  c1_ValueLogPath :: string
  c1_MaxCapacityGB :: f64
  c1_ShardCount :: u32
  c1_SyncMode :: string
  c1_SyncIntervalMs :: u32
  c1_Compression :: string
  c1_MaxTableSize :: int
  c1_NumGoroutines :: int
  c1_WALEnabled :: bool
  c1_BlockCacheSizeMB :: u32

record 'db badgerShard =
  bs_db :: 'db
  bs_index :: u32
  bs_weight :: int

record 'db l1_cache =
  l1_shards :: "'db badgerShard list"
  l1_shardCount :: u32
  l1_ssdPath :: string
  l1_vlogPath :: string
  l1_maxCapacity :: u64
  l1_syncMode :: string
  l1_syncInterval :: int
  l1_compression :: string
  l1_walEnabled :: bool
  l1_stats :: l1_stats
  l1_closed :: bool
  l1_cancelled :: bool

subsection \<open>Construction\<close>

definition DefaultL1ShardCount :: u32 where
  "DefaultL1ShardCount = 32"

text \<open>The outcome of \<^verbatim>\<open>os.MkdirAll\<close> for each path.\<close>

type_synonym mkdir_env = "string \<Rightarrow> go_error option"

definition shard_name :: "nat \<Rightarrow> string" where
  "shard_name i = ''shard_'' @ nat_digits i"

definition shard_opts :: "'db badger \<Rightarrow> l1_config \<Rightarrow> string \<Rightarrow> nat \<Rightarrow> badger_opts" where
  "shard_opts B cfg syncMode i =
     (let o0 = bd_DefaultOptions B (path_join [c1_SSDPath cfg, shard_name i]);
          o1 = (if c1_ValueLogPath cfg \<noteq> []
                then o0\<lparr>bo_ValueDir := path_join [c1_ValueLogPath cfg, shard_name i]\<rparr> else o0);
          o2 = (if syncMode = ''immediate'' then o1\<lparr>bo_SyncWrites := True\<rparr>
                else if syncMode = ''periodic'' then o1\<lparr>bo_SyncWrites := False\<rparr>
                else if syncMode = ''disabled'' then o1\<lparr>bo_SyncWrites := False, bo_InMemory := True\<rparr>
                else o1);
          o3 = o2\<lparr>bo_Compression := (if c1_Compression cfg = ''zstd'' then ZSTD
                  else if c1_Compression cfg = ''snappy'' then Snappy else NoCompression)\<rparr>;
          o4 = (if 0 < c1_MaxTableSize cfg then o3\<lparr>bo_MemTableSize := c1_MaxTableSize cfg\<rparr> else o3);
          o5 = (if 0 < c1_NumGoroutines cfg then o4\<lparr>bo_NumGoroutines := c1_NumGoroutines cfg\<rparr>
                else o4);
          blockCacheMB = (if c1_BlockCacheSizeMB cfg = 0 then 2048 else c1_BlockCacheSizeMB cfg)
      in o5\<lparr>bo_BlockCacheSize := uint blockCacheMB * 1024 * 1024\<rparr>)"

text \<open>
  The loop over the shards: \<open>acc\<close> holds those opened. A failure closes them and ends with the
  error and the closed databases.
\<close>

definition close_opened :: "'db badger \<Rightarrow> 'db badgerShard list \<Rightarrow> 'db list" where
  "close_opened B acc = map (\<lambda>s. fst (bd_Close B (bs_db s))) acc"

fun open_shards ::
    "'db badger \<Rightarrow> mkdir_env \<Rightarrow> l1_config \<Rightarrow> string \<Rightarrow> nat list \<Rightarrow> 'db badgerShard list \<Rightarrow>
     (go_error \<times> 'db list) + 'db badgerShard list" where
  "open_shards B mk cfg syncMode [] acc = Inr acc"
| "open_shards B mk cfg syncMode (i # is) acc =
     (case mk (path_join [c1_SSDPath cfg, shard_name i]) of
        Some e \<Rightarrow> Inl (Errorf ''failed to create shard directory: '' (Some e), close_opened B acc)
      | None \<Rightarrow>
     (case bd_Open B (shard_opts B cfg syncMode i) of
        Inl e \<Rightarrow> Inl (Errorf (''failed to open badger db for shard '' @ nat_digits i @ '': '') (Some e),
                    close_opened B acc)
      | Inr db \<Rightarrow> open_shards B mk cfg syncMode is
          (acc @ [\<lparr>bs_db = db, bs_index = of_nat i, bs_weight = 0\<rparr>])))"

definition gb_bytes :: "f64 \<Rightarrow> f64" where
  "gb_bytes x = f64_mul (f64_mul (f64_mul x (f64_of_int 1024)) (f64_of_int 1024)) (f64_of_int 1024)"

definition L1_New ::
    "'db badger \<Rightarrow> mkdir_env \<Rightarrow> (f64 \<Rightarrow> u64) \<Rightarrow> l1_config option \<Rightarrow>
     (go_error \<times> 'db list) + 'db l1_cache" where
  "L1_New B mk oor cfg0 =
     (case cfg0 of
        None \<Rightarrow> Inl (Errorf ''configuration cannot be nil'' None, [])
      | Some cfg \<Rightarrow>
        if c1_SSDPath cfg = [] then Inl (Errorf ''ssd_path cannot be empty'' None, [])
        else if f64_le (c1_MaxCapacityGB cfg) (F64 0) then
          Inl (Errorf ''max_capacity_gb must be greater than 0'' None, [])
        else
          let shardCount = (if c1_ShardCount cfg = 0 then DefaultL1ShardCount else c1_ShardCount cfg);
              maxCapacity = f64_to_u64 oor (gb_bytes (c1_MaxCapacityGB cfg))
          in (case mk (c1_SSDPath cfg) of
                Some e \<Rightarrow> Inl (Errorf ''failed to create ssd_path: '' (Some e), [])
              | None \<Rightarrow>
             (case (if c1_ValueLogPath cfg \<noteq> [] then mk (c1_ValueLogPath cfg) else None) of
                Some e \<Rightarrow> Inl (Errorf ''failed to create value_log_path: '' (Some e), [])
              | None \<Rightarrow>
             let syncMode = (if c1_SyncMode cfg \<noteq> [] then c1_SyncMode cfg else ''periodic'');
                 syncInterval = (if 0 < c1_SyncIntervalMs cfg
                   then uint (c1_SyncIntervalMs cfg) * 1000000 else 1000000000)
             in (case open_shards B mk cfg syncMode [0..<unat shardCount] [] of
                Inl failure \<Rightarrow> Inl failure
              | Inr shards \<Rightarrow>
                  Inr \<lparr>l1_shards = shards, l1_shardCount = shardCount, l1_ssdPath = c1_SSDPath cfg,
                       l1_vlogPath = c1_ValueLogPath cfg, l1_maxCapacity = maxCapacity,
                       l1_syncMode = syncMode, l1_syncInterval = syncInterval,
                       l1_compression = c1_Compression cfg, l1_walEnabled = c1_WALEnabled cfg,
                       l1_stats = zero_l1_stats, l1_closed = False, l1_cancelled = False\<rparr>))))"

subsection \<open>Shards and statistics\<close>

definition l1_index :: "u32 \<Rightarrow> string \<Rightarrow> nat" where
  "l1_index n key = unat (fnv32a (bytes_of key) mod n)"

definition l1_getShard :: "'db l1_cache \<Rightarrow> string \<Rightarrow> nat option" where
  "l1_getShard c key =
     (if l1_shardCount c = 0 then None
      else let i = l1_index (l1_shardCount c) key
           in if i < length (l1_shards c) then Some i else None)"

definition set_db :: "nat \<Rightarrow> 'db \<Rightarrow> 'db l1_cache \<Rightarrow> 'db l1_cache" where
  "set_db i db c = c\<lparr>l1_shards := (l1_shards c)[i := (l1_shards c ! i)\<lparr>bs_db := db\<rparr>]\<rparr>"

definition DiskUsage :: "'db badger \<Rightarrow> 'db l1_cache \<Rightarrow> u64" where
  "DiskUsage B c = word_of_int (\<Sum>s\<leftarrow>l1_shards c. bd_Size B (bs_db s))"

definition L1_UsageRatio :: "'db badger \<Rightarrow> 'db l1_cache \<Rightarrow> f64" where
  "L1_UsageRatio B c =
     (if l1_maxCapacity c = 0 then F64 0
      else f64_div (f64_of_int (uint (DiskUsage B c))) (f64_of_int (uint (l1_maxCapacity c))))"

definition L1_Weight :: "'db badger \<Rightarrow> 'db l1_cache \<Rightarrow> int" where
  "L1_Weight B c = uint (DiskUsage B c div 4096)"

definition L1_Stats :: "'db badger \<Rightarrow> 'db l1_cache \<Rightarrow> go_error + l1_stats" where
  "L1_Stats B c =
     (if l1_closed c then Inl (Errorf ''cache is closed'' None)
      else Inr ((l1_stats c)\<lparr>s1_DiskUsage := DiskUsage B c,
                             s1_Weight := (\<Sum>s\<leftarrow>l1_shards c. bs_weight s)\<rparr>))"

definition ShouldUseWAL :: "'db l1_cache \<Rightarrow> bool" where
  "ShouldUseWAL c = (if l1_syncMode c = ''immediate'' then False else l1_walEnabled c)"

definition count_l1 :: "(l1_stats \<Rightarrow> l1_stats) \<Rightarrow> 'db l1_cache \<Rightarrow> 'db l1_cache" where
  "count_l1 f c = c\<lparr>l1_stats := f (l1_stats c)\<rparr>"

subsection \<open>Keyed operations\<close>

text \<open>The transaction of \<^verbatim>\<open>Get\<close>: its result and the counters it changes.\<close>

definition get_txn ::
    "'db badger \<Rightarrow> go_time \<Rightarrow> string \<Rightarrow> 'db \<Rightarrow> l1_stats \<Rightarrow> (go_error + bytes) \<times> l1_stats" where
  "get_txn B now key db st =
     (case bd_View B db of
        Some e \<Rightarrow> (Inl e, st)
      | None \<Rightarrow>
     (case bd_Get B now key db of
        Inl e \<Rightarrow>
          if e = bd_ErrKeyNotFound B
          then (Inl (Errorf ''key not found'' None), st\<lparr>s1_Misses := s1_Misses st + 1\<rparr>)
          else (Inl e, st)
      | Inr (Inl e) \<Rightarrow> (Inl e, st)
      | Inr (Inr v) \<Rightarrow> (Inr v, st\<lparr>s1_Hits := s1_Hits st + 1\<rparr>)))"

definition L1_Get ::
    "'db badger \<Rightarrow> go_time \<Rightarrow> string \<Rightarrow> 'db l1_cache \<Rightarrow> ('db l1_cache \<times> (go_error + bytes)) option" where
  "L1_Get B now key c =
     (if l1_closed c then Some (c, Inl (Errorf ''cache is closed'' None))
      else if key = [] then Some (c, Inl (Errorf ''key cannot be empty'' None))
      else do {
        i \<leftarrow> l1_getShard c key;
        let (result, st) = get_txn B now key (bs_db (l1_shards c ! i)) (l1_stats c);
        Some (c\<lparr>l1_stats := st\<lparr>s1_Reads := s1_Reads st + 1\<rparr>\<rparr>, result)
      })"

definition expires_at :: "go_time \<Rightarrow> int \<Rightarrow> u64" where
  "expires_at now ttl = (if 0 < ttl then word_of_int (unix_sec (time_add now ttl)) else 0)"

definition L1_Set ::
    "'db badger \<Rightarrow> go_time \<Rightarrow> string \<Rightarrow> bytes \<Rightarrow> int \<Rightarrow> 'db l1_cache \<Rightarrow>
     ('db l1_cache \<times> go_error option) option" where
  "L1_Set B now key v ttl c =
     (if l1_closed c then Some (c, Some (Errorf ''cache is closed'' None))
      else if key = [] then Some (c, Some (Errorf ''key cannot be empty'' None))
      else if v = [] then Some (c, Some (Errorf ''value cannot be empty'' None))
      else if l1_maxCapacity c \<le> DiskUsage B c then
        Some (c, Some (Errorf ''cache is at capacity'' None))
      else do {
        i \<leftarrow> l1_getShard c key;
        let (db, e) = bd_Update B (SetEntry key v (expires_at now ttl)) (bs_db (l1_shards c ! i));
        Some (count_l1 (\<lambda>st. st\<lparr>s1_Writes := s1_Writes st + 1\<rparr>) (set_db i db c), e)
      })"

definition L1_Delete ::
    "'db badger \<Rightarrow> string \<Rightarrow> 'db l1_cache \<Rightarrow> ('db l1_cache \<times> go_error option) option" where
  "L1_Delete B key c =
     (if l1_closed c then Some (c, Some (Errorf ''cache is closed'' None))
      else if key = [] then Some (c, Some (Errorf ''key cannot be empty'' None))
      else do {
        i \<leftarrow> l1_getShard c key;
        let (db, e) = bd_Update B (DeleteKey key) (bs_db (l1_shards c ! i));
        Some (count_l1 (\<lambda>st. st\<lparr>s1_Deletes := s1_Deletes st + 1\<rparr>) (set_db i db c), e)
      })"

text \<open>\<^verbatim>\<open>Exists\<close> has no guard for the empty key and does not read the value.\<close>

definition L1_Exists ::
    "'db badger \<Rightarrow> go_time \<Rightarrow> string \<Rightarrow> 'db l1_cache \<Rightarrow> (bool \<times> go_error option) option" where
  "L1_Exists B now key c =
     (if l1_closed c then Some (False, Some (Errorf ''cache is closed'' None))
      else do {
        i \<leftarrow> l1_getShard c key;
        let db = bs_db (l1_shards c ! i);
        Some (case bd_View B db of
            Some e \<Rightarrow> (False, Some e)
          | None \<Rightarrow>
         (case bd_Get B now key db of
            Inr _ \<Rightarrow> (True, None)
          | Inl e \<Rightarrow> if e = bd_ErrKeyNotFound B then (False, None) else (False, Some e)))
      })"

definition L1_GetTier ::
    "'db badger \<Rightarrow> go_time \<Rightarrow> string \<Rightarrow> 'db l1_cache \<Rightarrow> (int \<times> go_error option) option" where
  "L1_GetTier B now key c =
     do {
       (found, err) \<leftarrow> L1_Exists B now key c;
       Some (case err of
           Some e \<Rightarrow> (0, Some e)
         | None \<Rightarrow> if \<not> found then (0, Some (Errorf ''key not found'' None)) else (1, None))
     }"

subsection \<open>Background synchronisation and closing\<close>

definition map_dbs :: "('db \<Rightarrow> 'db) \<Rightarrow> 'db l1_cache \<Rightarrow> 'db l1_cache" where
  "map_dbs f c = c\<lparr>l1_shards := map (\<lambda>s. s\<lparr>bs_db := f (bs_db s)\<rparr>) (l1_shards c)\<rparr>"

definition L1_sync :: "'db badger \<Rightarrow> 'db l1_cache \<Rightarrow> 'db l1_cache" where
  "L1_sync B c = map_dbs (\<lambda>db. fst (bd_Sync B db)) c"

text \<open>
  One round of the sync worker, started by \<^verbatim>\<open>New\<close> in periodic mode: \<open>None\<close> when the context is
  done (the worker returns), else the cache after a tick.
\<close>

definition sync_tick :: "'db badger \<Rightarrow> 'db l1_cache \<Rightarrow> 'db l1_cache option" where
  "sync_tick B c = (if l1_cancelled c then None else Some (L1_sync B c))"

definition close_errors :: "'db badger \<Rightarrow> 'db badgerShard list \<Rightarrow> go_error list" where
  "close_errors B shards =
     List.map_filter (\<lambda>s. map_option
         (\<lambda>e. Errorf (''shard '' @ fmt_d (uint (bs_index s)) @ '': '') (Some e))
         (snd (bd_Close B (bs_db s)))) shards"

definition L1_Close :: "'db badger \<Rightarrow> 'db l1_cache \<Rightarrow> 'db l1_cache \<times> go_error option" where
  "L1_Close B c =
     (if l1_closed c then (c, None)
      else
        let c1 = map_dbs (\<lambda>db. fst (bd_Close B db)) (c\<lparr>l1_closed := True, l1_cancelled := True\<rparr>);
            errs = close_errors B (l1_shards c)
        in (c1, if 0 < length errs then Some (ErrorfList ''errors closing shards: '' errs) else None))"

subsection \<open>Eviction candidates\<close>

text \<open>The inner loop takes keys of one transaction's iterator while fewer than \<open>cnt\<close> are collected.\<close>

fun take_keys :: "int \<Rightarrow> (string \<times> (go_error + bytes)) list \<Rightarrow> string list \<Rightarrow> string list" where
  "take_keys cnt [] acc = acc"
| "take_keys cnt (x # xs) acc =
     (if int (length acc) < cnt then take_keys cnt xs (acc @ [fst x]) else acc)"

fun l1_candidates ::
    "'db badger \<Rightarrow> go_time \<Rightarrow> int \<Rightarrow> 'db badgerShard list \<Rightarrow> string list \<Rightarrow>
     string list \<times> go_error option" where
  "l1_candidates B now cnt [] acc = (acc, None)"
| "l1_candidates B now cnt (s # ss) acc =
     (case bd_View B (bs_db s) of
        Some e \<Rightarrow> (acc, Some e)
      | None \<Rightarrow>
          let acc1 = take_keys cnt (bd_Items B now (bs_db s)) acc
          in if cnt \<le> int (length acc1) then (acc1, None) else l1_candidates B now cnt ss acc1)"

definition L1_EvictCandidates ::
    "'db badger \<Rightarrow> go_time \<Rightarrow> int \<Rightarrow> 'db l1_cache \<Rightarrow> string list \<times> go_error option" where
  "L1_EvictCandidates B now cnt c =
     (if l1_closed c then ([], Some (Errorf ''cache is closed'' None))
      else l1_candidates B now cnt (l1_shards c) [])"

subsection \<open>The iterator\<close>

text \<open>
  \<^verbatim>\<open>L1Iterator\<close>: the shard, the entries its current Badger iterator has yet to yield (the head
  is the current item; \<^verbatim>\<open>None\<close> before the first call), the flag, whether the current Badger
  iterator and transaction are still open, and how many transactions are open in all. An
  entry's value is what copying it returns.
\<close>

type_synonym item = "string \<times> (go_error + bytes)"

record l1_iter =
  it_shard :: u32
  it_rest :: "item list option"
  it_valid :: bool
  it_current_open :: bool
  it_open :: int

definition NewIterator :: l1_iter where
  "NewIterator = \<lparr>it_shard = 0, it_rest = None, it_valid = False, it_current_open = False, it_open = 0\<rparr>"

definition open_shard :: "item list \<Rightarrow> l1_iter \<Rightarrow> l1_iter" where
  "open_shard items it =
     it\<lparr>it_rest := Some items, it_current_open := True, it_open := it_open it + 1\<rparr>"

definition close_current :: "l1_iter \<Rightarrow> l1_iter" where
  "close_current it =
     (if it_current_open it then it\<lparr>it_current_open := False, it_open := it_open it - 1\<rparr> else it)"

definition shard_items :: "'db badger \<Rightarrow> go_time \<Rightarrow> 'db badgerShard \<Rightarrow> item list" where
  "shard_items B now s = bd_Items B now (bs_db s)"

function initShard ::
    "'db badger \<Rightarrow> go_time \<Rightarrow> 'db l1_cache \<Rightarrow> l1_iter \<Rightarrow> (l1_iter \<times> bool) option" where
  "initShard B now c it =
     (if it_shard it < l1_shardCount c then
        if unat (it_shard it) < length (l1_shards c) then
          let items = shard_items B now (l1_shards c ! unat (it_shard it));
              it1 = open_shard items it
          in if items \<noteq> [] then Some (it1\<lparr>it_valid := True\<rparr>, True)
             else initShard B now c ((close_current it1)\<lparr>it_shard := it_shard it + 1\<rparr>)
        else None
      else Some (it, False))"
  by pat_completeness auto
termination
  by (relation "measure (\<lambda>(B, now, c, it). unat (l1_shardCount c) - unat (it_shard it))")
    (auto simp: unat_succ_less word_less_nat_alt diff_less_mono2)

declare initShard.simps [simp del]

text \<open>Advancing a Badger iterator that is not on an item is outside its contract (\<^verbatim>\<open>None\<close>).\<close>

definition iter_Next ::
    "'db badger \<Rightarrow> go_time \<Rightarrow> 'db l1_cache \<Rightarrow> l1_iter \<Rightarrow> (l1_iter \<times> bool) option" where
  "iter_Next B now c it =
     (case it_rest it of
        None \<Rightarrow> initShard B now c it
      | Some [] \<Rightarrow> None
      | Some (x # xs) \<Rightarrow>
          let it1 = it\<lparr>it_rest := Some xs\<rparr>
          in if xs = [] then initShard B now c (it1\<lparr>it_shard := it_shard it1 + 1\<rparr>)
             else Some (it1\<lparr>it_valid := True\<rparr>, True))"

text \<open>The current item of an exhausted iterator is nil: reading it panics.\<close>

definition iter_Key :: "l1_iter \<Rightarrow> string option" where
  "iter_Key it =
     (if \<not> it_valid it then Some []
      else case it_rest it of Some (x # xs) \<Rightarrow> Some (fst x) | _ \<Rightarrow> None)"

definition iter_Value :: "l1_iter \<Rightarrow> (go_error + bytes) option" where
  "iter_Value it =
     (if \<not> it_valid it then Some (Inl (Errorf ''iterator not valid'' None))
      else case it_rest it of Some (x # xs) \<Rightarrow> Some (snd x) | _ \<Rightarrow> None)"

definition iter_Close :: "l1_iter \<Rightarrow> l1_iter" where
  "iter_Close it = close_current it"

text \<open>What is left to yield: the rest of the current shard and the shards after it.\<close>

definition items_from :: "'db badger \<Rightarrow> go_time \<Rightarrow> 'db l1_cache \<Rightarrow> nat \<Rightarrow> item list" where
  "items_from B now c n = concat (map (shard_items B now) (drop n (l1_shards c)))"

definition iter_left :: "'db badger \<Rightarrow> go_time \<Rightarrow> 'db l1_cache \<Rightarrow> l1_iter \<Rightarrow> item list" where
  "iter_left B now c it =
     (case it_rest it of
        None \<Rightarrow> items_from B now c (unat (it_shard it))
      | Some xs \<Rightarrow> xs @ items_from B now c (Suc (unat (it_shard it))))"

lemma items_from_step:
  "n < length (l1_shards c) \<Longrightarrow>
   items_from B now c n = shard_items B now (l1_shards c ! n) @ items_from B now c (Suc n)"
  by (simp add: items_from_def Cons_nth_drop_Suc [symmetric])

lemma items_from_end: "length (l1_shards c) \<le> n \<Longrightarrow> items_from B now c n = []"
  by (simp add: items_from_def)

text \<open>Where \<open>initShard\<close> stops: at the next shard that has items, or past the last shard.\<close>

lemma initShard_True:
  assumes "initShard B now c it = Some (it', True)"
  shows "it_valid it' \<and> it_current_open it' \<and> it_shard it' < l1_shardCount c \<and>
    (\<exists>x xs. it_rest it' = Some (x # xs)) \<and>
    iter_left B now c it' = items_from B now c (unat (it_shard it))"
  using assms
proof (induction B now c it rule: initShard.induct)
  case (1 B now c it)
  define items where "items = shard_items B now (l1_shards c ! unat (it_shard it))"
  have b: "it_shard it < l1_shardCount c" "unat (it_shard it) < length (l1_shards c)"
    using "1.prems" by (auto simp: initShard.simps [of B now c it] split: if_split_asm)
  have suc: "unat (it_shard it + 1) = Suc (unat (it_shard it))"
    by (rule unat_succ_less [OF b(1)])
  show ?case
  proof (cases "items = []")
    case True
    have "initShard B now c ((close_current (open_shard items it))\<lparr>it_shard := it_shard it + 1\<rparr>) =
        Some (it', True)"
      using "1.prems" b True unfolding initShard.simps [of B now c it] Let_def items_def by simp
    from "1.IH" [OF b, unfolded items_def [symmetric], OF refl refl _ this] True
    show ?thesis using items_from_step [OF b(2), of B now] by (simp add: suc items_def)
  next
    case False
    then have "it' = (open_shard items it)\<lparr>it_valid := True\<rparr>"
      using "1.prems" b unfolding initShard.simps [of B now c it] Let_def items_def by simp
    moreover obtain x xs where "items = x # xs" using False by (cases items) auto
    ultimately show ?thesis
      using items_from_step [OF b(2), of B now] b(1) by (simp add: open_shard_def iter_left_def items_def)
  qed
qed

lemma initShard_total:
  assumes "length (l1_shards c) = unat (l1_shardCount c)"
  shows "\<exists>it' b. initShard B now c it = Some (it', b)"
  using assms
proof (induction B now c it rule: initShard.induct)
  case (1 B now c it)
  then show ?case
    by (subst initShard.simps) (auto simp: Let_def word_less_nat_alt)
qed

lemma initShard_False:
  assumes "initShard B now c it = Some (it', False)"
    and "length (l1_shards c) = unat (l1_shardCount c)"
  shows "items_from B now c (unat (it_shard it)) = []"
  using assms
proof (induction B now c it rule: initShard.induct)
  case (1 B now c it)
  show ?case
  proof (cases "it_shard it < l1_shardCount c")
    case False
    then show ?thesis using "1.prems" by (simp add: items_from_end word_less_nat_alt not_less)
  next
    case True
    then have b: "unat (it_shard it) < length (l1_shards c)"
      using "1.prems"(2) by (simp add: word_less_nat_alt)
    define items where "items = shard_items B now (l1_shards c ! unat (it_shard it))"
    have e: "items = []"
      using "1.prems"(1) True b unfolding initShard.simps [of B now c it] Let_def items_def
      by (auto split: if_split_asm)
    have "initShard B now c ((close_current (open_shard items it))\<lparr>it_shard := it_shard it + 1\<rparr>) =
        Some (it', False)"
      using "1.prems"(1) True b e unfolding initShard.simps [of B now c it] Let_def items_def by simp
    from "1.IH" [OF True b, unfolded items_def [symmetric], OF refl refl _ this "1.prems"(2)] e
    show ?thesis
      using items_from_step [OF b, of B now] by (simp add: unat_succ_less [OF True] items_def)
  qed
qed

end
