(* ===== verification/L1_Props.thy ===== *)
theory L1_Props
  imports L1
begin

text \<open>
  What the SSD tier guarantees over a Badger that behaves as documented: the tier contract, the
  expiry of entries, the set of shards after a construction that failed or succeeded, the
  completeness of an iteration and of the eviction candidates.
\<close>

subsection \<open>The tier contract\<close>

definition l1_inv :: "'db l1_cache \<Rightarrow> bool" where
  "l1_inv c \<longleftrightarrow> l1_shardCount c \<noteq> 0 \<and> length (l1_shards c) = unat (l1_shardCount c)"

text \<open>The entry a cache holds for a key: that of the key's shard.\<close>

definition l1_entry :: "('db \<Rightarrow> contents) \<Rightarrow> 'db l1_cache \<Rightarrow> contents" where
  "l1_entry cont c k = cont (bs_db (l1_shards c ! l1_index (l1_shardCount c) k)) k"

definition l1_stored :: "('db \<Rightarrow> contents) \<Rightarrow> 'db l1_cache \<Rightarrow> string \<rightharpoonup> bytes" where
  "l1_stored cont c k = map_option fst (l1_entry cont c k)"

lemma l1_index_less: "n \<noteq> 0 \<Longrightarrow> l1_index n k < unat n"
  by (simp add: l1_index_def word_mod_less_divisor word_gt_0 unat_mono)

lemma l1_getShard_inv: "l1_inv c \<Longrightarrow> l1_getShard c k = Some (l1_index (l1_shardCount c) k)"
  by (simp add: l1_inv_def l1_getShard_def Let_def l1_index_less)

lemma l1_inv_set_db [simp]: "l1_inv (set_db i db c) = l1_inv c"
  by (simp add: l1_inv_def set_db_def)

lemma l1_inv_count [simp]: "l1_inv (count_l1 f c) = l1_inv c" "l1_inv (l1_stats_update g c) = l1_inv c"
  by (simp_all add: l1_inv_def count_l1_def)

lemma l1_entry_count [simp]:
  "l1_entry cont (count_l1 f c) = l1_entry cont c" "l1_entry cont (l1_stats_update g c) = l1_entry cont c"
  by (simp_all add: l1_entry_def count_l1_def fun_eq_iff)

text \<open>Writing one key of a shard's database changes that key of the cache and no other.\<close>

lemma l1_entry_write:
  assumes "l1_inv c" and "cont db = apply_write w (cont (bs_db (l1_shards c ! l1_index (l1_shardCount c) k)))"
    and "write_key w = k"
  shows "l1_entry cont (set_db (l1_index (l1_shardCount c) k) db c) = apply_write w (l1_entry cont c)"
proof -
  have i: "l1_index (l1_shardCount c) k < length (l1_shards c)"
    using assms(1) by (simp add: l1_inv_def l1_index_less)
  show ?thesis
  proof
    fix x
    show "l1_entry cont (set_db (l1_index (l1_shardCount c) k) db c) x = apply_write w (l1_entry cont c) x"
      using assms(2,3) i
      by (cases w; cases "l1_index (l1_shardCount c) x = l1_index (l1_shardCount c) k")
        (auto simp: l1_entry_def set_db_def)
  qed
qed

lemma l1_entry_same:
  assumes "l1_inv c" and "cont db = cont (bs_db (l1_shards c ! i))"
  shows "l1_entry cont (set_db i db c) = l1_entry cont c"
proof
  fix x
  show "l1_entry cont (set_db i db c) x = l1_entry cont c x"
    using assms by (cases "l1_index (l1_shardCount c) x = i")
      (auto simp: l1_entry_def set_db_def l1_inv_def l1_index_less)
qed

lemma badger_get_value:
  "badger_ok B cont \<Longrightarrow> bd_Get B now k db = Inr (Inr v) \<Longrightarrow>
   \<exists>ex. cont db k = Some (v, ex) \<and> live now (v, ex)"
  unfolding badger_ok_def by (drule conjunct1, drule spec [of _ now], drule spec [of _ k],
    drule spec [of _ db]) simp

lemma badger_get_missing:
  "badger_ok B cont \<Longrightarrow> bd_Get B now k db = Inl (bd_ErrKeyNotFound B) \<Longrightarrow> cont db k = Some x \<Longrightarrow>
   \<not> live now x"
  unfolding badger_ok_def by (drule conjunct1, drule spec [of _ now], drule spec [of _ k],
    drule spec [of _ db]) simp

lemma badger_committed:
  "badger_ok B cont \<Longrightarrow> bd_Update B w db = (db', None) \<Longrightarrow> cont db' = apply_write w (cont db)"
  by (simp add: badger_ok_def)

lemma badger_aborted: "badger_ok B cont \<Longrightarrow> bd_Update B w db = (db', Some e) \<Longrightarrow> cont db' = cont db"
  unfolding badger_ok_def by blast

lemma L1_Get_shape:
  assumes "l1_inv c"
  shows "\<exists>st r. L1_Get B now k c = Some (c\<lparr>l1_stats := st\<rparr>, r) \<and>
    (\<forall>v. r = Inr v \<longrightarrow> \<not> l1_closed c \<and> k \<noteq> [] \<and>
       bd_Get B now k (bs_db (l1_shards c ! l1_index (l1_shardCount c) k)) = Inr (Inr v))"
proof (cases "l1_closed c \<or> k = []")
  case True
  then have "\<exists>e. L1_Get B now k c = Some (c, Inl e)"
    by (cases "l1_closed c") (simp_all add: L1_Get_def)
  then obtain e where "L1_Get B now k c = Some (c, Inl e)" by blast
  then have "L1_Get B now k c = Some (c\<lparr>l1_stats := l1_stats c\<rparr>, Inl e)" by simp
  then show ?thesis by blast
next
  case False
  define db where "db = bs_db (l1_shards c ! l1_index (l1_shardCount c) k)"
  obtain r st where t: "get_txn B now k db (l1_stats c) = (r, st)" by fastforce
  then have "\<forall>v. r = Inr v \<longrightarrow> bd_Get B now k db = Inr (Inr v)"
    by (auto simp: get_txn_def split: option.splits sum.splits if_splits)
  moreover have "L1_Get B now k c = Some (c\<lparr>l1_stats := st\<lparr>s1_Reads := s1_Reads st + 1\<rparr>\<rparr>, r)"
    using False t by (simp add: L1_Get_def l1_getShard_inv [OF assms] db_def)
  ultimately show ?thesis using False unfolding db_def by blast
qed

lemma l1_get_value:
  assumes "badger_ok B cont" and "l1_inv c" and "L1_Get B now k c = Some (c', Inr v)"
  shows "\<exists>ex. l1_entry cont c k = Some (v, ex) \<and> live now (v, ex)"
proof -
  have "bd_Get B now k (bs_db (l1_shards c ! l1_index (l1_shardCount c) k)) = Inr (Inr v)"
    using L1_Get_shape [OF assms(2), of B now k] assms(3) by auto
  from badger_get_value [OF assms(1) this] show ?thesis by (simp add: l1_entry_def)
qed

text \<open>A write either is refused by a guard, or its transaction aborts, or it is applied.\<close>

definition wrote :: "('db \<Rightarrow> contents) \<Rightarrow> badger_write \<Rightarrow> 'db l1_cache \<Rightarrow> 'db l1_cache \<Rightarrow>
    go_error option \<Rightarrow> bool" where
  "wrote cont w c c' e \<longleftrightarrow> l1_inv c' \<and>
     (case e of None \<Rightarrow> l1_entry cont c' = apply_write w (l1_entry cont c)
      | Some _ \<Rightarrow> l1_entry cont c' = l1_entry cont c)"

lemma update_wrote:
  assumes "badger_ok B cont" and "l1_inv c"
    and "bd_Update B w (bs_db (l1_shards c ! l1_index (l1_shardCount c) (write_key w))) = (db, e)"
  shows "wrote cont w c (count_l1 f (set_db (l1_index (l1_shardCount c) (write_key w)) db c)) e"
proof (cases e)
  case None
  with badger_committed [OF assms(1)] assms(3) have
    "cont db = apply_write w (cont (bs_db (l1_shards c ! l1_index (l1_shardCount c) (write_key w))))"
    by blast
  from l1_entry_write [OF assms(2) this refl] show ?thesis
    using assms(2) None by (simp add: wrote_def)
next
  case (Some x)
  with badger_aborted [OF assms(1)] assms(3) have
    "cont db = cont (bs_db (l1_shards c ! l1_index (l1_shardCount c) (write_key w)))" by blast
  from l1_entry_same [OF assms(2) this] show ?thesis using assms(2) Some by (simp add: wrote_def)
qed

lemma L1_Set_wrote:
  assumes "badger_ok B cont" and "l1_inv c"
  shows "\<exists>c' e. L1_Set B now k v ttl c = Some (c', e) \<and>
    wrote cont (SetEntry k v (expires_at now ttl)) c c' e"
proof -
  obtain db e where u: "bd_Update B (SetEntry k v (expires_at now ttl))
      (bs_db (l1_shards c ! l1_index (l1_shardCount c) k)) = (db, e)" by fastforce
  from update_wrote [OF assms, of "SetEntry k v (expires_at now ttl)" db e] u show ?thesis
    using assms(2) by (simp add: L1_Set_def l1_getShard_inv wrote_def)
qed

lemma L1_Delete_wrote:
  assumes "badger_ok B cont" and "l1_inv c"
  shows "\<exists>c' e. L1_Delete B k c = Some (c', e) \<and> wrote cont (DeleteKey k) c c' e"
proof -
  obtain db e where u: "bd_Update B (DeleteKey k)
      (bs_db (l1_shards c ! l1_index (l1_shardCount c) k)) = (db, e)" by fastforce
  from update_wrote [OF assms, of "DeleteKey k" db e] u show ?thesis
    using assms(2) by (simp add: L1_Delete_def l1_getShard_inv wrote_def)
qed

lemma wrote_stored:
  "wrote cont (SetEntry k v ex) c c' None \<Longrightarrow> l1_stored cont c' = (l1_stored cont c)(k \<mapsto> v)"
  "wrote cont (DeleteKey k) c c' None \<Longrightarrow> l1_stored cont c' = (l1_stored cont c)(k := None)"
  "wrote cont w c c' (Some e) \<Longrightarrow> l1_stored cont c' = l1_stored cont c"
  "wrote cont w c c' r \<Longrightarrow> l1_inv c'"
  by (auto simp: wrote_def l1_stored_def fun_eq_iff)

lemma l1_cache_tier:
  fixes B :: "'db badger"
  assumes "badger_ok B cont"
  shows "cache_tier l1_inv (l1_stored cont) (L1_Get B) (L1_Set B) (L1_Delete B)"
proof
  fix s s' :: "'db l1_cache" and now k v ttl e r
  assume inv: "l1_inv s"
  show "\<exists>s' r. L1_Get B now k s = Some (s', r)" using L1_Get_shape [OF inv] by blast
  show "l1_inv s' \<and> l1_stored cont s' \<subseteq>\<^sub>m l1_stored cont s" if "L1_Get B now k s = Some (s', r)"
    using L1_Get_shape [OF inv, of B now k] that inv by (auto simp: l1_stored_def [abs_def] map_le_def)
  show "l1_stored cont s k = Some v" if "L1_Get B now k s = Some (s', Inr v)"
    using l1_get_value [OF assms inv that] by (auto simp: l1_stored_def)
  obtain cs es where st: "L1_Set B now k v ttl s = Some (cs, es)"
      "wrote cont (SetEntry k v (expires_at now ttl)) s cs es"
    using L1_Set_wrote [OF assms inv] by blast
  show "\<exists>s' e. L1_Set B now k v ttl s = Some (s', e)" using st by blast
  show "l1_inv s' \<and> l1_stored cont s' k = Some v \<and> l1_stored cont s' \<subseteq>\<^sub>m (l1_stored cont s)(k \<mapsto> v)"
    if "L1_Set B now k v ttl s = Some (s', None)"
    using st that by (simp add: wrote_stored(1) wrote_stored(4) [of cont _ s cs])
  show "l1_inv s' \<and> l1_stored cont s' \<subseteq>\<^sub>m l1_stored cont s"
    if "L1_Set B now k v ttl s = Some (s', Some e)"
    using st that by (auto simp: wrote_stored(3) wrote_stored(4))
  obtain cd ed where dl: "L1_Delete B k s = Some (cd, ed)" "wrote cont (DeleteKey k) s cd ed"
    using L1_Delete_wrote [OF assms inv] by blast
  show "\<exists>s' e. L1_Delete B k s = Some (s', e)" using dl by blast
  show "l1_inv s' \<and> l1_stored cont s' \<subseteq>\<^sub>m (l1_stored cont s)(k := None)"
    if "L1_Delete B k s = Some (s', None)"
    using dl that by (simp add: wrote_stored(2) wrote_stored(4) [of cont _ s cd])
  show "l1_inv s' \<and> l1_stored cont s' \<subseteq>\<^sub>m l1_stored cont s" if "L1_Delete B k s = Some (s', Some e)"
    using dl that by (auto simp: wrote_stored(3) wrote_stored(4))
qed

subsection \<open>A database in memory\<close>

text \<open>A concrete Badger for the witnesses: an association list that satisfies \<open>badger_ok\<close>.\<close>

type_synonym mem_db = "(string \<times> bytes \<times> u64) list"

definition mem_err :: go_error where
  "mem_err = Errorf ''Key not found'' None"

definition mem_badger :: "mem_db badger" where
  "mem_badger =
     \<lparr>bd_DefaultOptions = (\<lambda>p. \<lparr>bo_Dir = p, bo_ValueDir = p, bo_SyncWrites = False,
        bo_InMemory = False, bo_Compression = Snappy, bo_MemTableSize = 67108864,
        bo_NumGoroutines = 8, bo_BlockCacheSize = 268435456\<rparr>),
      bd_Open = (\<lambda>o'. if bo_InMemory o' \<and> bo_Dir o' \<noteq> []
        then Inl (Errorf ''Cannot use badger in Disk-less mode with Dir or ValueDir set'' None)
        else Inr []),
      bd_ErrKeyNotFound = mem_err,
      bd_View = (\<lambda>db. None),
      bd_Get = (\<lambda>now k db. case map_of db k of None \<Rightarrow> Inl mem_err
        | Some x \<Rightarrow> if live now x then Inr (Inr (fst x)) else Inl mem_err),
      bd_Update = (\<lambda>w db. (case w of SetEntry k v ex \<Rightarrow> AList.update k (v, ex) db
        | DeleteKey k \<Rightarrow> AList.delete k db, None)),
      bd_Size = (\<lambda>db. int (length db)),
      bd_Sync = (\<lambda>db. (db, None)),
      bd_Close = (\<lambda>db. (db, None)),
      bd_Items = (\<lambda>now db. map (\<lambda>(k, v, ex). (k, Inr v)) (filter (\<lambda>(k, x). live now x) db))\<rparr>"

lemma mem_badger_ok: "badger_ok mem_badger map_of"
  by (auto simp: badger_ok_def mem_badger_def split: option.splits badger_write.splits)

definition small_l1_config :: l1_config where
  "small_l1_config = \<lparr>c1_SSDPath = ''ssd'', c1_ValueLogPath = [], c1_MaxCapacityGB = F64 1,
     c1_ShardCount = 2, c1_SyncMode = ''immediate'', c1_SyncIntervalMs = 0, c1_Compression = ''zstd'',
     c1_MaxTableSize = 0, c1_NumGoroutines = 0, c1_WALEnabled = True, c1_BlockCacheSizeMB = 0\<rparr>"

definition mem_l1 :: "mem_db list \<Rightarrow> mem_db l1_cache" where
  "mem_l1 dbs = \<lparr>l1_shards = map (\<lambda>(i, db). \<lparr>bs_db = db, bs_index = of_nat i, bs_weight = 0\<rparr>)
       (zip [0..<length dbs] dbs), l1_shardCount = of_nat (length dbs), l1_ssdPath = ''ssd'',
     l1_vlogPath = [], l1_maxCapacity = 1073741824, l1_syncMode = ''immediate'',
     l1_syncInterval = 1000000000, l1_compression = ''zstd'', l1_walEnabled = True,
     l1_stats = zero_l1_stats, l1_closed = False, l1_cancelled = False\<rparr>"

subsection \<open>Construction\<close>

definition shard_dbs :: "'db badger \<Rightarrow> l1_config \<Rightarrow> string \<Rightarrow> nat list \<Rightarrow> 'db list \<Rightarrow> bool" where
  "shard_dbs B cfg sm is dbs \<longleftrightarrow> map Inr dbs = map (\<lambda>i. bd_Open B (shard_opts B cfg sm i)) is"

lemma open_shards_shape:
  "open_shards B mk cfg sm is acc = r \<Longrightarrow>
   (case r of
      Inr shards \<Rightarrow> \<exists>dbs. map bs_db shards = map bs_db acc @ dbs \<and> shard_dbs B cfg sm is dbs
    | Inl (e, gone) \<Rightarrow> \<exists>dbs. gone = close_opened B acc @ map (\<lambda>db. fst (bd_Close B db)) dbs \<and>
        shard_dbs B cfg sm (take (length dbs) is) dbs \<and> length dbs < length is)"
proof (induction "is" arbitrary: acc)
  case Nil
  then show ?case by (auto simp: shard_dbs_def)
next
  case (Cons i "is")
  show ?case
  proof (cases "mk (path_join [c1_SSDPath cfg, shard_name i]) = None \<and>
      (\<exists>db. bd_Open B (shard_opts B cfg sm i) = Inr db)")
    case False
    then have "\<exists>e. r = Inl (e, close_opened B acc)"
      using Cons.prems by (auto split: option.splits sum.splits)
    then show ?thesis by (auto simp: shard_dbs_def intro: exI [of _ "[]"])
  next
    case True
    then obtain db where db: "bd_Open B (shard_opts B cfg sm i) = Inr db" by blast
    define acc1 where "acc1 = acc @ [\<lparr>bs_db = db, bs_index = of_nat i, bs_weight = 0\<rparr>]"
    have "open_shards B mk cfg sm is acc1 = r"
      using Cons.prems True db by (simp add: acc1_def)
    note IH = Cons.IH [OF this]
    show ?thesis
    proof (cases r)
      case (Inl p)
      obtain e gone where p: "p = (e, gone)" by fastforce
      from IH Inl p obtain dbs where
        "gone = close_opened B acc1 @ map (\<lambda>db. fst (bd_Close B db)) dbs"
        "shard_dbs B cfg sm (take (length dbs) is) dbs" "length dbs < length is"
        by auto
      then have "gone = close_opened B acc @ map (\<lambda>db. fst (bd_Close B db)) (db # dbs) \<and>
          shard_dbs B cfg sm (take (length (db # dbs)) (i # is)) (db # dbs) \<and>
          length (db # dbs) < length (i # is)"
        using db by (simp add: close_opened_def shard_dbs_def acc1_def)
      then show ?thesis unfolding Inl p sum.case prod.case by (rule exI [of _ "db # dbs"])
    next
      case (Inr shards)
      from IH Inr obtain dbs where "map bs_db shards = map bs_db acc1 @ dbs" "shard_dbs B cfg sm is dbs"
        by auto
      then have "map bs_db shards = map bs_db acc @ (db # dbs) \<and> shard_dbs B cfg sm (i # is) (db # dbs)"
        using db by (simp add: shard_dbs_def acc1_def)
      then show ?thesis unfolding Inr sum.case by (rule exI [of _ "db # dbs"])
    qed
  qed
qed

definition l1_count :: "l1_config \<Rightarrow> u32" where
  "l1_count cfg = (if c1_ShardCount cfg = 0 then DefaultL1ShardCount else c1_ShardCount cfg)"

definition l1_mode :: "l1_config \<Rightarrow> string" where
  "l1_mode cfg = (if c1_SyncMode cfg \<noteq> [] then c1_SyncMode cfg else ''periodic'')"

lemma l1_count_nonzero [simp]: "l1_count cfg \<noteq> 0"
  by (simp add: l1_count_def DefaultL1ShardCount_def)

lemma shard_dbs_upt:
  "shard_dbs B cfg sm [0..<n] dbs \<longleftrightarrow>
   length dbs = n \<and> (\<forall>i < n. bd_Open B (shard_opts B cfg sm i) = Inr (dbs ! i))"
proof -
  have "map Inr dbs = map f [0..<n] \<longleftrightarrow> length dbs = n \<and> (\<forall>i < n. f i = Inr (dbs ! i))"
    for f :: "nat \<Rightarrow> go_error + 'a"
    unfolding list_eq_iff_nth_eq [of "map Inr dbs" "map f [0..<n]"] by (auto dest: sym)
  then show ?thesis unfolding shard_dbs_def .
qed

text \<open>Construction past the guards is the loop over the shards.\<close>

lemma L1_New_cases:
  obtains (refused) e where "L1_New B mk oor (Some cfg) = Inl (e, [])"
  | (failed) e gone where "L1_New B mk oor (Some cfg) = Inl (e, gone)"
      "open_shards B mk cfg (l1_mode cfg) [0..<unat (l1_count cfg)] [] = Inl (e, gone)"
  | (opened) c where "L1_New B mk oor (Some cfg) = Inr c"
      "open_shards B mk cfg (l1_mode cfg) [0..<unat (l1_count cfg)] [] = Inr (l1_shards c)"
      "l1_shardCount c = l1_count cfg" "l1_syncMode c = l1_mode cfg" "\<not> l1_closed c"
      "l1_maxCapacity c = f64_to_u64 oor (gb_bytes (c1_MaxCapacityGB cfg))"
      "l1_walEnabled c = c1_WALEnabled cfg" "c1_SSDPath cfg \<noteq> []" "\<not> f64_le (c1_MaxCapacityGB cfg) (F64 0)"
proof -
  consider (r) e where "L1_New B mk oor (Some cfg) = Inl (e, [])"
    | (o) "c1_SSDPath cfg \<noteq> []" "\<not> f64_le (c1_MaxCapacityGB cfg) (F64 0)" "mk (c1_SSDPath cfg) = None"
        "(if c1_ValueLogPath cfg \<noteq> [] then mk (c1_ValueLogPath cfg) else None) = None"
  proof (cases "c1_SSDPath cfg \<noteq> [] \<and> \<not> f64_le (c1_MaxCapacityGB cfg) (F64 0) \<and>
      mk (c1_SSDPath cfg) = None \<and>
      (if c1_ValueLogPath cfg \<noteq> [] then mk (c1_ValueLogPath cfg) else None) = None")
    case True
    then show ?thesis by (intro o) blast+
  next
    case False
    then consider "c1_SSDPath cfg = []" | "f64_le (c1_MaxCapacityGB cfg) (F64 0)"
      | e where "mk (c1_SSDPath cfg) = Some e"
      | e where "(if c1_ValueLogPath cfg \<noteq> [] then mk (c1_ValueLogPath cfg) else None) = Some e"
      by fastforce
    then have "\<exists>e. L1_New B mk oor (Some cfg) = Inl (e, [])"
    proof cases
      case 4
      then show ?thesis
        by (cases "mk (c1_SSDPath cfg)") (simp_all add: L1_New_def Let_def split: if_split_asm)
    qed (simp_all add: L1_New_def)
    then show ?thesis using r by blast
  qed
  then show thesis
  proof cases
    case r
    then show thesis by (rule refused)
  next
    case o
    define sh where "sh = open_shards B mk cfg (l1_mode cfg) [0..<unat (l1_count cfg)] []"
    have new: "L1_New B mk oor (Some cfg) = (case sh of Inl failure \<Rightarrow> Inl failure
       | Inr shards \<Rightarrow> Inr \<lparr>l1_shards = shards, l1_shardCount = l1_count cfg,
           l1_ssdPath = c1_SSDPath cfg, l1_vlogPath = c1_ValueLogPath cfg,
           l1_maxCapacity = f64_to_u64 oor (gb_bytes (c1_MaxCapacityGB cfg)),
           l1_syncMode = l1_mode cfg, l1_syncInterval = (if 0 < c1_SyncIntervalMs cfg
             then uint (c1_SyncIntervalMs cfg) * 1000000 else 1000000000),
           l1_compression = c1_Compression cfg, l1_walEnabled = c1_WALEnabled cfg,
           l1_stats = zero_l1_stats, l1_closed = False, l1_cancelled = False\<rparr>)"
      unfolding L1_New_def sh_def Let_def l1_mode_def l1_count_def option.case
      by (simp only: o if_False option.case)
    show thesis
    proof (cases sh)
      case (Inl p)
      then show thesis using new failed [of "fst p" "snd p"] by (simp add: sh_def)
    next
      case (Inr shards)
      then show thesis using new o by (intro opened) (auto simp: sh_def)
    qed
  qed
qed

lemma opened_shards:
  assumes "open_shards B mk cfg sm [0..<n] [] = Inr shards"
  shows "length shards = n \<and> (\<forall>i < n. bd_Open B (shard_opts B cfg sm i) = Inr (bs_db (shards ! i)))"
proof -
  obtain dbs where d: "map bs_db shards = dbs" "shard_dbs B cfg sm [0..<n] dbs"
    using open_shards_shape [OF assms] by auto
  from d(1) have "length dbs = length shards" "\<forall>i < length shards. dbs ! i = bs_db (shards ! i)" by auto
  then show ?thesis using d(2) unfolding shard_dbs_upt by simp
qed

lemma L1_New_inv:
  assumes "L1_New B mk oor (Some cfg) = Inr c"
  shows "l1_inv c"
proof (cases rule: L1_New_cases [of B mk oor cfg])
  case (opened c')
  then have "c' = c" using assms by simp
  then show ?thesis using opened(3) opened_shards [OF opened(2)] by (simp add: l1_inv_def)
qed (simp_all add: assms)

text \<open>
  Constructing the SSD tier opens all of its shard databases or none: on success shard \<open>i\<close>
  holds the database that Badger opened for path \<open>i\<close>, and on failure every database opened
  before the failing one is closed again.
\<close>

theorem l1_new_all_or_nothing:
  "case L1_New B mk oor (Some cfg) of
     Inr c \<Rightarrow> l1_inv c \<and> (\<forall>i < length (l1_shards c).
       bd_Open B (shard_opts B cfg (l1_syncMode c) i) = Inr (bs_db (l1_shards c ! i)))
   | Inl (e, gone) \<Rightarrow> \<exists>dbs. gone = map (\<lambda>db. fst (bd_Close B db)) dbs \<and>
       length dbs < unat (l1_count cfg) \<and>
       map Inr dbs = map (\<lambda>i. bd_Open B (shard_opts B cfg (l1_mode cfg) i)) [0..<length dbs]"
proof (cases rule: L1_New_cases [of B mk oor cfg])
  case (refused e)
  have "0 < unat (l1_count cfg)" by (simp add: unat_gt_0)
  then show ?thesis using refused by (auto intro: exI [of _ "[]"])
next
  case (failed e gone)
  from open_shards_shape [OF failed(2)] obtain dbs where
    "gone = map (\<lambda>db. fst (bd_Close B db)) dbs" "length dbs < unat (l1_count cfg)"
    "shard_dbs B cfg (l1_mode cfg) (take (length dbs) [0..<unat (l1_count cfg)]) dbs"
    by (auto simp: close_opened_def)
  moreover from this(2) have "take (length dbs) [0..<unat (l1_count cfg)] = [0..<length dbs]" by simp
  ultimately show ?thesis using failed(1) by (auto simp: shard_dbs_def)
next
  case (opened c)
  then show ?thesis using opened_shards [OF opened(2)] by (simp add: l1_inv_def)
qed

lemma path_join_nonempty: "x \<noteq> [] \<Longrightarrow> path_join (x # xs) \<noteq> []"
  by (simp add: path_join_def path_clean_def Let_def)

text \<open>
  The sync mode \<^verbatim>\<open>disabled\<close> never gives a cache. It asks Badger for an in-memory database
  while keeping the shard directory in the options, a combination Badger refuses (it documents
  that an in-memory database takes no directory).
\<close>

theorem l1_disabled_mode_fails:
  assumes "\<forall>o'. bo_InMemory o' \<and> bo_Dir o' \<noteq> [] \<longrightarrow> (\<exists>e. bd_Open B o' = Inl e)"
    and "\<forall>p. bo_Dir (bd_DefaultOptions B p) = p"
    and "c1_SyncMode cfg = ''disabled''"
  shows "\<exists>e gone. L1_New B mk oor (Some cfg) = Inl (e, gone)"
proof (cases rule: L1_New_cases [of B mk oor cfg])
  case (opened c)
  obtain n where n: "unat (l1_count cfg) = Suc n"
    using unat_gt_0 [of "l1_count cfg"] l1_count_nonzero [of cfg] by (cases "unat (l1_count cfg)") auto
  have "bd_Open B (shard_opts B cfg (l1_mode cfg) 0) = Inr (bs_db (l1_shards c ! 0))"
    using n opened_shards [OF opened(2)] by simp
  moreover have "bo_InMemory (shard_opts B cfg (l1_mode cfg) 0)"
    "bo_Dir (shard_opts B cfg (l1_mode cfg) 0) \<noteq> []"
    using assms(2,3) path_join_nonempty [OF opened(8), of "[shard_name 0]"]
    by (simp_all add: shard_opts_def l1_mode_def Let_def)
  ultimately show ?thesis using assms(1) by (metis Inl_Inr_False)
qed auto

definition disabled_l1_config :: l1_config where
  "disabled_l1_config = small_l1_config\<lparr>c1_SyncMode := ''disabled''\<rparr>"

theorem l1_disabled_mode_fails_witness:
  "\<exists>e gone. L1_New mem_badger (\<lambda>p. None) (\<lambda>x. 0) (Some disabled_l1_config) = Inl (e, gone)"
  by (rule l1_disabled_mode_fails) (auto simp: mem_badger_def disabled_l1_config_def)

subsection \<open>Histories and expiry\<close>

text \<open>
  C22. The SSD tier over a Badger that behaves as documented is coherent: any sequence of \<^verbatim>\<open>Get\<close>,
  \<^verbatim>\<open>Set\<close> and \<^verbatim>\<open>Delete\<close> calls on it, at any times, runs without a panic, and every value read
  is that of the last successful write to the key with no successful delete in between (or, if
  there is none, what the database held at the start).
\<close>

theorem l1_history_coherent:
  assumes "badger_ok B cont" and "L1_New B mk oor (Some cfg) = Inr c"
  shows "\<exists>c' outs. tier_run (L1_Get B) (L1_Set B) (L1_Delete B) xs c = Some (c', outs) \<and>
    l1_inv c' \<and> coherent (l1_stored cont c) xs outs"
proof -
  have "l1_inv c" using L1_New_inv assms(2) by blast
  from cache_tier.run_coherent [OF l1_cache_tier [OF assms(1)] this map_le_refl]
  show ?thesis .
qed

lemma small_l1_new:
  "L1_New mem_badger (\<lambda>p. None) (\<lambda>x. 1073741824) (Some small_l1_config) = Inr (mem_l1 [[], []])"
proof -
  have "f64_to_u64 (\<lambda>x. 1073741824) (gb_bytes (F64 1)) = 1073741824" by code_simp
  moreover have "[0..<2] = [0, 1::nat]" by (simp add: numeral_2_eq_2)
  ultimately show ?thesis
    by (simp add: L1_New_def small_l1_config_def Let_def mem_l1_def shard_opts_def mem_badger_def)
qed

theorem l1_history_coherent_witness:
  "\<exists>c' outs. tier_run (L1_Get mem_badger) (L1_Set mem_badger) (L1_Delete mem_badger)
      [TSet \<lparr>tm_wall = 0, tm_mono = None\<rparr> ''a'' [1] 0, TGet \<lparr>tm_wall = 1, tm_mono = None\<rparr> ''a'', TDel ''a'']
      (mem_l1 [[], []]) = Some (c', outs) \<and> l1_inv c'"
  using l1_history_coherent [OF mem_badger_ok small_l1_new] by blast

definition reads_ok :: "'db badger \<Rightarrow> bool" where
  "reads_ok B \<longleftrightarrow> (\<forall>db. bd_View B db = None) \<and>
     (\<forall>now k db. bd_Get B now k db = Inl (bd_ErrKeyNotFound B) \<or> (\<exists>v. bd_Get B now k db = Inr (Inr v)))"

lemma L1_Get_reads:
  assumes "badger_ok B cont" and "reads_ok B" and "l1_inv c" and "\<not> l1_closed c" and "k \<noteq> []"
  shows "\<exists>st. L1_Get B now k c = Some (c\<lparr>l1_stats := st\<rparr>,
    case l1_entry cont c k of
      Some x \<Rightarrow> if live now x then Inr (fst x) else Inl (Errorf ''key not found'' None)
    | None \<Rightarrow> Inl (Errorf ''key not found'' None))"
proof -
  define db where "db = bs_db (l1_shards c ! l1_index (l1_shardCount c) k)"
  have e: "l1_entry cont c k = cont db k" by (simp add: l1_entry_def db_def)
  have g: "L1_Get B now k c = Some (c\<lparr>l1_stats := (snd (get_txn B now k db (l1_stats c)))\<lparr>s1_Reads :=
      s1_Reads (snd (get_txn B now k db (l1_stats c))) + 1\<rparr>\<rparr>, fst (get_txn B now k db (l1_stats c)))"
    using assms(4,5) by (simp add: L1_Get_def l1_getShard_inv [OF assms(3)] db_def case_prod_unfold Let_def)
  have v: "bd_View B db = None" using assms(2) by (simp add: reads_ok_def)
  consider (miss) "bd_Get B now k db = Inl (bd_ErrKeyNotFound B)"
    | (hit) v where "bd_Get B now k db = Inr (Inr v)"
    using assms(2) unfolding reads_ok_def by blast
  then show ?thesis
  proof cases
    case miss
    then show ?thesis using g v badger_get_missing [OF assms(1) miss]
      by (auto simp: get_txn_def e split: option.split)
  next
    case (hit v)
    then show ?thesis using g v badger_get_value [OF assms(1) hit]
      by (auto simp: get_txn_def e)
  qed
qed

text \<open>
  C24. A value stored with a positive time to live is readable exactly until the clock's second
  reaches the expiry second, which is the second of the write plus the time to live, rounded
  down: it can be gone up to a second early, and with a time to live below one second it is
  gone at once unless a second boundary lies within it. (Reads of Badger that do not fail.)
\<close>

theorem l1_set_then_get:
  assumes "badger_ok B cont" and "reads_ok B" and "l1_inv c" and "0 < ttl"
    and "unix_sec (time_add now ttl) \<in> {1..<2 ^ 64}" and "unix_sec t \<in> {0..<2 ^ 64}"
    and "L1_Set B now k v ttl c = Some (c1, None)"
  shows "\<exists>c2. L1_Get B t k c1 = Some (c2,
    if unix_sec t < unix_sec (time_add now ttl) then Inr v
    else Inl (Errorf ''key not found'' None))"
proof -
  have g: "\<not> l1_closed c" "k \<noteq> []" using assms(7) by (auto simp: L1_Set_def split: if_splits)
  obtain c' e where w: "L1_Set B now k v ttl c = Some (c', e)"
      "wrote cont (SetEntry k v (expires_at now ttl)) c c' e"
    using L1_Set_wrote [OF assms(1,3)] by blast
  have inv: "l1_inv c1" and en: "l1_entry cont c1 k = Some (v, expires_at now ttl)"
    using w assms(7) by (simp_all add: wrote_def)
  have "l1_closed c1 = l1_closed c"
    using assms(7) by (auto simp: L1_Set_def count_l1_def set_db_def split: if_splits bind_splits prod.splits)
  with L1_Get_reads [OF assms(1,2) inv _ g(2)] g(1) obtain st where
    "L1_Get B t k c1 = Some (c1\<lparr>l1_stats := st\<rparr>,
       if live t (v, expires_at now ttl) then Inr v else Inl (Errorf ''key not found'' None))"
    using en by fastforce
  moreover have "live t (v, expires_at now ttl) \<longleftrightarrow> unix_sec t < unix_sec (time_add now ttl)"
    using assms(4-6)
    by (auto simp: expires_at_def word_less_def uint_word_of_int word_of_int_eq_0_iff dest: zdvd_imp_le)
  ultimately show ?thesis by auto
qed

theorem l1_set_then_get_witness:
  "\<exists>c1 c2. L1_Set mem_badger \<lparr>tm_wall = 5100000000, tm_mono = None\<rparr> ''a'' [1] 500000000
       (mem_l1 [[], []]) = Some (c1, None) \<and>
     L1_Get mem_badger \<lparr>tm_wall = 5100000001, tm_mono = None\<rparr> ''a'' c1 =
       Some (c2, Inl (Errorf ''key not found'' None))"
proof -
  let ?now = "\<lparr>tm_wall = 5100000000, tm_mono = None\<rparr>"
  let ?t = "\<lparr>tm_wall = 5100000001, tm_mono = None\<rparr>"
  have inv: "l1_inv (mem_l1 [[], []])" by (rule L1_New_inv [OF small_l1_new])
  have reads: "reads_ok mem_badger"
    by (auto simp: reads_ok_def mem_badger_def split: option.split)
  obtain c1 where st: "L1_Set mem_badger ?now ''a'' [1] 500000000 (mem_l1 [[], []]) = Some (c1, None)"
    using l1_getShard_inv [OF inv, of "''a''"]
    by (simp add: L1_Set_def DiskUsage_def mem_l1_def mem_badger_def)
  have s: "unix_sec (time_add ?now 500000000) = 5" "unix_sec ?t = 5"
    by (simp_all add: unix_sec_def time_add_def)
  have "unix_sec (time_add ?now 500000000) \<in> {1..<2 ^ 64}" "unix_sec ?t \<in> {0..<2 ^ 64}"
    unfolding s by simp_all
  from l1_set_then_get [OF mem_badger_ok reads inv _ this st]
  show ?thesis using st unfolding s by auto
qed

subsection \<open>Iteration\<close>

text \<open>The loop of a client: \<^verbatim>\<open>for it.Next()\<close>, reading each key and value, with \<open>n\<close> calls at most.\<close>

fun drain ::
    "nat \<Rightarrow> 'db badger \<Rightarrow> go_time \<Rightarrow> 'db l1_cache \<Rightarrow> l1_iter \<Rightarrow> (item list \<times> l1_iter) option" where
  "drain 0 B now c it = None"
| "drain (Suc n) B now c it =
     do {
       (it1, more) \<leftarrow> iter_Next B now c it;
       if \<not> more then Some ([], it1)
       else do {
         k \<leftarrow> iter_Key it1;
         v \<leftarrow> iter_Value it1;
         (xs, it2) \<leftarrow> drain n B now c it1;
         Some ((k, v) # xs, it2)
       }
     }"

text \<open>The shards before the \<open>n\<close>-th that have items: each was left with its transaction open.\<close>

definition left_open :: "'db badger \<Rightarrow> go_time \<Rightarrow> 'db l1_cache \<Rightarrow> nat \<Rightarrow> int" where
  "left_open B now c n = int (length (filter (\<lambda>s. shard_items B now s \<noteq> []) (take n (l1_shards c))))"

lemma left_open_step:
  "n < length (l1_shards c) \<Longrightarrow> left_open B now c (Suc n) =
   left_open B now c n + (if shard_items B now (l1_shards c ! n) = [] then 0 else 1)"
  by (simp add: left_open_def take_Suc_conv_app_nth)

lemma initShard_open:
  assumes "initShard B now c it = Some (it', b)" and "length (l1_shards c) = unat (l1_shardCount c)"
    and "unat (it_shard it) \<le> length (l1_shards c)"
    and "it_open it = left_open B now c (unat (it_shard it))"
  shows "(b \<longrightarrow> it_open it' = left_open B now c (unat (it_shard it')) + 1 \<and>
      shard_items B now (l1_shards c ! unat (it_shard it')) \<noteq> []) \<and>
    (\<not> b \<longrightarrow> it_open it' = left_open B now c (length (l1_shards c)) \<and>
      (if unat (it_shard it) = length (l1_shards c) then it_current_open it' = it_current_open it
       else \<not> it_current_open it' \<and> shard_items B now (last (l1_shards c)) = []))"
  using assms
proof (induction B now c it rule: initShard.induct)
  case (1 B now c it)
  show ?case
  proof (cases "it_shard it < l1_shardCount c")
    case False
    then have "it' = it \<and> \<not> b \<and> unat (it_shard it) = length (l1_shards c)"
      using "1.prems" by (simp add: initShard.simps [of B now c it] word_less_nat_alt)
    then show ?thesis using "1.prems"(4) by simp
  next
    case True
    define n where "n = unat (it_shard it)"
    define items where "items = shard_items B now (l1_shards c ! n)"
    have n: "n < length (l1_shards c)" using True "1.prems"(2) by (simp add: n_def word_less_nat_alt)
    have step: "initShard B now c it = (if items \<noteq> [] then Some ((open_shard items it)\<lparr>it_valid := True\<rparr>, True)
        else initShard B now c ((close_current (open_shard items it))\<lparr>it_shard := it_shard it + 1\<rparr>))"
      using True n by (simp add: initShard.simps [of B now c it] Let_def items_def n_def)
    show ?thesis
    proof (cases "items = []")
      case False
      then show ?thesis using "1.prems"(1,4) step by (auto simp: open_shard_def n_def items_def)
    next
      case e: True
      define it1 where "it1 = (close_current (open_shard items it))\<lparr>it_shard := it_shard it + 1\<rparr>"
      have it1: "unat (it_shard it1) = Suc n" "it_open it1 = left_open B now c (Suc n)"
          "\<not> it_current_open it1"
        using "1.prems"(4) e left_open_step [OF n, of B now]
        by (simp_all add: it1_def close_current_def open_shard_def unat_succ_less [OF True] n_def items_def)
      have r: "initShard B now c it1 = Some (it', b)" using "1.prems"(1) step e by (simp add: it1_def)
      have IH: "(b \<longrightarrow> it_open it' = left_open B now c (unat (it_shard it')) + 1 \<and>
          shard_items B now (l1_shards c ! unat (it_shard it')) \<noteq> []) \<and>
        (\<not> b \<longrightarrow> it_open it' = left_open B now c (length (l1_shards c)) \<and>
          (if unat (it_shard it1) = length (l1_shards c) then it_current_open it' = it_current_open it1
           else \<not> it_current_open it' \<and> shard_items B now (last (l1_shards c)) = []))"
        using "1.IH" [OF True n [unfolded n_def], folded n_def, folded items_def, OF refl refl]
          r e "1.prems"(2) n it1 unfolding it1_def by simp
      have "last (l1_shards c) = l1_shards c ! n" if "Suc n = length (l1_shards c)"
        using that by (cases "l1_shards c" rule: rev_cases) auto
      then show ?thesis using IH it1 n e by (auto simp: n_def [symmetric] items_def split: if_split_asm)
    qed
  qed
qed

text \<open>An iterator on an item, with the transactions opened so far accounted for.\<close>

definition iter_on_item :: "'db badger \<Rightarrow> go_time \<Rightarrow> 'db l1_cache \<Rightarrow> l1_iter \<Rightarrow> bool" where
  "iter_on_item B now c it \<longleftrightarrow>
     it_valid it \<and> it_current_open it \<and> it_shard it < l1_shardCount c \<and>
     (\<exists>x xs. it_rest it = Some (x # xs)) \<and>
     it_open it = left_open B now c (unat (it_shard it)) + 1 \<and>
     shard_items B now (l1_shards c ! unat (it_shard it)) \<noteq> []"

lemma initShard_next:
  assumes "l1_inv c" and "unat (it_shard it) \<le> length (l1_shards c)"
    and "it_open it = left_open B now c (unat (it_shard it))"
  shows "\<exists>it'. if items_from B now c (unat (it_shard it)) = []
    then initShard B now c it = Some (it', False) \<and>
      it_open it' = left_open B now c (length (l1_shards c)) \<and>
      (if unat (it_shard it) = length (l1_shards c) then it_current_open it' = it_current_open it
       else \<not> it_current_open it' \<and> shard_items B now (last (l1_shards c)) = [])
    else initShard B now c it = Some (it', True) \<and> iter_on_item B now c it' \<and>
      iter_left B now c it' = items_from B now c (unat (it_shard it))"
proof -
  have len: "length (l1_shards c) = unat (l1_shardCount c)" using assms(1) by (simp add: l1_inv_def)
  obtain it' b where r: "initShard B now c it = Some (it', b)"
    using initShard_total [OF len] by blast
  note o = initShard_open [OF r len assms(2,3)]
  show ?thesis
  proof (cases b)
    case True
    then have r1: "initShard B now c it = Some (it', True)" using r by simp
    note t = initShard_True [OF r1]
    then have "items_from B now c (unat (it_shard it)) \<noteq> []" by (auto simp: iter_left_def)
    then show ?thesis using r o t True by (auto simp: iter_on_item_def)
  next
    case False
    then have r1: "initShard B now c it = Some (it', False)" using r by simp
    show ?thesis using r o False initShard_False [OF r1 len] by auto
  qed
qed

lemma iter_on_item_read:
  "iter_on_item B now c it \<Longrightarrow> \<exists>x xs. it_rest it = Some (x # xs) \<and> iter_Key it = Some (fst x) \<and>
     iter_Value it = Some (snd x) \<and>
     iter_left B now c it = x # xs @ items_from B now c (Suc (unat (it_shard it)))"
  by (auto simp: iter_on_item_def iter_Key_def iter_Value_def iter_left_def)

lemma drain_rest:
  assumes "l1_inv c" and "iter_on_item B now c it" and "length (iter_left B now c it) \<le> n"
  shows "\<exists>it'. drain n B now c it = Some (tl (iter_left B now c it), it') \<and>
    it_open (iter_Close it') = left_open B now c (length (l1_shards c) - 1)"
  using assms(2,3)
proof (induction n arbitrary: it)
  case 0
  then show ?case using iter_on_item_read [OF 0(1)] by auto
next
  case (Suc n)
  have len: "length (l1_shards c) = unat (l1_shardCount c)" using assms(1) by (simp add: l1_inv_def)
  obtain x xs where x: "it_rest it = Some (x # xs)"
      "iter_left B now c it = x # xs @ items_from B now c (Suc (unat (it_shard it)))"
    using iter_on_item_read [OF Suc.prems(1)] by blast
  have ok: "it_valid it" "it_current_open it" "it_shard it < l1_shardCount c"
      "it_open it = left_open B now c (unat (it_shard it)) + 1"
      "shard_items B now (l1_shards c ! unat (it_shard it)) \<noteq> []"
    using Suc.prems(1) by (auto simp: iter_on_item_def)
  have more: ?case if it1: "iter_Next B now c it = Some (it1, True)" "iter_on_item B now c it1"
      "iter_left B now c it1 = tl (iter_left B now c it)" for it1
  proof -
    from iter_on_item_read [OF it1(2)] obtain y ys where y: "iter_Key it1 = Some (fst y)"
        "iter_Value it1 = Some (snd y)" "iter_left B now c it1 = y # ys"
      by blast
    have "length (iter_left B now c it1) \<le> n" using it1(3) Suc.prems(2) x(2) by simp
    from Suc.IH [OF it1(2) this] obtain it' where
      "drain n B now c it1 = Some (ys, it')"
      "it_open (iter_Close it') = left_open B now c (length (l1_shards c) - 1)"
      unfolding y(3) by auto
    moreover have "tl (iter_left B now c it) = y # ys" using it1(3) y(3) by simp
    ultimately show ?thesis using it1(1) y(1,2) by simp
  qed
  show ?case
  proof (cases "xs = []")
    case False
    then obtain y ys where y: "xs = y # ys" by (cases xs) auto
    let ?it1 = "it\<lparr>it_rest := Some xs, it_valid := True\<rparr>"
    show ?thesis
      by (rule more [of ?it1]) (use x ok y in \<open>simp_all add: iter_Next_def iter_on_item_def iter_left_def\<close>)
  next
    case True
    define n1 where "n1 = Suc (unat (it_shard it))"
    define it0 where "it0 = it\<lparr>it_rest := Some [], it_shard := it_shard it + 1\<rparr>"
    have nx: "iter_Next B now c it = initShard B now c it0"
      using x True by (simp add: iter_Next_def it0_def)
    have lt: "unat (it_shard it) < length (l1_shards c)" using ok(3) len by (simp add: word_less_nat_alt)
    have it0: "unat (it_shard it0) = n1" "it_current_open it0"
        "it_open it0 = left_open B now c n1"
      using ok left_open_step [OF lt, of B now] by (simp_all add: it0_def n1_def unat_succ_less [OF ok(3)])
    have n1: "n1 \<le> length (l1_shards c)" using lt by (simp add: n1_def)
    obtain it1 where i1: "if items_from B now c n1 = []
      then initShard B now c it0 = Some (it1, False) \<and>
        it_open it1 = left_open B now c (length (l1_shards c)) \<and>
        (if n1 = length (l1_shards c) then it_current_open it1 = it_current_open it0
         else \<not> it_current_open it1 \<and> shard_items B now (last (l1_shards c)) = [])
      else initShard B now c it0 = Some (it1, True) \<and> iter_on_item B now c it1 \<and>
        iter_left B now c it1 = items_from B now c n1"
      using initShard_next [OF assms(1), of it0 B now] n1 it0(3) unfolding it0(1) by blast
    note i1 = i1 [unfolded eqTrueI [OF it0(2)], simplified]
    show ?thesis
    proof (cases "items_from B now c n1 = []")
      case False
      then show ?thesis using i1 nx x True by (intro more [of it1]) (simp_all add: n1_def)
    next
      case e: True
      define m where "m = length (l1_shards c) - 1"
      have m: "m < length (l1_shards c)" "Suc m = length (l1_shards c)"
        "last (l1_shards c) = l1_shards c ! m"
        using lt last_conv_nth [of "l1_shards c"] by (cases "l1_shards c = []"; simp add: m_def)+
      have "it_open (iter_Close it1) = left_open B now c m"
      proof (cases "n1 = length (l1_shards c)")
        case True
        then have "m = unat (it_shard it)" by (simp add: n1_def m_def)
        then show ?thesis using i1 e True ok(5) left_open_step [OF m(1), of B now] m(2)
          by (simp add: iter_Close_def close_current_def)
      next
        case False
        then show ?thesis using i1 e left_open_step [OF m(1), of B now] m(2,3)
          by (simp add: iter_Close_def close_current_def)
      qed
      then show ?thesis using i1 e nx x True by (simp add: m_def n1_def)
    qed
  qed
qed

text \<open>
  C23. Iterating over the tier while nothing changes yields every readable entry of every shard,
  shard by shard, and then ends; closing the iterator afterwards leaves one transaction open for
  each shard with entries other than the last shard, because moving to the next shard drops the
  iterator of the shard before without closing it.
\<close>

theorem l1_iteration_complete:
  assumes "l1_inv c"
  shows "\<exists>it. drain (length (items_from B now c 0) + 1) B now c NewIterator =
       Some (concat (map (shard_items B now) (l1_shards c)), it) \<and>
     it_open (iter_Close it) =
       int (length (filter (\<lambda>s. shard_items B now s \<noteq> []) (butlast (l1_shards c))))"
proof -
  have all: "items_from B now c 0 = concat (map (shard_items B now) (l1_shards c))"
    by (simp add: items_from_def)
  have lo: "left_open B now c (length (l1_shards c) - 1) =
      int (length (filter (\<lambda>s. shard_items B now s \<noteq> []) (butlast (l1_shards c))))"
    by (simp add: left_open_def butlast_conv_take)
  have len: "0 < length (l1_shards c)" using assms by (simp add: l1_inv_def unat_gt_0)
  have s: "unat (it_shard NewIterator) = 0" "it_open NewIterator = 0" "it_rest NewIterator = None"
    by (simp_all add: NewIterator_def)
  then have nx: "iter_Next B now c NewIterator = initShard B now c NewIterator"
    by (simp add: iter_Next_def)
  have "it_open NewIterator = left_open B now c 0" using s(2) by (simp add: left_open_def)
  then obtain it1 where i1: "if items_from B now c 0 = []
      then initShard B now c NewIterator = Some (it1, False) \<and>
        it_open it1 = left_open B now c (length (l1_shards c)) \<and>
        (if 0 = length (l1_shards c) then it_current_open it1 = it_current_open NewIterator
         else \<not> it_current_open it1 \<and> shard_items B now (last (l1_shards c)) = [])
      else initShard B now c NewIterator = Some (it1, True) \<and> iter_on_item B now c it1 \<and>
        iter_left B now c it1 = items_from B now c 0"
    using initShard_next [OF assms, of NewIterator B now] unfolding s(1) by blast
  show ?thesis
  proof (cases "items_from B now c 0 = []")
    case True
    have "left_open B now c (length (l1_shards c)) = left_open B now c (length (l1_shards c) - 1)"
      using i1 True len left_open_step [of "length (l1_shards c) - 1" c B now] by (simp add: last_conv_nth)
    moreover have "\<not> it_current_open it1"
      using i1 True by (auto simp: NewIterator_def split: if_split_asm)
    ultimately show ?thesis
      using i1 True nx all lo by (simp add: iter_Close_def close_current_def)
  next
    case False
    then have "iter_on_item B now c it1" "length (iter_left B now c it1) \<le> length (items_from B now c 0)"
      using i1 by simp_all
    from drain_rest [OF assms this] obtain it' where
      d: "drain (length (items_from B now c 0)) B now c it1 = Some (tl (iter_left B now c it1), it')"
        "it_open (iter_Close it') = left_open B now c (length (l1_shards c) - 1)"
      by blast
    obtain x xs where "iter_Key it1 = Some (fst x)" "iter_Value it1 = Some (snd x)"
        "iter_left B now c it1 = x # xs"
      using iter_on_item_read [OF \<open>iter_on_item B now c it1\<close>] by blast
    then show ?thesis using d i1 False nx all lo by auto
  qed
qed

definition two_shards :: "mem_db l1_cache" where
  "two_shards = mem_l1 [[(''a'', [1], 0)], [(''b'', [2], 0)]]"

theorem l1_iteration_complete_witness:
  "\<exists>it. drain 3 mem_badger \<lparr>tm_wall = 0, tm_mono = None\<rparr> two_shards NewIterator =
     Some ([(''a'', Inr [1]), (''b'', Inr [2])], it) \<and> it_open (iter_Close it) = 1"
proof -
  have "l1_inv two_shards" by (simp add: l1_inv_def two_shards_def mem_l1_def)
  from l1_iteration_complete [OF this, of mem_badger "\<lparr>tm_wall = 0, tm_mono = None\<rparr>"]
  show ?thesis
    by (simp add: two_shards_def mem_l1_def items_from_def shard_items_def mem_badger_def
        numeral_3_eq_3 del: drain.simps)
qed

end
