(* ===== verification/Config.thy ===== *)
theory Config
  imports Go_Lib Consts Hashes
begin

text \<open>
  The configuration (\<^verbatim>\<open>pkg/config/config.go\<close>): its structures field by field, the defaults,
  loading and saving, the validation of each section in the order of its checks, and the derived
  quantities. YAML and the file system are parameters, and so is the number of processors.
\<close>

subsection \<open>Structures\<close>

record L0Config =
  g0_MaxMemoryMB :: u32
  g0_MaxPayloadBytes :: u32
  g0_WeightedUnitBytes :: u32
  g0_ShardCount :: u32
  g0_EvictionPolicy :: string
  g0_EnableSnapshot :: bool
  g0_SnapshotIntervalSec :: u32
  g0_RebuildFrom :: string
  g0_EnableStats :: bool
  g0_SnapshotPath :: string

record L1Config =
  g1_MaxCapacityGB :: f64
  g1_ShardCount :: u32
  g1_SSDPath :: string
  g1_ValueLogPath :: string
  g1_SyncMode :: string
  g1_SyncIntervalMs :: u32
  g1_Compression :: string
  g1_WALEnabled :: bool
  g1_MaxTablesSize :: int
  g1_BlockCacheSizeMB :: u32
  g1_NumGoroutines :: int

record KafkaSinkConfig =
  gk_Enabled :: bool
  gk_Brokers :: "string list"
  gk_Topic :: string
  gk_BatchSize :: int
  gk_FlushIntervalMs :: int
  gk_Compression :: string
  gk_RequiredAcks :: string
  gk_RetryBackoffMs :: int
  gk_MaxRetries :: int

record MinIOSinkConfig =
  gm_Enabled :: bool
  gm_Endpoint :: string
  gm_Bucket :: string
  gm_AccessKey :: string
  gm_SecretKey :: string
  gm_UseSSL :: bool
  gm_Prefix :: string
  gm_BatchSize :: int
  gm_PartSize :: int

record PostgresSinkConfig =
  gp_Enabled :: bool
  gp_Host :: string
  gp_Port :: int
  gp_Database :: string
  gp_Username :: string
  gp_Password :: string
  gp_Table :: string
  gp_BatchSize :: int
  gp_PoolSize :: int
  gp_SSLMode :: string

record FutureBackendConfig =
  gf_Name :: string
  gf_Type :: string
  gf_Config :: "(string \<times> gval) list"
  gf_Enabled :: bool

record SinkConfig =
  gs_Kafka :: KafkaSinkConfig
  gs_MinIO :: MinIOSinkConfig
  gs_Postgres :: PostgresSinkConfig
  gs_FutureBackends :: "FutureBackendConfig list"

record TieringConfig =
  gt_L0ToL1Threshold :: f64
  gt_L1ToL2Threshold :: f64
  gt_TierIntervalSec :: u32
  gt_BatchSize :: int
  gt_MaxWorkers :: int
  gt_AsyncEnabled :: bool

record L2Config =
  g2_Enabled :: bool
  g2_Sinks :: SinkConfig
  g2_Tiering :: TieringConfig

record ReplayConfig =
  gr_WALPath :: string
  gr_MaxReplayWorkers :: int
  gr_VerifyOnRecovery :: bool
  gr_EnableL0PreWarm :: bool
  gr_PreWarmBatchSize :: int
  gr_PreWarmWorkers :: int
  gr_CheckpointInterval :: int
  gr_EnableCheckpoint :: bool
  gr_CheckpointPath :: string
  gr_MaxReplayTimeSec :: u32

record LoggingConfig =
  gl_Level :: string
  gl_Format :: string
  gl_Output :: string
  gl_FilePath :: string
  gl_MaxSizeMB :: int
  gl_MaxBackups :: int

record TieredCacheConfig =
  tcc_L0 :: L0Config
  tcc_L1 :: L1Config
  tcc_L2 :: L2Config
  tcc_Replay :: ReplayConfig
  tcc_Logging :: LoggingConfig

record Config =
  cfg_TieredCache :: TieredCacheConfig

subsection \<open>Defaults\<close>

text \<open>A decimal literal of type \<^verbatim>\<open>float64\<close> denotes the nearest representable value.\<close>

definition f64_lit :: "rat \<Rightarrow> f64" where
  "f64_lit x = F64 (f64_round x)"

definition default_L0 :: "int \<Rightarrow> L0Config" where
  "default_L0 numCPU =
     \<lparr>g0_MaxMemoryMB = 8192, g0_MaxPayloadBytes = 32768,
      g0_WeightedUnitBytes = word_of_int WeightedUnitBytes, g0_ShardCount = word_of_int (numCPU * 2),
      g0_EvictionPolicy = ''clock_pro'', g0_EnableSnapshot = True, g0_SnapshotIntervalSec = 300,
      g0_RebuildFrom = RebuildFromSnapshot, g0_EnableStats = True,
      g0_SnapshotPath = ''./data/l0_snapshots''\<rparr>"

definition default_L1 :: "int \<Rightarrow> L1Config" where
  "default_L1 numCPU =
     \<lparr>g1_MaxCapacityGB = f64_lit 10240, g1_ShardCount = word_of_int numCPU, g1_SSDPath = ''./data/l1'',
      g1_ValueLogPath = ''./data/l1_vlog'', g1_SyncMode = ''immediate'', g1_SyncIntervalMs = 1000,
      g1_Compression = ''zstd'', g1_WALEnabled = True, g1_MaxTablesSize = 256 * 2 ^ 20,
      g1_BlockCacheSizeMB = 0, g1_NumGoroutines = 8\<rparr>"

definition default_sinks :: SinkConfig where
  "default_sinks =
     \<lparr>gs_Kafka = \<lparr>gk_Enabled = True, gk_Brokers = [''localhost:9092''], gk_Topic = ''tieredcache-cold'',
        gk_BatchSize = 100, gk_FlushIntervalMs = 1000, gk_Compression = ''lz4'', gk_RequiredAcks = ''1'',
        gk_RetryBackoffMs = 100, gk_MaxRetries = 3\<rparr>,
      gs_MinIO = \<lparr>gm_Enabled = False, gm_Endpoint = ''localhost:9000'', gm_Bucket = ''tieredcache'',
        gm_AccessKey = ''minioadmin'', gm_SecretKey = ''minioadmin'', gm_UseSSL = False,
        gm_Prefix = ''cold/'', gm_BatchSize = 50, gm_PartSize = 5 * 2 ^ 20\<rparr>,
      gs_Postgres = \<lparr>gp_Enabled = False, gp_Host = ''localhost'', gp_Port = 5432,
        gp_Database = ''tieredcache'', gp_Username = ''postgres'', gp_Password = [],
        gp_Table = ''cold_data'', gp_BatchSize = 100, gp_PoolSize = 10, gp_SSLMode = ''disable''\<rparr>,
      gs_FutureBackends = []\<rparr>"

definition default_L2 :: L2Config where
  "default_L2 =
     \<lparr>g2_Enabled = True, g2_Sinks = default_sinks,
      g2_Tiering = \<lparr>gt_L0ToL1Threshold = f64_lit (85 / 100), gt_L1ToL2Threshold = f64_lit (90 / 100),
        gt_TierIntervalSec = 60, gt_BatchSize = 1000, gt_MaxWorkers = 4, gt_AsyncEnabled = True\<rparr>\<rparr>"

definition default_Replay :: ReplayConfig where
  "default_Replay =
     \<lparr>gr_WALPath = ''./data/wal'', gr_MaxReplayWorkers = DefaultMaxReplayWorkers,
      gr_VerifyOnRecovery = True, gr_EnableL0PreWarm = True,
      gr_PreWarmBatchSize = DefaultPreWarmBatchSize, gr_PreWarmWorkers = DefaultPreWarmWorkers,
      gr_CheckpointInterval = DefaultCheckpointInterval, gr_EnableCheckpoint = True,
      gr_CheckpointPath = ''./data/checkpoints'', gr_MaxReplayTimeSec = 300\<rparr>"

definition default_Logging :: LoggingConfig where
  "default_Logging =
     \<lparr>gl_Level = ''info'', gl_Format = ''json'', gl_Output = ''stdout'',
      gl_FilePath = ''./logs/tieredcache.log'', gl_MaxSizeMB = 100, gl_MaxBackups = 10\<rparr>"

definition DefaultConfig :: "int \<Rightarrow> Config" where
  "DefaultConfig NumCPU =
     (let numCPU = (if NumCPU < 4 then 4 else NumCPU)
      in \<lparr>cfg_TieredCache = \<lparr>tcc_L0 = default_L0 numCPU, tcc_L1 = default_L1 numCPU,
            tcc_L2 = default_L2, tcc_Replay = default_Replay, tcc_Logging = default_Logging\<rparr>\<rparr>)"

subsection \<open>Validation\<close>

definition validateL0Config :: "L0Config \<Rightarrow> go_error option" where
  "validateL0Config cfg =
     (if g0_MaxMemoryMB cfg = 0
        then Some (NewConfigError ''tieredcache.l0.max_memory_mb'' (GInt (uint (g0_MaxMemoryMB cfg)))
          ''must be greater than 0'' [''set a valid memory size (e.g., 8192)''])
      else if 131072 < g0_MaxMemoryMB cfg
        then Some (NewConfigError ''tieredcache.l0.max_memory_mb'' (GInt (uint (g0_MaxMemoryMB cfg)))
          ''exceeds maximum (128GB)'' [''reduce to 131072 or less''])
      else if g0_MaxPayloadBytes cfg = 0
        then Some (NewConfigError ''tieredcache.l0.max_payload_bytes'' (GInt (uint (g0_MaxPayloadBytes cfg)))
          ''must be greater than 0'' [''set a valid payload size (e.g., 32768)''])
      else if 1048576 < g0_MaxPayloadBytes cfg
        then Some (NewConfigError ''tieredcache.l0.max_payload_bytes'' (GInt (uint (g0_MaxPayloadBytes cfg)))
          ''exceeds maximum (1MB)'' [''reduce to 1048576 or less''])
      else if g0_WeightedUnitBytes cfg = 0
        then Some (NewConfigError ''tieredcache.l0.weighted_unit_bytes'' (GInt (uint (g0_WeightedUnitBytes cfg)))
          ''must be greater than 0'' [''use default 4096''])
      else if g0_ShardCount cfg = 0
        then Some (NewConfigError ''tieredcache.l0.shard_count'' (GInt (uint (g0_ShardCount cfg)))
          ''must be greater than 0'' [''use default 64''])
      else if 256 < g0_ShardCount cfg
        then Some (NewConfigError ''tieredcache.l0.shard_count'' (GInt (uint (g0_ShardCount cfg)))
          ''exceeds maximum (256)'' [''reduce shard count''])
      else if g0_EvictionPolicy cfg \<notin> {''clock_pro'', ''lru'', ''lfu'', ''arc''}
        then Some (NewConfigError ''tieredcache.l0.eviction_policy'' (GStr (g0_EvictionPolicy cfg))
          ''invalid eviction policy'' [''use one of: clock_pro, lru, lfu, arc''])
      else if g0_SnapshotIntervalSec cfg = 0
        then Some (NewConfigError ''tieredcache.l0.snapshot_interval_sec'' (GInt (uint (g0_SnapshotIntervalSec cfg)))
          ''must be greater than 0'' [''use default 300''])
      else None)"

definition validateL1Config :: "L1Config \<Rightarrow> go_error option" where
  "validateL1Config cfg =
     (if f64_le (g1_MaxCapacityGB cfg) (F64 0)
        then Some (NewConfigError ''tieredcache.l1.max_capacity_gb'' (GFloat (g1_MaxCapacityGB cfg))
          ''must be greater than 0'' [''set a valid capacity (e.g., 10240 for 10TB)''])
      else if f64_less (F64 102400) (g1_MaxCapacityGB cfg)
        then Some (NewConfigError ''tieredcache.l1.max_capacity_gb'' (GFloat (g1_MaxCapacityGB cfg))
          ''exceeds maximum (100TB = 102400GB)'' [''reduce capacity''])
      else if g1_ShardCount cfg = 0
        then Some (NewConfigError ''tieredcache.l1.shard_count'' (GInt (uint (g1_ShardCount cfg)))
          ''must be greater than 0'' [''use default 32''])
      else if 128 < g1_ShardCount cfg
        then Some (NewConfigError ''tieredcache.l1.shard_count'' (GInt (uint (g1_ShardCount cfg)))
          ''exceeds maximum (128)'' [''reduce shard count''])
      else if g1_SSDPath cfg = []
        then Some (NewConfigError ''tieredcache.l1.ssd_path'' (GStr (g1_SSDPath cfg))
          ''cannot be empty'' [''provide a valid SSD path''])
      else if g1_SyncMode cfg \<notin> {''immediate'', ''periodic'', ''disabled''}
        then Some (NewConfigError ''tieredcache.l1.sync_mode'' (GStr (g1_SyncMode cfg))
          ''invalid sync mode'' [''use one of: immediate, periodic, disabled''])
      else if g1_SyncMode cfg = ''periodic'' \<and> g1_SyncIntervalMs cfg = 0
        then Some (NewConfigError ''tieredcache.l1.sync_interval_ms'' (GInt (uint (g1_SyncIntervalMs cfg)))
          ''must be greater than 0 when sync_mode is periodic'' [''use default 1000''])
      else if g1_Compression cfg \<notin> {''zstd'', ''snappy'', ''none''}
        then Some (NewConfigError ''tieredcache.l1.compression'' (GStr (g1_Compression cfg))
          ''invalid compression'' [''use one of: zstd, snappy, none''])
      else None)"

text \<open>
  The L2 section: the checks of each enabled sink and of the tiering policy, the first failing
  one being returned.
\<close>

definition validateKafka :: "L2Config \<Rightarrow> go_error option" where
  "validateKafka cfg =
     (if length (gk_Brokers (gs_Kafka (g2_Sinks cfg))) = 0
        then Some (NewConfigError ''tieredcache.l2.sinks.kafka.brokers'' (GStrs (gk_Brokers (gs_Kafka (g2_Sinks cfg))))
          ''cannot be empty when enabled'' [''provide at least one broker''])
      else if gk_Topic (gs_Kafka (g2_Sinks cfg)) = []
        then Some (NewConfigError ''tieredcache.l2.sinks.kafka.topic'' (GStr (gk_Topic (gs_Kafka (g2_Sinks cfg))))
          ''cannot be empty when enabled'' [''provide a topic name''])
      else None)"

definition validateMinIO :: "L2Config \<Rightarrow> go_error option" where
  "validateMinIO cfg =
     (if gm_Endpoint (gs_MinIO (g2_Sinks cfg)) = []
        then Some (NewConfigError ''tieredcache.l2.sinks.minio.endpoint'' (GStr (gm_Endpoint (gs_MinIO (g2_Sinks cfg))))
          ''cannot be empty when enabled'' [''provide an endpoint''])
      else if gm_Bucket (gs_MinIO (g2_Sinks cfg)) = []
        then Some (NewConfigError ''tieredcache.l2.sinks.minio.bucket'' (GStr (gm_Bucket (gs_MinIO (g2_Sinks cfg))))
          ''cannot be empty when enabled'' [''provide a bucket name''])
      else None)"

definition validatePostgres :: "L2Config \<Rightarrow> go_error option" where
  "validatePostgres cfg =
     (if gp_Host (gs_Postgres (g2_Sinks cfg)) = []
        then Some (NewConfigError ''tieredcache.l2.sinks.postgres.host'' (GStr (gp_Host (gs_Postgres (g2_Sinks cfg))))
          ''cannot be empty when enabled'' [''provide a host''])
      else if gp_Port (gs_Postgres (g2_Sinks cfg)) = 0
        then Some (NewConfigError ''tieredcache.l2.sinks.postgres.port'' (GInt (gp_Port (gs_Postgres (g2_Sinks cfg))))
          ''cannot be 0 when enabled'' [''use default 5432''])
      else if gp_Database (gs_Postgres (g2_Sinks cfg)) = []
        then Some (NewConfigError ''tieredcache.l2.sinks.postgres.database'' (GStr (gp_Database (gs_Postgres (g2_Sinks cfg))))
          ''cannot be empty when enabled'' [''provide a database name''])
      else if gp_Table (gs_Postgres (g2_Sinks cfg)) = []
        then Some (NewConfigError ''tieredcache.l2.sinks.postgres.table'' (GStr (gp_Table (gs_Postgres (g2_Sinks cfg))))
          ''cannot be empty when enabled'' [''provide a table name''])
      else None)"

definition validateTiering :: "L2Config \<Rightarrow> go_error option" where
  "validateTiering cfg =
     (if f64_le (gt_L0ToL1Threshold (g2_Tiering cfg)) (F64 0) \<or> f64_less (F64 1) (gt_L0ToL1Threshold (g2_Tiering cfg))
        then Some (NewConfigError ''tieredcache.l2.tiering.l0_to_l1_threshold'' (GFloat (gt_L0ToL1Threshold (g2_Tiering cfg)))
          ''must be between 0 and 1'' [''use default 0.85''])
      else if f64_le (gt_L1ToL2Threshold (g2_Tiering cfg)) (F64 0) \<or> f64_less (F64 1) (gt_L1ToL2Threshold (g2_Tiering cfg))
        then Some (NewConfigError ''tieredcache.l2.tiering.l1_to_l2_threshold'' (GFloat (gt_L1ToL2Threshold (g2_Tiering cfg)))
          ''must be between 0 and 1'' [''use default 0.90''])
      else if gt_TierIntervalSec (g2_Tiering cfg) = 0
        then Some (NewConfigError ''tieredcache.l2.tiering.tier_interval_sec'' (GInt (uint (gt_TierIntervalSec (g2_Tiering cfg))))
          ''must be greater than 0'' [''use default 60''])
      else None)"

definition first_error :: "go_error option list \<Rightarrow> go_error option" where
  "first_error checks = (case filter (\<lambda>x. x \<noteq> None) checks of [] \<Rightarrow> None | e # _ \<Rightarrow> e)"

definition validateL2Config :: "L2Config \<Rightarrow> go_error option" where
  "validateL2Config cfg =
     (if \<not> g2_Enabled cfg then None
      else first_error
        [if gk_Enabled (gs_Kafka (g2_Sinks cfg)) then validateKafka cfg else None,
         if gm_Enabled (gs_MinIO (g2_Sinks cfg)) then validateMinIO cfg else None,
         if gp_Enabled (gs_Postgres (g2_Sinks cfg)) then validatePostgres cfg else None,
         validateTiering cfg])"

definition validateReplayConfig :: "ReplayConfig \<Rightarrow> go_error option" where
  "validateReplayConfig cfg =
     (if gr_WALPath cfg = []
        then Some (NewConfigError ''tieredcache.replay.wal_path'' (GStr (gr_WALPath cfg))
          ''cannot be empty'' [''provide a valid WAL path''])
      else if gr_MaxReplayWorkers cfg \<le> 0
        then Some (NewConfigError ''tieredcache.replay.max_replay_workers'' (GInt (gr_MaxReplayWorkers cfg))
          ''must be greater than 0'' [''use default 4''])
      else if 32 < gr_MaxReplayWorkers cfg
        then Some (NewConfigError ''tieredcache.replay.max_replay_workers'' (GInt (gr_MaxReplayWorkers cfg))
          ''exceeds maximum (32)'' [''reduce workers''])
      else if gr_CheckpointInterval cfg \<le> 0
        then Some (NewConfigError ''tieredcache.replay.checkpoint_interval'' (GInt (gr_CheckpointInterval cfg))
          ''must be greater than 0'' [''use default 10000''])
      else if gr_EnableCheckpoint cfg \<and> gr_CheckpointPath cfg = []
        then Some (NewConfigError ''tieredcache.replay.checkpoint_path'' (GStr (gr_CheckpointPath cfg))
          ''cannot be empty when checkpoint is enabled'' [''provide a valid path''])
      else if gr_MaxReplayTimeSec cfg = 0
        then Some (NewConfigError ''tieredcache.replay.max_replay_time_sec'' (GInt (uint (gr_MaxReplayTimeSec cfg)))
          ''must be greater than 0'' [''use default 300''])
      else None)"

definition validateLoggingConfig :: "LoggingConfig \<Rightarrow> go_error option" where
  "validateLoggingConfig cfg =
     (if gl_Level cfg \<notin> {''debug'', ''info'', ''warn'', ''error''}
        then Some (NewConfigError ''tieredcache.logging.level'' (GStr (gl_Level cfg))
          ''invalid log level'' [''use one of: debug, info, warn, error''])
      else if gl_Format cfg \<notin> {''json'', ''text''}
        then Some (NewConfigError ''tieredcache.logging.format'' (GStr (gl_Format cfg))
          ''invalid log format'' [''use one of: json, text''])
      else if gl_Output cfg \<notin> {''stdout'', ''file''}
        then Some (NewConfigError ''tieredcache.logging.output'' (GStr (gl_Output cfg))
          ''invalid output'' [''use one of: stdout, file''])
      else if gl_Output cfg = ''file'' \<and> gl_FilePath cfg = []
        then Some (NewConfigError ''tieredcache.logging.file_path'' (GStr (gl_FilePath cfg))
          ''cannot be empty when output is file'' [''provide a log file path''])
      else None)"

text \<open>
  \<open>show_v\<close> stands for what \<^verbatim>\<open>fmt\<close> prints for a dynamic value, in the text that lists the errors.
\<close>

definition validation_errors :: "Config \<Rightarrow> go_error list" where
  "validation_errors cfg =
     List.map_filter (\<lambda>e. e)
       [validateL0Config (tcc_L0 (cfg_TieredCache cfg)), validateL1Config (tcc_L1 (cfg_TieredCache cfg)),
        validateL2Config (tcc_L2 (cfg_TieredCache cfg)), validateReplayConfig (tcc_Replay (cfg_TieredCache cfg)),
        validateLoggingConfig (tcc_Logging (cfg_TieredCache cfg))]"

definition Validate :: "(gval \<Rightarrow> string) \<Rightarrow> Config option \<Rightarrow> go_error option" where
  "Validate show_v cfg0 =
     (case cfg0 of
        None \<Rightarrow> Some (NewConfigError ''config'' GNil ''configuration cannot be nil''
                  [''provide a valid configuration''])
      | Some cfg \<Rightarrow>
          let errors = validation_errors cfg
          in if 0 < length errors
             then Some (NewConfigError ''config'' GConfigPtr
                    (''validation failed: ['' @ join_sp (map (error_text show_v) errors) @ '']'') [])
             else None)"

subsection \<open>Loading and saving\<close>

text \<open>
  The file system and the YAML library, over a state \<open>'fs\<close> of the files: whether \<^verbatim>\<open>os.Stat\<close> reports
  a missing file, reading, creating directories and writing.
\<close>

record 'fs config_env =
  ce_missing :: "string \<Rightarrow> 'fs \<Rightarrow> bool"
  ce_read :: "string \<Rightarrow> 'fs \<Rightarrow> go_error + bytes"
  ce_mkdir :: "string \<Rightarrow> 'fs \<Rightarrow> 'fs \<times> go_error option"
  ce_write :: "string \<Rightarrow> bytes \<Rightarrow> 'fs \<Rightarrow> 'fs \<times> go_error option"
  ce_unmarshal :: "bytes \<Rightarrow> go_error + Config"
  ce_marshal :: "Config \<Rightarrow> go_error + bytes"

definition string_of_bytes :: "bytes \<Rightarrow> string" where
  "string_of_bytes bs = map (\<lambda>b. char_of (unat b)) bs"

definition Load :: "(gval \<Rightarrow> string) \<Rightarrow> 'fs config_env \<Rightarrow> string \<Rightarrow> 'fs \<Rightarrow> go_error + Config" where
  "Load show_v env path fs =
     (if path = [] then
        Inl (NewConfigError ''path'' (GStr path) ''configuration path cannot be empty''
          [''provide a valid file path''])
      else if ce_missing env path fs then
        Inl (NewConfigError ''path'' (GStr path) ''configuration file does not exist''
          [''provide an existing configuration file''])
      else
     (case ce_read env path fs of
        Inl e \<Rightarrow> Inl (NewConfigError ''path'' (GStr path)
                   (''failed to read configuration file: '' @ error_text show_v e) [])
      | Inr data \<Rightarrow>
     (case ce_unmarshal env data of
        Inl e \<Rightarrow> Inl (NewConfigError ''content'' (GStr (string_of_bytes data))
                   (''failed to parse YAML: '' @ error_text show_v e) [])
      | Inr cfg \<Rightarrow> Inr cfg)))"

fun is_ConfigError :: "go_error \<Rightarrow> bool" where
  "is_ConfigError (ConfigError f v r s) = True"
| "is_ConfigError _ = False"

definition LoadOrDefault ::
    "int \<Rightarrow> (gval \<Rightarrow> string) \<Rightarrow> 'fs config_env \<Rightarrow> string \<Rightarrow> 'fs \<Rightarrow> go_error + Config" where
  "LoadOrDefault NumCPU show_v env path fs =
     (if path = [] then Inr (DefaultConfig NumCPU)
      else
     (case Load show_v env path fs of
        Inl err \<Rightarrow> if is_ConfigError err then Inr (DefaultConfig NumCPU) else Inl err
      | Inr cfg \<Rightarrow> Inr cfg))"

text \<open>\<^verbatim>\<open>filepath.Dir\<close>: the path up to its last slash, cleaned.\<close>

definition path_dir :: "string \<Rightarrow> string" where
  "path_dir p = path_clean (rev (dropWhile (\<lambda>c. c \<noteq> CHR ''/'') (rev p)))"

definition Save ::
    "(gval \<Rightarrow> string) \<Rightarrow> 'fs config_env \<Rightarrow> Config option \<Rightarrow> string \<Rightarrow> 'fs \<Rightarrow> 'fs \<times> go_error option" where
  "Save show_v env cfg0 path fs =
     (case cfg0 of
        None \<Rightarrow> (fs, Some (NewConfigError ''config'' GNil ''configuration cannot be nil'' []))
      | Some cfg \<Rightarrow>
        if path = [] then (fs, Some (NewConfigError ''path'' (GStr path) ''path cannot be empty'' []))
        else
     (case Validate show_v (Some cfg) of
        Some e \<Rightarrow> (fs, Some e)
      | None \<Rightarrow>
     (case ce_marshal env cfg of
        Inl e \<Rightarrow> (fs, Some (NewConfigError ''config'' GConfigPtr
                   (''failed to marshal configuration: '' @ error_text show_v e) []))
      | Inr data \<Rightarrow>
     (case ce_mkdir env (path_dir path) fs of
        (fs1, Some e) \<Rightarrow> (fs1, Some (NewConfigError ''path'' (GStr path)
                          (''failed to create directory: '' @ error_text show_v e) []))
      | (fs1, None) \<Rightarrow>
     (case ce_write env path data fs1 of
        (fs2, Some e) \<Rightarrow> (fs2, Some (NewConfigError ''path'' (GStr path)
                          (''failed to write configuration: '' @ error_text show_v e) []))
      | (fs2, None) \<Rightarrow> (fs2, None))))))"

subsection \<open>Derived quantities\<close>

definition GetWeightedUnit :: "Config \<Rightarrow> int" where
  "GetWeightedUnit c = uint (g0_WeightedUnitBytes (tcc_L0 (cfg_TieredCache c)))"

definition GetMaxPayloadSize :: "Config \<Rightarrow> int" where
  "GetMaxPayloadSize c = uint (g0_MaxPayloadBytes (tcc_L0 (cfg_TieredCache c)))"

definition GetMaxMemoryBytes :: "Config \<Rightarrow> u64" where
  "GetMaxMemoryBytes c = ucast (g0_MaxMemoryMB (tcc_L0 (cfg_TieredCache c))) * 1024 * 1024"

definition GetMaxCapacityBytes :: "(f64 \<Rightarrow> u64) \<Rightarrow> Config \<Rightarrow> u64" where
  "GetMaxCapacityBytes oor c =
     f64_to_u64 oor (f64_mul (f64_mul (f64_mul (g1_MaxCapacityGB (tcc_L1 (cfg_TieredCache c)))
       (f64_of_int 1024)) (f64_of_int 1024)) (f64_of_int 1024))"

definition GetSyncMode :: "Config \<Rightarrow> int" where
  "GetSyncMode c = uint (g1_SyncIntervalMs (tcc_L1 (cfg_TieredCache c))) * 1000000"

definition GetTieringInterval :: "Config \<Rightarrow> int" where
  "GetTieringInterval c = uint (gt_TierIntervalSec (g2_Tiering (tcc_L2 (cfg_TieredCache c)))) * 1000000000"

definition GetSnapshotInterval :: "Config \<Rightarrow> int" where
  "GetSnapshotInterval c = uint (g0_SnapshotIntervalSec (tcc_L0 (cfg_TieredCache c))) * 1000000000"

end
