(* ===== verification/Config_Props.thy ===== *)
theory Config_Props
  imports Config
begin

text \<open>
  What validation accepts, stated without its chain of checks; that the defaults are accepted on
  machines with up to 128 processors; that loading with defaults never fails; that a saved
  configuration is read back.
\<close>

subsection \<open>Validation\<close>

text \<open>
  The float checks \<^verbatim>\<open>x <= 0 || x > hi\<close> let a value in \<open>(0, hi]\<close> through, and also NaN.
\<close>

definition f64_within :: "rat \<Rightarrow> f64 \<Rightarrow> bool" where
  "f64_within hi x \<longleftrightarrow> (case x of F64 q \<Rightarrow> 0 < q \<and> q \<le> hi | F64_NaN \<Rightarrow> True | F64_Inf _ \<Rightarrow> False)"

lemma f64_within_checks: "0 \<le> hi \<Longrightarrow> f64_within hi x \<longleftrightarrow> \<not> f64_le x (F64 0) \<and> \<not> f64_less (F64 hi) x"
  by (cases x) (auto simp: f64_within_def)

definition L0_wf :: "L0Config \<Rightarrow> bool" where
  "L0_wf cfg \<longleftrightarrow>
     g0_MaxMemoryMB cfg \<in> {1..131072} \<and> g0_MaxPayloadBytes cfg \<in> {1..1048576} \<and>
     g0_WeightedUnitBytes cfg \<noteq> 0 \<and> g0_ShardCount cfg \<in> {1..256} \<and>
     g0_EvictionPolicy cfg \<in> {''clock_pro'', ''lru'', ''lfu'', ''arc''} \<and> g0_SnapshotIntervalSec cfg \<noteq> 0"

definition L1_wf :: "L1Config \<Rightarrow> bool" where
  "L1_wf cfg \<longleftrightarrow>
     f64_within 102400 (g1_MaxCapacityGB cfg) \<and> g1_ShardCount cfg \<in> {1..128} \<and> g1_SSDPath cfg \<noteq> [] \<and>
     g1_SyncMode cfg \<in> {''immediate'', ''periodic'', ''disabled''} \<and>
     (g1_SyncMode cfg = ''periodic'' \<longrightarrow> g1_SyncIntervalMs cfg \<noteq> 0) \<and>
     g1_Compression cfg \<in> {''zstd'', ''snappy'', ''none''}"

definition sinks_wf :: "SinkConfig \<Rightarrow> bool" where
  "sinks_wf s \<longleftrightarrow>
     (gk_Enabled (gs_Kafka s) \<longrightarrow> gk_Brokers (gs_Kafka s) \<noteq> [] \<and> gk_Topic (gs_Kafka s) \<noteq> []) \<and>
     (gm_Enabled (gs_MinIO s) \<longrightarrow> gm_Endpoint (gs_MinIO s) \<noteq> [] \<and> gm_Bucket (gs_MinIO s) \<noteq> []) \<and>
     (gp_Enabled (gs_Postgres s) \<longrightarrow> gp_Host (gs_Postgres s) \<noteq> [] \<and> gp_Port (gs_Postgres s) \<noteq> 0 \<and>
        gp_Database (gs_Postgres s) \<noteq> [] \<and> gp_Table (gs_Postgres s) \<noteq> [])"

definition L2_wf :: "L2Config \<Rightarrow> bool" where
  "L2_wf cfg \<longleftrightarrow> g2_Enabled cfg \<longrightarrow>
     sinks_wf (g2_Sinks cfg) \<and> f64_within 1 (gt_L0ToL1Threshold (g2_Tiering cfg)) \<and>
     f64_within 1 (gt_L1ToL2Threshold (g2_Tiering cfg)) \<and> gt_TierIntervalSec (g2_Tiering cfg) \<noteq> 0"

definition Replay_wf :: "ReplayConfig \<Rightarrow> bool" where
  "Replay_wf cfg \<longleftrightarrow>
     gr_WALPath cfg \<noteq> [] \<and> gr_MaxReplayWorkers cfg \<in> {1..32} \<and> 0 < gr_CheckpointInterval cfg \<and>
     (gr_EnableCheckpoint cfg \<longrightarrow> gr_CheckpointPath cfg \<noteq> []) \<and> gr_MaxReplayTimeSec cfg \<noteq> 0"

definition Logging_wf :: "LoggingConfig \<Rightarrow> bool" where
  "Logging_wf cfg \<longleftrightarrow>
     gl_Level cfg \<in> {''debug'', ''info'', ''warn'', ''error''} \<and> gl_Format cfg \<in> {''json'', ''text''} \<and>
     gl_Output cfg \<in> {''stdout'', ''file''} \<and> (gl_Output cfg = ''file'' \<longrightarrow> gl_FilePath cfg \<noteq> [])"

definition config_wf :: "Config \<Rightarrow> bool" where
  "config_wf cfg \<longleftrightarrow>
     L0_wf (tcc_L0 (cfg_TieredCache cfg)) \<and> L1_wf (tcc_L1 (cfg_TieredCache cfg)) \<and>
     L2_wf (tcc_L2 (cfg_TieredCache cfg)) \<and> Replay_wf (tcc_Replay (cfg_TieredCache cfg)) \<and>
     Logging_wf (tcc_Logging (cfg_TieredCache cfg))"

lemma word_ge_1_iff: "1 \<le> x \<longleftrightarrow> x \<noteq> 0" for x :: u32
  by (simp add: word_le_nat_alt Suc_le_eq unat_gt_0)

lemma check_None: "(if c then Some e else r) = None \<longleftrightarrow> \<not> c \<and> r = None"
  by simp

lemma validateL0Config_None: "validateL0Config cfg = None \<longleftrightarrow> L0_wf cfg"
  unfolding validateL0Config_def L0_wf_def atLeastAtMost_iff word_ge_1_iff check_None not_less
  by blast

lemma validateL1Config_None: "validateL1Config cfg = None \<longleftrightarrow> L1_wf cfg"
  unfolding validateL1Config_def L1_wf_def atLeastAtMost_iff word_ge_1_iff check_None not_less
    f64_within_checks [of 102400, simplified]
  by blast

lemma first_error_None: "first_error xs = None \<longleftrightarrow> (\<forall>x \<in> set xs. x = None)"
  by (induction xs) (auto simp: first_error_def)

lemma validateL2Config_None: "validateL2Config cfg = None \<longleftrightarrow> L2_wf cfg"
  by (auto simp: validateL2Config_def L2_wf_def sinks_wf_def first_error_None validateKafka_def
      validateMinIO_def validatePostgres_def validateTiering_def f64_within_checks)

lemma validateReplayConfig_None: "validateReplayConfig cfg = None \<longleftrightarrow> Replay_wf cfg"
  by (auto simp: validateReplayConfig_def Replay_wf_def)

lemma validateLoggingConfig_None: "validateLoggingConfig cfg = None \<longleftrightarrow> Logging_wf cfg"
  unfolding validateLoggingConfig_def Logging_wf_def check_None by blast

lemma validation_errors_wf: "validation_errors cfg = [] \<longleftrightarrow> config_wf cfg"
  unfolding config_wf_def validateL0Config_None [symmetric] validateL1Config_None [symmetric]
    validateL2Config_None [symmetric] validateReplayConfig_None [symmetric]
    validateLoggingConfig_None [symmetric] validation_errors_def
  by (simp add: map_filter_simps split: option.split)

lemma Validate_shape:
  "Validate show_v (Some cfg) = (if config_wf cfg then None
     else Some (NewConfigError ''config'' GConfigPtr (''validation failed: ['' @
       join_sp (map (error_text show_v) (validation_errors cfg)) @ '']'') []))"
  by (simp add: Validate_def Let_def validation_errors_wf)

text \<open>
  C25. Validation accepts exactly the well-formed configurations: every section within its
  bounds, names among the supported ones, settings of an enabled sink present. The one gap is in
  the float bounds, which accept NaN for the capacity and for both tiering thresholds.
\<close>

theorem validate_iff_wf: "Validate show_v (Some cfg) = None \<longleftrightarrow> config_wf cfg"
  by (simp add: Validate_shape)

lemma default_config_wf:
  assumes "n < 2 ^ 30"
  shows "config_wf (DefaultConfig n) \<longleftrightarrow> n \<le> 128"
proof -
  define k where "k = (if n < 4 then 4 else n)"
  have k: "4 \<le> k" "k < 2 ^ 30" "k \<le> 128 \<longleftrightarrow> n \<le> 128" using assms by (auto simp: k_def)
  have u1: "uint (word_of_int k :: u32) = k"
    using k(1,2) by (simp add: uint_word_of_int)
  have u2: "uint (word_of_int k * 2 :: u32) = k * 2"
    using k(1,2) u1 by (simp add: uint_word_ariths)
  note u = u1 u2
  have "L0_wf (default_L0 k) \<longleftrightarrow> k \<le> 128"
    using k(1) by (simp add: L0_wf_def default_L0_def word_le_def u WeightedUnitBytes_def)
  moreover have "L1_wf (default_L1 k) \<longleftrightarrow> k \<le> 128"
  proof -
    have "f64_within 102400 (f64_lit 10240)" by code_simp
    then show ?thesis using k(1) by (simp add: L1_wf_def default_L1_def word_le_def u)
  qed
  moreover have "L2_wf default_L2"
  proof -
    have "f64_within 1 (f64_lit (85 / 100))" "f64_within 1 (f64_lit (90 / 100))" by code_simp+
    then show ?thesis by (simp add: L2_wf_def default_L2_def sinks_wf_def default_sinks_def)
  qed
  moreover have "Replay_wf default_Replay"
    by (simp add: Replay_wf_def default_Replay_def DefaultMaxReplayWorkers_def
        DefaultCheckpointInterval_def)
  moreover have "Logging_wf default_Logging" by (simp add: Logging_wf_def default_Logging_def)
  ultimately show ?thesis
    unfolding config_wf_def DefaultConfig_def Let_def k_def [symmetric] using k(3) by simp
qed

text \<open>
  The default configuration passes its own validation exactly on machines with at most 128
  processors: the L1 shard count is the number of processors and may not exceed 128, the L0 shard
  count is twice that and may not exceed 256.
\<close>

theorem default_config_valid:
  assumes "n < 2 ^ 30"
  shows "Validate show_v (Some (DefaultConfig n)) = None \<longleftrightarrow> n \<le> 128"
  by (simp add: Validate_shape default_config_wf [OF assms])

theorem default_config_valid_witness:
  "Validate (\<lambda>v. []) (Some (DefaultConfig 8)) = None \<and> Validate (\<lambda>v. []) (Some (DefaultConfig 192)) \<noteq> None"
  using default_config_valid [of 8 "\<lambda>v. []"] default_config_valid [of 192 "\<lambda>v. []"] by simp

subsection \<open>Loading and saving\<close>

text \<open>
  Loading with defaults never reports an error: whatever the path, the file system and the
  contents, the result is the loaded configuration when loading succeeds and the defaults when it
  fails. A file that exists and cannot be read or parsed is silently replaced by the defaults, and
  nothing is validated.
\<close>

theorem load_or_default_total:
  "LoadOrDefault n show_v env path fs =
     (case Load show_v env path fs of Inr cfg \<Rightarrow> Inr cfg | Inl _ \<Rightarrow> Inr (DefaultConfig n))"
  by (auto simp: LoadOrDefault_def Load_def NewConfigError_def split: sum.split)

text \<open>
  C26. A configuration that \<^verbatim>\<open>Save\<close> accepts is well-formed, and \<^verbatim>\<open>Load\<close> reads it back, when the
  YAML library decodes what it encoded and a written file can be read.
\<close>

theorem save_load_roundtrip:
  assumes "\<And>c data. ce_marshal env c = Inr data \<Longrightarrow> ce_unmarshal env data = Inr c"
    and "\<And>p data fs fs'. ce_write env p data fs = (fs', None) \<Longrightarrow>
      \<not> ce_missing env p fs' \<and> ce_read env p fs' = Inr data"
    and "Save show_v env (Some cfg) path fs = (fs', None)"
  shows "config_wf cfg \<and> Load show_v env path fs' = Inr cfg"
proof -
  from assms(3) obtain data fs1 where s: "path \<noteq> []" "Validate show_v (Some cfg) = None"
      "ce_marshal env cfg = Inr data" "ce_write env path data fs1 = (fs', None)"
    by (auto simp: Save_def split: if_split_asm option.split_asm sum.split_asm prod.split_asm)
  then show ?thesis using assms(1) [OF s(3)] assms(2) [OF s(4)]
    by (simp add: Load_def Validate_shape split: if_split_asm)
qed

text \<open>A concrete file system of one file and an encoding of one configuration.\<close>

definition one_file_env :: "Config \<Rightarrow> (string \<rightharpoonup> bytes) config_env" where
  "one_file_env cfg = \<lparr>ce_missing = (\<lambda>p fs. fs p = None),
     ce_read = (\<lambda>p fs. case fs p of None \<Rightarrow> Inl (Errorf ''no such file'' None) | Some bs \<Rightarrow> Inr bs),
     ce_mkdir = (\<lambda>p fs. (fs, None)), ce_write = (\<lambda>p data fs. (fs(p \<mapsto> data), None)),
     ce_unmarshal = (\<lambda>bs. if bs = [1] then Inr cfg else Inl (Errorf ''yaml'' None)),
     ce_marshal = (\<lambda>c. if c = cfg then Inr [1] else Inl (Errorf ''yaml'' None))\<rparr>"

theorem save_load_roundtrip_witness:
  "\<exists>fs'. Save (\<lambda>v. []) (one_file_env (DefaultConfig 8)) (Some (DefaultConfig 8)) ''c.yaml'' Map.empty = (fs', None) \<and>
     Load (\<lambda>v. []) (one_file_env (DefaultConfig 8)) ''c.yaml'' fs' = Inr (DefaultConfig 8)"
proof -
  let ?env = "one_file_env (DefaultConfig 8)"
  have "config_wf (DefaultConfig 8)" by (simp add: default_config_wf)
  then have st: "Save (\<lambda>v. []) ?env (Some (DefaultConfig 8)) ''c.yaml'' Map.empty =
      ([''c.yaml'' \<mapsto> [1]], None)"
    by (simp add: Save_def one_file_env_def Validate_shape)
  have codec: "ce_unmarshal ?env data = Inr c" if "ce_marshal ?env c = Inr data" for c data
    using that by (auto simp: one_file_env_def split: if_split_asm)
  have disk: "\<not> ce_missing ?env p fs' \<and> ce_read ?env p fs' = Inr data"
    if "ce_write ?env p data fs = (fs', None)" for p data fs fs'
    using that by (auto simp: one_file_env_def)
  have "config_wf (DefaultConfig 8) \<and>
      Load (\<lambda>v. []) ?env ''c.yaml'' [''c.yaml'' \<mapsto> [1]] = Inr (DefaultConfig 8)"
    by (rule save_load_roundtrip [OF _ _ st]) (rule codec, assumption, rule disk, assumption)
  then show ?thesis using st by blast
qed

end
