(* ===== verification/L2_Sinks.thy ===== *)
theory L2_Sinks
  imports Go_Lib Consts
begin

text \<open>
  The cold tier's sink manager (\<^verbatim>\<open>pkg/l2/sinks.go\<close>). A sink is an interface whose
  implementations are outside the repository: a record of its methods over a state \<open>'w\<close> of the
  outside world. The manager's broadcast operations start one goroutine for each sink; the
  goroutines take the manager's lock only to count, so a schedule, the order in which they
  finish with the time each call took, determines the outcome.
\<close>

type_synonym metadata = "(string \<times> string) list"

record SinkItem =
  si_Key :: string
  si_Value :: bytes
  si_Metadata :: "nat option"
  si_Timestamp :: go_time

record 'w Sink =
  sk_Name :: string
  sk_Type :: string
  sk_Write :: "string \<Rightarrow> bytes \<Rightarrow> metadata option \<Rightarrow> 'w \<Rightarrow> 'w \<times> go_error option"
  sk_WriteBatch :: "SinkItem list \<Rightarrow> 'w \<Rightarrow> 'w \<times> go_error option"
  sk_Read :: "string \<Rightarrow> 'w \<Rightarrow> go_error + bytes"
  sk_Delete :: "string \<Rightarrow> 'w \<Rightarrow> 'w \<times> go_error option"
  sk_Ping :: "'w \<Rightarrow> 'w \<times> go_error option"
  sk_Close :: "'w \<Rightarrow> 'w \<times> go_error option"

record SinkStats =
  ss_Name :: string
  ss_Type :: string
  ss_Writes :: u64
  ss_Reads :: u64
  ss_Deletes :: u64
  ss_Errors :: u64
  ss_BytesWritten :: u64
  ss_BytesRead :: u64
  ss_LatencyAvg :: int

record 'w SinkManager =
  sm_sinks :: "(string \<times> 'w Sink) list"
  sm_stats :: "(string \<times> SinkStats) list"
  sm_closed :: bool

definition NewSinkManager :: "'w SinkManager" where
  "NewSinkManager = \<lparr>sm_sinks = [], sm_stats = [], sm_closed = False\<rparr>"

definition RegisterSink ::
    "'w Sink option \<Rightarrow> 'w SinkManager \<Rightarrow> 'w SinkManager \<times> go_error option" where
  "RegisterSink sink0 m =
     (case sink0 of
        None \<Rightarrow> (m, Some (Errorf ''sink cannot be nil'' None))
      | Some sink \<Rightarrow>
        let name = sk_Name sink
        in if name = [] then (m, Some (Errorf ''sink name cannot be empty'' None))
        else if map_of (sm_sinks m) name \<noteq> None then
          (m, Some (Errorf (''sink '' @ name @ '' already registered'') None))
        else (m\<lparr>sm_sinks := AList.update name sink (sm_sinks m),
                sm_stats := AList.update name
                  \<lparr>ss_Name = name, ss_Type = sk_Type sink, ss_Writes = 0, ss_Reads = 0,
                   ss_Deletes = 0, ss_Errors = 0, ss_BytesWritten = 0, ss_BytesRead = 0,
                   ss_LatencyAvg = 0\<rparr> (sm_stats m)\<rparr>, None))"

definition GetSink :: "string \<Rightarrow> 'w SinkManager \<Rightarrow> 'w Sink option" where
  "GetSink name m = map_of (sm_sinks m) name"

definition GetSinks :: "'w SinkManager \<Rightarrow> (string \<times> 'w Sink) list" where
  "GetSinks m = map (\<lambda>(k, v). (k, v)) (sm_sinks m)"

subsection \<open>Writing\<close>

text \<open>
  The counters after one call that took \<open>duration\<close>. The call is counted before and again for the
  average; the counters stay far below \<open>2 ^ 63\<close>, so their conversion to \<^verbatim>\<open>int64\<close> is exact.
\<close>

definition count_write :: "nat \<Rightarrow> go_error option \<Rightarrow> int \<Rightarrow> SinkStats \<Rightarrow> SinkStats" where
  "count_write len err duration st =
     (let st1 = st\<lparr>ss_Writes := ss_Writes st + 1, ss_BytesWritten := ss_BytesWritten st + of_nat len,
                   ss_Errors := (if err \<noteq> None then ss_Errors st + 1 else ss_Errors st)\<rparr>;
          oldAvg = ss_LatencyAvg st1;
          newCount = ss_Writes st1 + 1;
          newAvg = go_quot (oldAvg * uint (newCount - 1) + duration) (uint newCount)
      in st1\<lparr>ss_Writes := newCount, ss_LatencyAvg := newAvg\<rparr>)"

definition on_stats :: "string \<Rightarrow> (SinkStats \<Rightarrow> SinkStats) \<Rightarrow> 'w SinkManager \<Rightarrow> 'w SinkManager" where
  "on_stats name f m =
     (case map_of (sm_stats m) name of
        None \<Rightarrow> m
      | Some st \<Rightarrow> m\<lparr>sm_stats := AList.update name (f st) (sm_stats m)\<rparr>)"

text \<open>A schedule: sink names in the order their goroutines finish, with durations.\<close>

type_synonym schedule = "(string \<times> int) list"

definition sched_ok :: "'w SinkManager \<Rightarrow> schedule \<Rightarrow> bool" where
  "sched_ok m sch \<longleftrightarrow> distinct (map fst sch) \<and> set (map fst sch) = fst ` set (sm_sinks m)"

fun write_sinks ::
    "schedule \<Rightarrow> string \<Rightarrow> bytes \<Rightarrow> metadata option \<Rightarrow> 'w SinkManager \<Rightarrow> 'w \<Rightarrow> go_error option \<Rightarrow>
     'w SinkManager \<times> 'w \<times> go_error option" where
  "write_sinks [] key v md m w lastErr = (m, w, lastErr)"
| "write_sinks ((name, duration) # sch) key v md m w lastErr =
     (case map_of (sm_sinks m) name of
        None \<Rightarrow> write_sinks sch key v md m w lastErr
      | Some s \<Rightarrow>
          (case sk_Write s key v md w of (w1, err) \<Rightarrow>
             write_sinks sch key v md (on_stats (sk_Name s) (count_write (length v) err duration) m) w1
               (if err \<noteq> None then err else lastErr)))"

definition SinkManager_Write ::
    "schedule \<Rightarrow> string \<Rightarrow> bytes \<Rightarrow> metadata option \<Rightarrow> 'w SinkManager \<Rightarrow> 'w \<Rightarrow>
     'w SinkManager \<times> 'w \<times> go_error option" where
  "SinkManager_Write sch key v md m w =
     (if length (sm_sinks m) = 0 then (m, w, Some (Errorf ''no sinks registered'' None))
      else write_sinks sch key v md m w None)"

subsection \<open>The other broadcasts\<close>

text \<open>One call on each sink, in the schedule's order; the last error is returned.\<close>

fun broadcast ::
    "('w Sink \<Rightarrow> 'w \<Rightarrow> 'w \<times> go_error option) \<Rightarrow> schedule \<Rightarrow> 'w SinkManager \<Rightarrow> 'w \<Rightarrow>
     (string \<times> go_error option) list \<Rightarrow> 'w \<times> (string \<times> go_error option) list" where
  "broadcast f [] m w results = (w, results)"
| "broadcast f ((name, duration) # sch) m w results =
     (case map_of (sm_sinks m) name of
        None \<Rightarrow> broadcast f sch m w results
      | Some s \<Rightarrow> (case f s w of (w1, err) \<Rightarrow> broadcast f sch m w1 (results @ [(sk_Name s, err)])))"

definition last_error :: "(string \<times> go_error option) list \<Rightarrow> go_error option" where
  "last_error results = foldl (\<lambda>acc (name, err). if err \<noteq> None then err else acc) None results"

definition WriteBatch ::
    "schedule \<Rightarrow> SinkItem list \<Rightarrow> 'w SinkManager \<Rightarrow> 'w \<Rightarrow> 'w \<times> go_error option" where
  "WriteBatch sch items m w =
     (if length items = 0 then (w, None)
      else if length (sm_sinks m) = 0 then (w, Some (Errorf ''no sinks registered'' None))
      else (case broadcast (\<lambda>s. sk_WriteBatch s items) sch m w [] of
              (w1, results) \<Rightarrow> (w1, last_error results)))"

definition SinkManager_Delete ::
    "schedule \<Rightarrow> string \<Rightarrow> 'w SinkManager \<Rightarrow> 'w \<Rightarrow> 'w \<times> go_error option" where
  "SinkManager_Delete sch key m w =
     (case broadcast (\<lambda>s. sk_Delete s key) sch m w [] of (w1, results) \<Rightarrow> (w1, last_error results))"

definition PingAll ::
    "schedule \<Rightarrow> 'w SinkManager \<Rightarrow> 'w \<Rightarrow> 'w \<times> (string \<times> go_error option) list" where
  "PingAll sch m w = broadcast sk_Ping sch m w []"

definition SinkManager_Stats :: "'w SinkManager \<Rightarrow> (string \<times> SinkStats) list" where
  "SinkManager_Stats m = sm_stats m"

text \<open>\<^verbatim>\<open>Close\<close> goes over the map in an unspecified order, \<open>sch\<close>, holding the lock.\<close>

definition SinkManager_Close ::
    "schedule \<Rightarrow> 'w SinkManager \<Rightarrow> 'w \<Rightarrow> 'w SinkManager \<times> 'w \<times> go_error option" where
  "SinkManager_Close sch m w =
     (if sm_closed m then (m, w, None)
      else
        (case broadcast sk_Close sch m w [] of (w1, results) \<Rightarrow>
           let closeErrors = List.map_filter
                 (\<lambda>(name, err). map_option (\<lambda>e. Errorf (name @ '': '') (Some e)) err) results
           in (m\<lparr>sm_closed := True\<rparr>, w1,
               if 0 < length closeErrors then Some (ErrorfList ''errors closing sinks: '' closeErrors)
               else None)))"

subsection \<open>Serialisation\<close>

text \<open>Both are calls of \<^verbatim>\<open>encoding/json\<close>, a parameter; a failed decoding returns the item as far as
  it was decoded.\<close>

definition SerializeItem :: "(SinkItem \<Rightarrow> go_error + bytes) \<Rightarrow> SinkItem \<Rightarrow> go_error + bytes" where
  "SerializeItem marshal item = marshal item"

definition DeserializeItem ::
    "(bytes \<Rightarrow> SinkItem \<times> go_error option) \<Rightarrow> bytes \<Rightarrow> SinkItem \<times> go_error option" where
  "DeserializeItem unmarshal data = unmarshal data"

end
