(* ===== verification/L2_Retry.thy ===== *)
theory L2_Retry
  imports L2_Sinks "HOL-Library.Sublist" "HOL-Library.List_Lexorder"
begin

text \<open>
  Retrying failed sink operations (\<^verbatim>\<open>pkg/l2/retry.go\<close>): the retry queue and the dead letter queue
  with their directories of files, the back-off, and the test for retryable errors. The retry
  queue never looks into its items, so its definitions are over any type of items; the dead
  letter queue writes into the item's metadata map, which is shared by reference, so it works
  on a heap of maps. Encoding is a parameter.
\<close>

subsection \<open>The retry queue\<close>

type_synonym files = "(string \<times> bytes) list"

record 'i RetryQueue =
  rq_items :: "'i list"
  rq_maxSize :: int
  rq_diskPath :: string

definition NewRetryQueue :: "go_error option \<Rightarrow> string \<Rightarrow> int \<Rightarrow> go_error + 'i RetryQueue" where
  "NewRetryQueue mkdir diskPath maxSize =
     (case (if diskPath \<noteq> [] then mkdir else None) of
        Some e \<Rightarrow> Inl (Errorf ''failed to create retry queue directory: '' (Some e))
      | None \<Rightarrow> Inr \<lparr>rq_items = [], rq_maxSize = maxSize, rq_diskPath = diskPath\<rparr>)"

text \<open>The environment of a persisting call: encoding, the nanosecond of the file name, the write.\<close>

record 'i persist_env =
  pe_marshal :: "'i \<Rightarrow> go_error + bytes"
  pe_nano :: nat
  pe_write :: "go_error option"

definition retry_file :: "nat \<Rightarrow> string" where
  "retry_file nano = ''retry_'' @ nat_digits nano @ ''.json''"

text \<open>A write that fails may have created or truncated the file; it is left out here.\<close>

definition persistToDisk :: "'i persist_env \<Rightarrow> 'i \<Rightarrow> files \<Rightarrow> files \<times> go_error option" where
  "persistToDisk env item d =
     (case pe_marshal env item of
        Inl e \<Rightarrow> (d, Some (Errorf ''failed to marshal retry item: '' (Some e)))
      | Inr data \<Rightarrow>
     (case pe_write env of
        Some e \<Rightarrow> (d, Some e)
      | None \<Rightarrow> (AList.update (retry_file (pe_nano env)) data d, None)))"

definition RetryQueue_Add ::
    "'i persist_env \<Rightarrow> 'i \<Rightarrow> 'i RetryQueue \<Rightarrow> files \<Rightarrow> 'i RetryQueue \<times> files \<times> go_error option" where
  "RetryQueue_Add env item q d =
     (if 0 < rq_maxSize q \<and> rq_maxSize q \<le> int (length (rq_items q)) then
        (q, d, Some (Errorf (''retry queue is full ('' @ fmt_d (rq_maxSize q) @ '' items)'') None))
      else (q\<lparr>rq_items := rq_items q @ [item]\<rparr>,
            if rq_diskPath q \<noteq> [] then fst (persistToDisk env item d) else d, None))"

definition RetryQueue_GetAll :: "'i RetryQueue \<Rightarrow> 'i RetryQueue \<times> 'i list" where
  "RetryQueue_GetAll q = (q\<lparr>rq_items := []\<rparr>, rq_items q)"

definition RetryQueue_Size :: "'i RetryQueue \<Rightarrow> int" where
  "RetryQueue_Size q = int (length (rq_items q))"

definition is_retry_file :: "string \<Rightarrow> bool" where
  "is_retry_file name \<longleftrightarrow> prefix ''retry_'' name \<and> suffix ''.json'' name \<and> 11 \<le> length name"

text \<open>
  The loop over the files: \<open>rd\<close> gives the contents read or an error. A file that cannot be read
  or decoded stays.
\<close>

fun load_files ::
    "(string \<Rightarrow> bytes \<Rightarrow> go_error + bytes) \<Rightarrow> (bytes \<Rightarrow> go_error + 'i) \<Rightarrow> string list \<Rightarrow>
     'i RetryQueue \<Rightarrow> files \<Rightarrow> 'i RetryQueue \<times> files" where
  "load_files rd unm [] q d = (q, d)"
| "load_files rd unm (f # fs) q d =
     (case map_of d f of
        None \<Rightarrow> load_files rd unm fs q d
      | Some bs \<Rightarrow>
     (case rd f bs of
        Inl e \<Rightarrow> load_files rd unm fs q d
      | Inr data \<Rightarrow>
     (case unm data of
        Inl e \<Rightarrow> load_files rd unm fs q d
      | Inr item \<Rightarrow>
          load_files rd unm fs (q\<lparr>rq_items := rq_items q @ [item]\<rparr>) (AList.delete f d))))"

text \<open>\<^verbatim>\<open>filepath.Glob\<close> gives the matching names in sorted order, or the error \<open>glob\<close>.\<close>

definition LoadFromDisk ::
    "(string \<Rightarrow> bytes \<Rightarrow> go_error + bytes) \<Rightarrow> (bytes \<Rightarrow> go_error + 'i) \<Rightarrow> go_error option \<Rightarrow>
     'i RetryQueue \<Rightarrow> files \<Rightarrow> 'i RetryQueue \<times> files \<times> go_error option" where
  "LoadFromDisk rd unm glob q d =
     (if rq_diskPath q = [] then (q, d, None)
      else
     (case glob of
        Some e \<Rightarrow> (q, d, Some (Errorf ''failed to glob retry files: '' (Some e)))
      | None \<Rightarrow>
          (case load_files rd unm (sort (filter is_retry_file (map fst d))) q d of
             (q1, d1) \<Rightarrow> (q1, d1, None))))"

subsection \<open>The dead letter queue\<close>

text \<open>Metadata maps live in a heap, addressed by number; \<open>hp_next\<close> is the next free address.\<close>

record heap =
  hp_maps :: "nat \<Rightarrow> metadata"
  hp_next :: nat

definition new_map :: "heap \<Rightarrow> heap \<times> nat" where
  "new_map h = (h\<lparr>hp_maps := (hp_maps h)(hp_next h := []), hp_next := hp_next h + 1\<rparr>, hp_next h)"

definition put_map :: "nat \<Rightarrow> string \<Rightarrow> string \<Rightarrow> heap \<Rightarrow> heap" where
  "put_map a k v h = h\<lparr>hp_maps := (hp_maps h)(a := AList.update k v (hp_maps h a))\<rparr>"

record DeadLetterQueue =
  dq_items :: "SinkItem list"
  dq_maxSize :: int
  dq_diskPath :: string

definition NewDeadLetterQueue :: "go_error option \<Rightarrow> string \<Rightarrow> int \<Rightarrow> go_error + DeadLetterQueue" where
  "NewDeadLetterQueue mkdir diskPath maxSize =
     (case (if diskPath \<noteq> [] then mkdir else None) of
        Some e \<Rightarrow> Inl (Errorf ''failed to create DLQ directory: '' (Some e))
      | None \<Rightarrow> Inr \<lparr>dq_items = [], dq_maxSize = maxSize, dq_diskPath = diskPath\<rparr>)"

text \<open>
  \<open>reason\<close> and \<open>stamp\<close> are the texts of the reason (a nil reason panics) and of the time. The encoding sees the item
  with its map's contents.
\<close>

record dlq_env =
  de_marshal :: "SinkItem \<Rightarrow> metadata \<Rightarrow> go_error + bytes"
  de_nano :: nat
  de_write :: "go_error option"

definition DLQ_Add ::
    "dlq_env \<Rightarrow> SinkItem \<Rightarrow> string \<Rightarrow> string \<Rightarrow> DeadLetterQueue \<Rightarrow> heap \<Rightarrow> files \<Rightarrow>
     DeadLetterQueue \<times> heap \<times> files \<times> go_error option" where
  "DLQ_Add env item0 reason stamp q h0 d =
     (let (h1, a) = (case si_Metadata item0 of None \<Rightarrow> new_map h0 | Some a \<Rightarrow> (h0, a));
          item = item0\<lparr>si_Metadata := Some a\<rparr>;
          h = put_map a ''dlq_timestamp'' stamp (put_map a ''dlq_reason'' reason h1)
      in if 0 < dq_maxSize q \<and> dq_maxSize q \<le> int (length (dq_items q)) then
           (q, h, d, Some (Errorf (''dead letter queue is full ('' @ fmt_d (dq_maxSize q) @ '' items)'') None))
         else
           let q1 = q\<lparr>dq_items := dq_items q @ [item]\<rparr>
           in if dq_diskPath q = [] then (q1, h, d, None)
              else
             (case de_marshal env item (hp_maps h a) of
                Inl e \<Rightarrow> (q1, h, d, Some (Errorf ''failed to marshal DLQ item: '' (Some e)))
              | Inr data \<Rightarrow>
             (case de_write env of
                Some e \<Rightarrow> (q1, h, d, Some (Errorf ''failed to write DLQ item: '' (Some e)))
              | None \<Rightarrow>
                  (q1, h, AList.update (''dlq_'' @ nat_digits (de_nano env) @ ''.json'') data d, None))))"

definition DLQ_GetAll :: "DeadLetterQueue \<Rightarrow> DeadLetterQueue \<times> SinkItem list" where
  "DLQ_GetAll q = (q\<lparr>dq_items := []\<rparr>, dq_items q)"

definition DLQ_Size :: "DeadLetterQueue \<Rightarrow> int" where
  "DLQ_Size q = int (length (dq_items q))"

subsection \<open>Back-off\<close>

record RetryConfig =
  rc_MaxRetries :: int
  rc_InitialBackoff :: int
  rc_MaxBackoff :: int
  rc_BackoffMultiplier :: f64

definition DefaultRetryConfig :: RetryConfig where
  "DefaultRetryConfig = \<lparr>rc_MaxRetries = 3, rc_InitialBackoff = 100 * 1000000,
     rc_MaxBackoff = 30 * 1000000000, rc_BackoffMultiplier = F64 2\<rparr>"

text \<open>
  \<^verbatim>\<open>time.Duration(x)\<close> of a float; \<open>oor\<close> is what the platform gives for a value out of range.
\<close>

definition f64_to_i64 :: "(f64 \<Rightarrow> int) \<Rightarrow> f64 \<Rightarrow> int" where
  "f64_to_i64 oor x =
     (case f64_trunc x of
        None \<Rightarrow> oor x
      | Some i \<Rightarrow> if - (2 ^ 63) \<le> i \<and> i < 2 ^ 63 then i else oor x)"

definition backoff_step :: "(f64 \<Rightarrow> int) \<Rightarrow> RetryConfig \<Rightarrow> int \<Rightarrow> int" where
  "backoff_step oor c backoff =
     (let b = f64_to_i64 oor (f64_mul (f64_of_int backoff) (rc_BackoffMultiplier c))
      in if rc_MaxBackoff c < b then rc_MaxBackoff c else b)"

definition CalculateBackoff :: "(f64 \<Rightarrow> int) \<Rightarrow> RetryConfig \<Rightarrow> int \<Rightarrow> int" where
  "CalculateBackoff oor c attempt =
     (backoff_step oor c ^^ nat (min attempt (rc_MaxRetries c))) (rc_InitialBackoff c)"

subsection \<open>Retryable errors\<close>

text \<open>\<^verbatim>\<open>s[i:i+len(substr)] == substr\<close> for \<open>i\<close> from 0 while \<open>i <= len(s) - len(substr)\<close>.\<close>

fun contains_from :: "nat \<Rightarrow> nat \<Rightarrow> string \<Rightarrow> string \<Rightarrow> bool" where
  "contains_from 0 i s sub = False"
| "contains_from (Suc n) i s sub =
     (if int i \<le> int (length s) - int (length sub) then
        if take (length sub) (drop i s) = sub then True else contains_from n (Suc i) s sub
      else False)"

definition containsAt :: "string \<Rightarrow> string \<Rightarrow> bool" where
  "containsAt s sub = contains_from (length s + 1) 0 s sub"

definition l2_contains :: "string \<Rightarrow> string \<Rightarrow> bool" where
  "l2_contains s sub \<longleftrightarrow>
     length sub \<le> length s \<and> (s = sub \<or> (0 < length s \<and> containsAt s sub))"

definition retryablePatterns :: "string list" where
  "retryablePatterns =
     [''connection refused'', ''connection reset'', ''timeout'', ''temporary failure'', ''i/o timeout'',
      ''no route to host'', ''network is unreachable'']"

definition l2_IsRetryable :: "(gval \<Rightarrow> string) \<Rightarrow> go_error option \<Rightarrow> bool" where
  "l2_IsRetryable show_v err =
     (case err of
        None \<Rightarrow> False
      | Some e \<Rightarrow>
     (case AsTieredCacheError (Some e) of
        Some t \<Rightarrow> tce_Retryable t
      | None \<Rightarrow> list_ex (l2_contains (error_text show_v e)) retryablePatterns))"

end
