(* ===== verification/L2_Props.thy ===== *)
theory L2_Props
  imports L2_Retry "HOL-Library.Multiset"
begin

text \<open>
  The cold tier: the statistics of the sink manager, what the retry queue keeps in memory and on
  disk, the sharing of metadata in the dead letter queue, the back-off, and the test for
  retryable errors.
\<close>

subsection \<open>Retryable errors\<close>

lemma contains_from_iff:
  "contains_from n i s sub \<longleftrightarrow>
     (\<exists>j \<ge> i. j < i + n \<and> j + length sub \<le> length s \<and> take (length sub) (drop j s) = sub)"
proof (induction n arbitrary: i)
  case 0
  then show ?case by simp
next
  case (Suc n)
  show ?case
  proof (cases "i + length sub \<le> length s")
    case False
    then show ?thesis by auto
  next
    case True
    then have "contains_from (Suc n) i s sub \<longleftrightarrow>
        take (length sub) (drop i s) = sub \<or> contains_from n (Suc i) s sub" by simp
    also have "\<dots> \<longleftrightarrow> (\<exists>j \<ge> i. j < i + Suc n \<and> j + length sub \<le> length s \<and>
        take (length sub) (drop j s) = sub)"
      unfolding Suc.IH using True
      by (metis Suc_leD Suc_leI add_Suc add_Suc_right le_neq_implies_less less_add_Suc1 order_refl)
    finally show ?thesis .
  qed
qed

lemma sublist_at: "sublist sub s \<longleftrightarrow> (\<exists>j. j + length sub \<le> length s \<and> take (length sub) (drop j s) = sub)"
proof
  assume "sublist sub s"
  then obtain u v where "s = u @ sub @ v" by (auto simp: sublist_def)
  then show "\<exists>j. j + length sub \<le> length s \<and> take (length sub) (drop j s) = sub"
    by (intro exI [of _ "length u"]) simp
next
  assume "\<exists>j. j + length sub \<le> length s \<and> take (length sub) (drop j s) = sub"
  then obtain j where "take (length sub) (drop j s) = sub" by blast
  then have "s = take j s @ sub @ drop (length sub) (drop j s)"
    by (metis append_take_drop_id)
  then show "sublist sub s" unfolding sublist_def by blast
qed

text \<open>The hand-written substring search finds exactly the substrings.\<close>

theorem contains_substring: "l2_contains s sub \<longleftrightarrow> sublist sub s"
proof -
  have "containsAt s sub \<longleftrightarrow> sublist sub s"
    unfolding containsAt_def contains_from_iff sublist_at
    by (simp add: less_Suc_eq_le) (metis add_leD1)
  then show ?thesis
    unfolding l2_contains_def by (auto dest: sublist_length_le)
qed

text \<open>
  The retry wrapper's own verdict is ignored: \<^verbatim>\<open>IsRetryable\<close> of the package looks for a
  \<^verbatim>\<open>TieredCacheError\<close> in the chain and then at the text, so flipping the flag of a
  \<^verbatim>\<open>RetryableError\<close> never changes its answer, and a failure marked as retryable is not retried
  unless its text contains one of the patterns.
\<close>

theorem retry_flag_ignored:
  "l2_IsRetryable show_v (Some (RetryableError e r n)) = l2_IsRetryable show_v (Some (RetryableError e r' n))"
proof -
  have "errors_As as_TieredCacheError (RetryableError e r n) =
      errors_As as_TieredCacheError (RetryableError e r' n)"
    by (subst (1 2) errors_As.simps) simp
  then show ?thesis
    by (simp add: l2_IsRetryable_def AsTieredCacheError_def split: option.split)
qed

subsection \<open>Back-off\<close>

lemma backoff_step_le: "backoff_step oor c b \<le> rc_MaxBackoff c"
  by (simp add: backoff_step_def Let_def)

lemma funpow_last: "0 < n \<Longrightarrow> (f ^^ n) x = f ((f ^^ (n - 1)) x)"
  by (cases n) simp_all

text \<open>
  From the first retry on the back-off never exceeds its maximum, it stops growing at the
  configured number of retries, and for the default configuration it doubles from 100
  milliseconds, so that its maximum of 30 seconds is never reached. (Before the first retry it is
  the initial back-off, which nothing caps.)
\<close>

theorem backoff_bounded:
  "(0 < attempt \<and> 0 < rc_MaxRetries c \<longrightarrow> CalculateBackoff oor c attempt \<le> rc_MaxBackoff c) \<and>
   (attempt \<le> 0 \<longrightarrow> CalculateBackoff oor c attempt = rc_InitialBackoff c) \<and>
   (rc_MaxRetries c \<le> attempt \<longrightarrow> CalculateBackoff oor c attempt = CalculateBackoff oor c (rc_MaxRetries c)) \<and>
   CalculateBackoff oor DefaultRetryConfig attempt = 100000000 * 2 ^ nat (min attempt 3)"
proof (intro conjI impI)
  assume "0 < attempt \<and> 0 < rc_MaxRetries c"
  then have "0 < nat (min attempt (rc_MaxRetries c))" by simp
  then show "CalculateBackoff oor c attempt \<le> rc_MaxBackoff c"
    unfolding CalculateBackoff_def by (simp only: funpow_last backoff_step_le)
next
  assume "attempt \<le> 0"
  then show "CalculateBackoff oor c attempt = rc_InitialBackoff c" by (simp add: CalculateBackoff_def)
next
  assume "rc_MaxRetries c \<le> attempt"
  then show "CalculateBackoff oor c attempt = CalculateBackoff oor c (rc_MaxRetries c)"
    by (simp add: CalculateBackoff_def min_absorb2)
next
  have conv: "f64_mul (f64_of_int 100000000) (F64 2) = F64 200000000"
    "f64_mul (f64_of_int 200000000) (F64 2) = F64 400000000"
    "f64_mul (f64_of_int 400000000) (F64 2) = F64 800000000"
    by code_simp+
  have s: "backoff_step oor DefaultRetryConfig 100000000 = 200000000"
    "backoff_step oor DefaultRetryConfig 200000000 = 400000000"
    "backoff_step oor DefaultRetryConfig 400000000 = 800000000"
    unfolding backoff_step_def DefaultRetryConfig_def
    by (simp_all add: conv f64_to_i64_def)
  have c: "rc_MaxRetries DefaultRetryConfig = 3" "rc_InitialBackoff DefaultRetryConfig = 100000000"
    by (simp_all add: DefaultRetryConfig_def)
  define k where "k = nat (min attempt 3)"
  have "k = 0 \<or> k = 1 \<or> k = 2 \<or> k = 3" by (auto simp: k_def)
  then have "(backoff_step oor DefaultRetryConfig ^^ k) 100000000 = 100000000 * 2 ^ k"
    by (elim disjE) (simp_all add: s numeral_2_eq_2 numeral_3_eq_3)
  then show "CalculateBackoff oor DefaultRetryConfig attempt = 100000000 * 2 ^ nat (min attempt 3)"
    unfolding CalculateBackoff_def c k_def .
qed

subsection \<open>The sink manager\<close>

text \<open>The statistics of a sink of the manager.\<close>

definition stats_of :: "'w SinkManager \<Rightarrow> string \<Rightarrow> SinkStats option" where
  "stats_of m name = map_of (sm_stats m) name"

text \<open>Registered sinks go by their own names and each has its statistics.\<close>

definition sm_inv :: "'w SinkManager \<Rightarrow> bool" where
  "sm_inv m \<longleftrightarrow> distinct (map fst (sm_sinks m)) \<and> (\<forall>(n, s) \<in> set (sm_sinks m). sk_Name s = n) \<and>
     (\<forall>n. map_of (sm_sinks m) n \<noteq> None \<longleftrightarrow> stats_of m n \<noteq> None)"

lemma stats_of_on_stats:
  "stats_of (on_stats n f m) k = (if k = n then map_option f (stats_of m n) else stats_of m k)"
  by (auto simp: stats_of_def on_stats_def split: option.split)

lemma sinks_on_stats [simp]: "sm_sinks (on_stats n f m) = sm_sinks m"
  by (simp add: on_stats_def split: option.split)

lemma sm_inv_on_stats [simp]: "sm_inv (on_stats n f m) = sm_inv m"
  by (auto simp: sm_inv_def stats_of_on_stats)

lemma sm_inv_sink: "sm_inv m \<Longrightarrow> map_of (sm_sinks m) n = Some s \<Longrightarrow> sk_Name s = n"
  by (auto simp: sm_inv_def dest!: map_of_SomeD)

lemma sm_inv_stats: "sm_inv m \<Longrightarrow> stats_of m n = None \<longleftrightarrow> n \<notin> fst ` set (sm_sinks m)"
  unfolding sm_inv_def map_of_eq_None_iff [symmetric] by blast

lemma sm_inv_new: "sm_inv NewSinkManager"
  by (simp add: sm_inv_def NewSinkManager_def stats_of_def)

lemma sm_inv_register: "sm_inv m \<Longrightarrow> RegisterSink s m = (m', e) \<Longrightarrow> sm_inv m'"
  by (auto simp: sm_inv_def RegisterSink_def Let_def stats_of_def dest!: set_AList_update_subset [THEN subsetD]
      split: option.splits if_split_asm) blast

lemma count_write_Writes:
  "ss_Writes (count_write len err duration st) = ss_Writes st + 2"
  by (simp add: count_write_def Let_def)

lemma write_sinks_Writes:
  assumes "sm_inv m" and "distinct (map fst sch)"
    and "write_sinks sch key v md m w lastErr = (m', w', e)"
  shows "sm_inv m' \<and> sm_sinks m' = sm_sinks m \<and>
    (\<forall>n. map_option ss_Writes (stats_of m' n) = map_option (\<lambda>st. ss_Writes st +
      (if n \<in> set (map fst sch) then 2 else 0)) (stats_of m n))"
  using assms
proof (induction sch key v md m w lastErr rule: write_sinks.induct)
  case (1 key v md m w lastErr)
  then show ?case by auto
next
  case (2 name duration sch key v md m w lastErr)
  show ?case
  proof (cases "map_of (sm_sinks m) name")
    case None
    then have "stats_of m name = None"
      unfolding sm_inv_stats [OF "2.prems"(1)] by (simp add: map_of_eq_None_iff)
    moreover have "write_sinks sch key v md m w lastErr = (m', w', e)" using "2.prems"(3) None by simp
    ultimately show ?thesis using "2.IH"(1) [OF None "2.prems"(1)] "2.prems"(2) by auto
  next
    case (Some s)
    obtain w1 err where w1: "sk_Write s key v md w = (w1, err)" by fastforce
    have n: "sk_Name s = name" by (rule sm_inv_sink [OF "2.prems"(1) Some])
    define m1 where "m1 = on_stats name (count_write (length v) err duration) m"
    have run: "write_sinks sch key v md m1 w1 (if err \<noteq> None then err else lastErr) = (m', w', e)"
      using "2.prems"(3) Some w1 n by (simp add: m1_def)
    have "sm_inv m1" "distinct (map fst sch)" using "2.prems" by (simp_all add: m1_def)
    from "2.IH"(2) [OF Some w1 [symmetric], unfolded n, folded m1_def, OF this run]
    have IH: "sm_inv m' \<and> sm_sinks m' = sm_sinks m1 \<and>
      (\<forall>n. map_option ss_Writes (stats_of m' n) = map_option (\<lambda>st. ss_Writes st +
        (if n \<in> set (map fst sch) then 2 else 0)) (stats_of m1 n))" .
    have "name \<notin> set (map fst sch)" using "2.prems"(2) by simp
    then show ?thesis
      using IH by (auto simp: m1_def stats_of_on_stats option.map_comp comp_def count_write_Writes)
  qed
qed

text \<open>A sequence of \<^verbatim>\<open>Write\<close> calls, each with its schedule, key and value.\<close>

fun writes_run ::
    "(schedule \<times> string \<times> bytes) list \<Rightarrow> 'w SinkManager \<Rightarrow> 'w \<Rightarrow> 'w SinkManager \<times> 'w" where
  "writes_run [] m w = (m, w)"
| "writes_run ((sch, key, v) # cs) m w =
     (case SinkManager_Write sch key v None m w of (m1, w1, e) \<Rightarrow> writes_run cs m1 w1)"

lemma writes_run_Writes:
  assumes "sm_inv m" and "sm_sinks m \<noteq> []" and "\<forall>(sch, key, v) \<in> set cs. sched_ok m sch"
    and "writes_run cs m w = (m', w')"
  shows "\<forall>n st. stats_of m n = Some st \<longrightarrow>
    (\<exists>st'. stats_of m' n = Some st' \<and> ss_Writes st' = ss_Writes st + of_nat (2 * length cs))"
  using assms
proof (induction cs m w rule: writes_run.induct)
  case (1 m w)
  then show ?case by auto
next
  case (2 sch key v cs m w)
  obtain m1 w1 e where st: "SinkManager_Write sch key v None m w = (m1, w1, e)" by (metis prod_cases3)
  then have ws: "write_sinks sch key v None m w None = (m1, w1, e)"
    using "2.prems"(2) by (simp add: SinkManager_Write_def)
  have sch: "sched_ok m sch" using "2.prems"(3) by simp
  then have "distinct (map fst sch)" by (simp add: sched_ok_def)
  from write_sinks_Writes [OF "2.prems"(1) this ws]
  have m1: "sm_inv m1" "sm_sinks m1 = sm_sinks m" "\<And>n. map_option ss_Writes (stats_of m1 n) =
      map_option (\<lambda>st. ss_Writes st + (if n \<in> set (map fst sch) then 2 else 0)) (stats_of m n)"
    by blast+
  have "\<forall>(sch, key, v) \<in> set cs. sched_ok m1 sch" "sm_sinks m1 \<noteq> []"
    using "2.prems"(2,3) m1(2) by (auto simp: sched_ok_def)
  from "2.IH" [OF st [symmetric] refl m1(1) this(2,1)] "2.prems"(4) st
  have IH: "\<forall>n st. stats_of m1 n = Some st \<longrightarrow>
    (\<exists>st'. stats_of m' n = Some st' \<and> ss_Writes st' = ss_Writes st + of_nat (2 * length cs))" by simp
  show ?case
  proof (intro allI impI)
    fix n st
    assume "stats_of m n = Some st"
    then have "n \<in> set (map fst sch)"
      using sm_inv_stats [OF "2.prems"(1), of n] sch by (simp add: sched_ok_def)
    then obtain st1 where "stats_of m1 n = Some st1" "ss_Writes st1 = ss_Writes st + 2"
      using m1(3) [of n] \<open>stats_of m n = Some st\<close> by (cases "stats_of m1 n") auto
    then show "\<exists>st'. stats_of m' n = Some st' \<and>
        ss_Writes st' = ss_Writes st + of_nat (2 * length ((sch, key, v) # cs))"
      using IH by (fastforce simp: algebra_simps)
  qed
qed

text \<open>
  C27. The manager counts every write twice: after \<open>n\<close> writes broadcast to the registered sinks, in
  whatever order the sinks finish and whether or not they fail, the write counter of each sink
  has grown by \<open>2 * n\<close>; and as the doubled counter divides the latency, the average recorded
  after the first write of a new sink is half of the time the write took.
\<close>

theorem writes_counted_twice:
  assumes "sm_inv m" and "sm_sinks m \<noteq> []" and "\<forall>(sch, key, v) \<in> set cs. sched_ok m sch"
    and "writes_run cs m w = (m', w')" and "stats_of m n = Some st"
  shows "(\<exists>st'. stats_of m' n = Some st' \<and> ss_Writes st' = ss_Writes st + of_nat (2 * length cs)) \<and>
    (ss_Writes st = 0 \<and> ss_LatencyAvg st = 0 \<longrightarrow>
       ss_LatencyAvg (count_write len err duration st) = go_quot duration 2)"
proof
  show "\<exists>st'. stats_of m' n = Some st' \<and> ss_Writes st' = ss_Writes st + of_nat (2 * length cs)"
    using writes_run_Writes [OF assms(1-4)] assms(5) by blast
  show "ss_Writes st = 0 \<and> ss_LatencyAvg st = 0 \<longrightarrow>
       ss_LatencyAvg (count_write len err duration st) = go_quot duration 2"
    by (simp add: count_write_def Let_def)
qed

definition null_sink :: "unit Sink" where
  "null_sink = \<lparr>sk_Name = ''s'', sk_Type = ''null'', sk_Write = (\<lambda>k v md w. (w, None)),
     sk_WriteBatch = (\<lambda>items w. (w, None)), sk_Read = (\<lambda>k w. Inl (Errorf ''not found'' None)),
     sk_Delete = (\<lambda>k w. (w, None)), sk_Ping = (\<lambda>w. (w, None)), sk_Close = (\<lambda>w. (w, None))\<rparr>"

definition null_manager :: "unit SinkManager" where
  "null_manager = fst (RegisterSink (Some null_sink) NewSinkManager)"

theorem writes_counted_twice_witness:
  "\<exists>st'. stats_of (fst (writes_run [([(''s'', 10)], ''k'', [1])] null_manager ())) ''s'' = Some st' \<and>
     ss_Writes st' = 2"
proof -
  have inv: "sm_inv null_manager"
    unfolding null_manager_def by (rule sm_inv_register [OF sm_inv_new]) (rule surjective_pairing)
  obtain st where st: "stats_of null_manager ''s'' = Some st" "ss_Writes st = 0"
    by (simp add: null_manager_def RegisterSink_def null_sink_def NewSinkManager_def stats_of_def Let_def)
  have ne: "sm_sinks null_manager \<noteq> []" "\<forall>(sch, key, v) \<in> set [([(''s'', 10)], ''k'', [1])].
      sched_ok null_manager sch"
    by (simp_all add: null_manager_def RegisterSink_def null_sink_def NewSinkManager_def sched_ok_def
        Let_def)
  from writes_counted_twice [OF inv ne surjective_pairing st(1)] st(2)
  show ?thesis by force
qed

subsection \<open>The retry queue\<close>

lemma retry_file_matches: "is_retry_file (retry_file n)"
  by (auto simp: is_retry_file_def retry_file_def suffix_def prefix_def)

lemma retry_file_inj [simp]: "retry_file m = retry_file n \<longleftrightarrow> m = n"
  by (simp add: retry_file_def)

text \<open>
  What a process does with a queue: adding an item, persisted at a nanosecond, and taking all
  items. A run is of calls that all succeed.
\<close>

datatype 'i rq_op = QAdd nat 'i | QGetAll

fun retry_run :: "('i \<Rightarrow> go_error + bytes) \<Rightarrow> 'i rq_op list \<Rightarrow> 'i RetryQueue \<Rightarrow> files \<Rightarrow>
    ('i RetryQueue \<times> files) option" where
  "retry_run mar [] q d = Some (q, d)"
| "retry_run mar (QAdd n i # xs) q d =
     (case RetryQueue_Add \<lparr>pe_marshal = mar, pe_nano = n, pe_write = None\<rparr> i q d of
        (q1, d1, e) \<Rightarrow> if e = None then retry_run mar xs q1 d1 else None)"
| "retry_run mar (QGetAll # xs) q d = retry_run mar xs (fst (RetryQueue_GetAll q)) d"

definition added :: "'i rq_op list \<Rightarrow> (nat \<times> 'i) list" where
  "added xs = List.map_filter (\<lambda>x. case x of QAdd n i \<Rightarrow> Some (n, i) | QGetAll \<Rightarrow> None) xs"

lemma added_simps [simp]:
  "added [] = []" "added (QAdd n i # xs) = (n, i) # added xs" "added (QGetAll # xs) = added xs"
  by (simp_all add: added_def map_filter_simps)

lemma AList_update_new: "k \<notin> fst ` set al \<Longrightarrow> AList.update k v al = al @ [(k, v)]"
  by (induction al) auto

lemma retry_run_files:
  assumes "retry_run mar xs q d = Some (q', d')" and "rq_diskPath q \<noteq> []"
    and "\<forall>(n, i) \<in> set (added xs). mar i = Inr (dt i)"
    and "distinct (map fst (added xs))" and "\<forall>(n, i) \<in> set (added xs). retry_file n \<notin> fst ` set d"
  shows "d' = d @ map (\<lambda>(n, i). (retry_file n, dt i)) (added xs) \<and>
    (0 < rq_maxSize q \<and> int (length (rq_items q)) \<le> rq_maxSize q \<longrightarrow>
       int (length (rq_items q')) \<le> rq_maxSize q)"
  using assms
proof (induction mar xs q d rule: retry_run.induct)
  case (1 mar q d)
  then show ?case by simp
next
  case (2 mar n i xs q d)
  obtain q1 d1 e where a: "RetryQueue_Add \<lparr>pe_marshal = mar, pe_nano = n, pe_write = None\<rparr> i q d = (q1, d1, e)"
    by (metis prod_cases3)
  have e: "e = None" "retry_run mar xs q1 d1 = Some (q', d')"
    using "2.prems"(1) a by (auto split: if_split_asm)
  have "mar i = Inr (dt i)" "retry_file n \<notin> fst ` set d" using "2.prems"(3,5) by simp_all
  then have d1: "d1 = d @ [(retry_file n, dt i)]"
    and q1: "rq_maxSize q1 = rq_maxSize q" "rq_diskPath q1 = rq_diskPath q"
      "rq_items q1 = rq_items q @ [i]" "0 < rq_maxSize q \<Longrightarrow> int (length (rq_items q)) < rq_maxSize q"
    using a e(1) "2.prems"(2)
    by (auto simp: RetryQueue_Add_def persistToDisk_def AList_update_new split: if_split_asm)
  have "\<forall>(n, i) \<in> set (added xs). retry_file n \<notin> fst ` set d1"
    using "2.prems"(4,5) d1 by (auto simp: image_iff)
  from "2.IH" [OF a [symmetric] refl e(1,2) _ _ _ this] "2.prems" q1 d1
  show ?case by auto
next
  case (3 mar xs q d)
  then show ?case by (simp add: RetryQueue_GetAll_def)
qed

lemma load_files_all:
  assumes "distinct fs" and "\<forall>f \<in> set fs. \<exists>bs. map_of d f = Some bs \<and> rd f bs = Inr bs \<and> unm bs = Inr (it f)"
  shows "load_files rd unm fs q d = (q\<lparr>rq_items := rq_items q @ map it fs\<rparr>, fold AList.delete fs d)"
  using assms
proof (induction fs arbitrary: q d)
  case Nil
  then show ?case by simp
next
  case (Cons f fs)
  obtain bs where bs: "map_of d f = Some bs" "rd f bs = Inr bs" "unm bs = Inr (it f)"
    using Cons.prems(2) by auto
  have "\<forall>g \<in> set fs. \<exists>bs. map_of (AList.delete f d) g = Some bs \<and> rd g bs = Inr bs \<and> unm bs = Inr (it g)"
    using Cons.prems by auto
  from Cons.IH [OF _ this] show ?case using Cons.prems(1) bs by simp
qed

lemma keys_fold_delete: "fst ` set (fold AList.delete fs d) = fst ` set d - set fs"
  by (induction fs arbitrary: d) (auto simp: set_AList_delete image_iff)


definition byte_codec :: "byte \<Rightarrow> go_error + bytes" where
  "byte_codec b = Inr [b]"


subsection \<open>The dead letter queue\<close>

text \<open>
  The dead letter queue writes its reason into the metadata map the caller shares with it:
  after two items with the same map were added, both queued items show the second reason, and an
  addition that is refused because the queue is full rewrites the reason of the queued items too.
\<close>

theorem dlq_shared_metadata:
  assumes "si_Metadata i1 = Some a" and "si_Metadata i2 = Some a" and "dq_diskPath q = []"
    and "dq_items q = []" and "DLQ_Add env i1 r1 t1 q h d = (q1, h1, d1, None)"
    and "DLQ_Add env i2 r2 t2 q1 h1 d1 = (q2, h2, d2, e)"
  shows "(\<forall>i \<in> set (dq_items q2). si_Metadata i = Some a \<and>
      map_of (hp_maps h2 a) ''dlq_reason'' = Some r2) \<and> i1 \<in> set (dq_items q2) \<and>
    (e = None \<longleftrightarrow> dq_items q2 = [i1, i2]) \<and> (e = None \<longleftrightarrow> dq_maxSize q \<noteq> 1)"
proof -
  have "i1\<lparr>si_Metadata := Some a\<rparr> = i1" "i2\<lparr>si_Metadata := Some a\<rparr> = i2"
    using assms(1,2) by simp_all
  then show ?thesis
    using assms by (auto simp: DLQ_Add_def Let_def put_map_def split: if_split_asm)
qed

definition dead_item :: "string \<Rightarrow> SinkItem" where
  "dead_item k = \<lparr>si_Key = k, si_Value = [1], si_Metadata = Some 0,
     si_Timestamp = \<lparr>tm_wall = 0, tm_mono = None\<rparr>\<rparr>"

theorem dlq_shared_metadata_witness:
  "\<exists>q1 h1 d1 q2 h2 d2. let q = \<lparr>dq_items = [], dq_maxSize = 1, dq_diskPath = []\<rparr>;
      h = \<lparr>hp_maps = (\<lambda>a. []), hp_next = 1\<rparr>;
      env = \<lparr>de_marshal = (\<lambda>i md. Inr []), de_nano = 0, de_write = None\<rparr> in
     DLQ_Add env (dead_item ''a'') ''r1'' ''t1'' q h [] = (q1, h1, d1, None) \<and>
     (\<exists>e. DLQ_Add env (dead_item ''b'') ''r2'' ''t2'' q1 h1 d1 = (q2, h2, d2, Some e)) \<and>
     map_of (hp_maps h2 0) ''dlq_reason'' = Some ''r2''"
proof -
  let ?q = "\<lparr>dq_items = [], dq_maxSize = 1, dq_diskPath = []\<rparr> :: DeadLetterQueue"
  let ?h = "\<lparr>hp_maps = (\<lambda>a. []), hp_next = 1\<rparr>"
  let ?env = "\<lparr>de_marshal = (\<lambda>i md. Inr []), de_nano = 0, de_write = None\<rparr>"
  obtain q1 h1 d1 where a1: "DLQ_Add ?env (dead_item ''a'') ''r1'' ''t1'' ?q ?h [] = (q1, h1, d1, None)"
    by (simp add: DLQ_Add_def dead_item_def)
  obtain q2 h2 d2 e where a2: "DLQ_Add ?env (dead_item ''b'') ''r2'' ''t2'' q1 h1 d1 = (q2, h2, d2, e)"
    by (metis prod_cases4)
  have "si_Metadata (dead_item k) = Some 0" for k by (simp add: dead_item_def)
  from dlq_shared_metadata [OF this this _ _ a1 a2]
  have "e \<noteq> None" "map_of (hp_maps h2 0) ''dlq_reason'' = Some ''r2''" by auto
  then show ?thesis using a1 a2 unfolding Let_def by blast
qed

end
