(* ===== verification/L2_Queue_Props.thy ===== *)
theory L2_Queue_Props
  imports L2_Retry Bounded_Queue
begin

text \<open>
  The retry queue and the dead letter queue as bounded queues (\<open>Bounded_Queue\<close>). An implementation
  state is the queue with the world its additions write to, so every outcome of the encoding and
  of the disk is covered. The retry queue reports exactly the refused additions; the dead letter
  queue also reports additions it has made but could not write.
\<close>

text \<open>The retry queue with its directory; a call carries the outcome of its persistence.\<close>

definition retry_put ::
    "'i persist_env \<times> 'i \<Rightarrow> 'i RetryQueue \<times> files \<Rightarrow> ('i RetryQueue \<times> files) \<times> go_error option" where
  "retry_put x s =
     (case RetryQueue_Add (fst x) (snd x) (fst s) (snd s) of (q, d, e) \<Rightarrow> ((q, d), e))"

definition retry_take :: "'i RetryQueue \<times> files \<Rightarrow> ('i RetryQueue \<times> files) \<times> 'i list" where
  "retry_take s = (case RetryQueue_GetAll (fst s) of (q, xs) \<Rightarrow> ((q, snd s), xs))"

interpretation retry: reporting_queue "\<lambda>s. rq_items (fst s)" "\<lambda>s. rq_maxSize (fst s)" snd
    retry_put retry_take
  by unfold_locales
    (auto simp: q_full_def retry_put_def retry_take_def RetryQueue_Add_def RetryQueue_GetAll_def
      split: if_split_asm)

text \<open>
  The dead letter queue with the heap of metadata maps and its directory; its items are compared
  up to the map's address, which \<^verbatim>\<open>Add\<close> fills in when the item has no map.
\<close>

definition content :: "SinkItem \<Rightarrow> SinkItem" where
  "content item = item\<lparr>si_Metadata := None\<rparr>"

type_synonym dlq_call = "dlq_env \<times> SinkItem \<times> string \<times> string"
type_synonym dlq_state = "DeadLetterQueue \<times> heap \<times> files"

definition dlq_put :: "dlq_call \<Rightarrow> dlq_state \<Rightarrow> dlq_state \<times> go_error option" where
  "dlq_put x s =
     (case x of (env, item, reason, stamp) \<Rightarrow>
        (case DLQ_Add env item reason stamp (fst s) (fst (snd s)) (snd (snd s)) of
           (q, h, d, e) \<Rightarrow> ((q, h, d), e)))"

definition dlq_take :: "dlq_state \<Rightarrow> dlq_state \<times> SinkItem list" where
  "dlq_take s = (case DLQ_GetAll (fst s) of (q, xs) \<Rightarrow> ((q, snd s), map content xs))"

lemma DLQ_Add_items:
  assumes "DLQ_Add env item reason stamp q h d = (q', h', d', e)"
  shows "dq_maxSize q' = dq_maxSize q"
    and "q_full (dq_maxSize q) xs \<Longrightarrow> length xs = length (dq_items q) \<Longrightarrow> dq_items q' = dq_items q \<and> e \<noteq> None"
    and "\<not> q_full (dq_maxSize q) xs \<Longrightarrow> length xs = length (dq_items q) \<Longrightarrow>
      map content (dq_items q') = map content (dq_items q) @ [content item]"
  using assms
  by (auto simp: DLQ_Add_def Let_def q_full_def content_def
      split: if_split_asm prod.split_asm sum.split_asm option.split_asm)

interpretation dlq: bounded_queue "\<lambda>s. map content (dq_items (fst s))" "\<lambda>s. dq_maxSize (fst s)"
    "\<lambda>x. content (fst (snd x))" dlq_put dlq_take
proof unfold_locales
  fix s s' :: dlq_state and x :: dlq_call and e xs
  obtain env item reason stamp where x: "x = (env, item, reason, stamp)" by (metis prod_cases4)
  let ?xs = "map content (dq_items (fst s))"
  have put: "DLQ_Add env item reason stamp (fst s) (fst (snd s)) (snd (snd s)) =
      (fst s', fst (snd s'), snd (snd s'), e)" if "dlq_put x s = (s', e)"
    using that by (auto simp: x dlq_put_def split: prod.splits)
  show "map content (dq_items (fst s')) = ?xs \<and> e \<noteq> None"
    if "q_full (dq_maxSize (fst s)) ?xs" "dlq_put x s = (s', e)"
    using DLQ_Add_items(2) [OF put [OF that(2)] that(1)] by simp
  show "map content (dq_items (fst s')) = ?xs @ [content (fst (snd x))]"
    if "\<not> q_full (dq_maxSize (fst s)) ?xs" "dlq_put x s = (s', e)"
    using DLQ_Add_items(3) [OF put [OF that(2)] that(1)] x by simp
  show "dq_maxSize (fst s') = dq_maxSize (fst s)" if "dlq_put x s = (s', e)"
    by (rule DLQ_Add_items(1) [OF put [OF that]])
  show "xs = ?xs \<and> map content (dq_items (fst s')) = [] \<and> dq_maxSize (fst s') = dq_maxSize (fst s)"
    if "dlq_take s = (s', xs)"
    using that by (auto simp: dlq_take_def DLQ_GetAll_def)
qed

lemma dlq_unwritten:
  assumes "\<not> q_full (dq_maxSize p) (dq_items p)" and "dq_diskPath p \<noteq> []" and "de_write env \<noteq> None"
  shows "snd (dlq_put (env, item, reason, stamp) (p, h, f)) \<noteq> None"
  using assms
  by (auto simp: dlq_put_def DLQ_Add_def Let_def q_full_def split: prod.splits sum.splits option.splits if_splits)

text \<open>
  C29. Both queues of the cold tier are first-in-first-out queues with a limit, whatever the
  encoding and the disk do. Any calls of \<^verbatim>\<open>Add\<close> and \<^verbatim>\<open>GetAll\<close> on them refine the same calls on
  a bounded list: the items left and those handed out are the same. The retry queue returns an
  error exactly for the additions the bounded list refuses. The dead letter queue returns nil only
  for accepted additions, but it also returns an error for an accepted one that could not be
  written to the disk, although the item is in the queue.
\<close>

theorem queues_refine_fifo:
  assumes "queue_run retry_put retry_take cs (q, d) = ((q1, d1), errs, out)"
    and "queue_run dlq_put dlq_take ds (p, h, f) = ((p1, h1, f1), errs', out')"
  shows "fifo_run (rq_maxSize q) (map (map_queue_call snd) cs) (rq_items q) =
      (rq_items q1, map (\<lambda>e. e = None) errs, out) \<and>
    (\<exists>acc. fifo_run (dq_maxSize p) (map (map_queue_call (\<lambda>x. content (fst (snd x)))) ds)
        (map content (dq_items p)) = (map content (dq_items p1), acc, out') \<and>
      list_all2 (\<lambda>e ok. e = None \<longrightarrow> ok) errs' acc) \<and>
    (\<not> q_full (dq_maxSize p) (dq_items p) \<and> dq_diskPath p \<noteq> [] \<and> de_write env \<noteq> None \<longrightarrow>
      snd (dlq_put (env, item, reason, stamp) (p, h, f)) \<noteq> None)"
  using retry.refines_exactly [OF assms(1)] dlq.refines [OF assms(2)] dlq_unwritten by simp

text \<open>
  Two additions to retry and dead letter queues with room for one: the second is refused by the
  retry queue; the dead letter queue reports both, the first because the disk is full, and hands
  it out.
\<close>

definition full_disk_env :: dlq_env where
  "full_disk_env = \<lparr>de_marshal = (\<lambda>i md. Inr []), de_nano = 0,
     de_write = Some (Errorf ''no space left on device'' None)\<rparr>"

definition plain_item :: "string \<Rightarrow> SinkItem" where
  "plain_item k = \<lparr>si_Key = k, si_Value = [1], si_Metadata = None,
     si_Timestamp = \<lparr>tm_wall = 0, tm_mono = None\<rparr>\<rparr>"

theorem queues_refine_fifo_witness:
  "fifo_run 1 [Put 7, Put 8, TakeAll] [] = ([], [True, False], [7 :: byte]) \<and>
   (\<exists>s e. queue_run dlq_put dlq_take [Put (full_disk_env, plain_item ''k'', ''r'', ''t''), TakeAll]
      (\<lparr>dq_items = [], dq_maxSize = 1, dq_diskPath = ''dlq''\<rparr>, \<lparr>hp_maps = (\<lambda>a. []), hp_next = 0\<rparr>, []) =
        (s, [Some e], [content (plain_item ''k'')]))"
proof -
  let ?e = "\<lparr>pe_marshal = (\<lambda>i. Inr [i]), pe_nano = 1, pe_write = None\<rparr> :: byte persist_env"
  let ?q = "\<lparr>rq_items = [], rq_maxSize = 1, rq_diskPath = []\<rparr> :: byte RetryQueue"
  let ?p = "\<lparr>dq_items = [], dq_maxSize = 1, dq_diskPath = ''dlq''\<rparr>"
  let ?h = "\<lparr>hp_maps = (\<lambda>a. []), hp_next = 0\<rparr> :: heap"
  let ?x = "(full_disk_env, plain_item ''k'', ''r'', ''t'')"
  obtain q1 d1 errs out where r:
      "queue_run retry_put retry_take [Put (?e, 7), Put (?e, 8), TakeAll] (?q, []) = ((q1, d1), errs, out)"
      "map (\<lambda>e. e = None) errs = [True, False]" "out = [7]" "rq_items q1 = []"
    by (simp add: retry_put_def retry_take_def RetryQueue_Add_def RetryQueue_GetAll_def)
  obtain s errs' out' where d0:
      "queue_run dlq_put dlq_take [Put ?x, TakeAll] (?p, ?h, []) = (s, errs', out')" by (metis prod_cases3)
  moreover obtain p1 h1 f1 where "s = (p1, h1, f1)" by (metis prod_cases3)
  ultimately have d: "queue_run dlq_put dlq_take [Put ?x, TakeAll] (?p, ?h, []) = ((p1, h1, f1), errs', out')"
    by simp
  note t = queues_refine_fifo [OF r(1) d, of full_disk_env "plain_item ''k''" "''r''" "''t''"]
  have "out' = [content (plain_item ''k'')]"
    using t by (simp add: q_full_def Let_def)
  moreover have "\<exists>e. errs' = [Some e]"
  proof -
    obtain s1 e where put: "dlq_put ?x (?p, ?h, []) = (s1, e)" by fastforce
    then have "e \<noteq> None" using t by (simp add: q_full_def full_disk_env_def)
    moreover have "errs' = [e]" using d put by (auto simp: Let_def split: prod.splits)
    ultimately show ?thesis by auto
  qed
  ultimately show ?thesis using t d r(2-4) by auto
qed

end
