(* ===== verification/Tiered.thy ===== *)
theory Tiered
  imports Recovery L0_Snapshot L1 L2_Sinks Config
begin

text \<open>
  The tiered cache (\<^verbatim>\<open>pkg/tieredcache/tieredcache.go\<close>): its construction and initialisation,
  the client operations over the two local tiers, the log and the cold tier, the background
  work (promotion, pre-warming, tiering) and closing. A call of a tier is that tier's operation;
  an option around a result is a run-time panic, as in the tiers. The promotion to L0 that a
  read starts in a goroutine is kept in \<open>tc_promotions\<close> until \<open>run_promotion\<close> runs it, so that
  the other operations can come in between.
\<close>

subsection \<open>State\<close>

record ('db, 'w) tiered_cache =
  tc_l0 :: "l0_cache option"
  tc_l1 :: "'db l1_cache option"
  tc_l2 :: "'w SinkManager option"
  tc_recovery :: "recovery_manager option"
  tc_cfg :: Config
  tc_closed :: bool
  tc_initializing :: bool
  tc_initialized :: bool
  tc_cancelled :: bool
  tc_promotions :: "(string \<times> bytes) list"

definition tc_error :: "string \<Rightarrow> err_code \<Rightarrow> go_error" where
  "tc_error op code = NewInitError ''tieredcache'' op (Some (ErrCode code)) False"

abbreviation tc_L0cfg :: "Config \<Rightarrow> L0Config" where "tc_L0cfg cfg \<equiv> tcc_L0 (cfg_TieredCache cfg)"
abbreviation tc_L1cfg :: "Config \<Rightarrow> L1Config" where "tc_L1cfg cfg \<equiv> tcc_L1 (cfg_TieredCache cfg)"
abbreviation tc_L2cfg :: "Config \<Rightarrow> L2Config" where "tc_L2cfg cfg \<equiv> tcc_L2 (cfg_TieredCache cfg)"
abbreviation tc_Replay :: "Config \<Rightarrow> ReplayConfig" where "tc_Replay cfg \<equiv> tcc_Replay (cfg_TieredCache cfg)"

subsection \<open>Construction\<close>

definition Tiered_New ::
    "(gval \<Rightarrow> string) \<Rightarrow> new_env \<Rightarrow> Config option \<Rightarrow> wal_disk \<Rightarrow>
     wal_disk \<times> (go_error + ('db, 'w) tiered_cache)" where
  "Tiered_New show_v env cfg0 d =
     (case cfg0 of
        None \<Rightarrow> (d, Inl (NewConfigError ''config'' GNil ''configuration cannot be nil'' []))
      | Some cfg \<Rightarrow>
     (case Validate show_v (Some cfg) of
        Some err \<Rightarrow> (d, Inl err)
      | None \<Rightarrow>
     (case NewRecoveryManager env (gr_WALPath (tc_Replay cfg)) (gr_CheckpointPath (tc_Replay cfg))
          (gr_MaxReplayWorkers (tc_Replay cfg)) (gr_CheckpointInterval (tc_Replay cfg)) d of
        (d1, Inl err) \<Rightarrow> (d1, Inl (Errorf ''failed to create recovery manager: '' (Some err)))
      | (d1, Inr recovery) \<Rightarrow>
          (d1, Inr \<lparr>tc_l0 = None, tc_l1 = None, tc_l2 = None, tc_recovery = Some recovery,
                    tc_cfg = cfg, tc_closed = False, tc_initializing = False,
                    tc_initialized = False, tc_cancelled = False, tc_promotions = []\<rparr>))))"

subsection \<open>Initialisation\<close>

definition l0_config_of :: "Config \<Rightarrow> l0_config" where
  "l0_config_of cfg =
     \<lparr>c0_MaxMemoryMB = g0_MaxMemoryMB (tc_L0cfg cfg), c0_MaxPayloadBytes = g0_MaxPayloadBytes (tc_L0cfg cfg),
      c0_WeightedUnit = g0_WeightedUnitBytes (tc_L0cfg cfg), c0_ShardCount = g0_ShardCount (tc_L0cfg cfg),
      c0_SnapshotPath = g0_SnapshotPath (tc_L0cfg cfg),
      c0_SnapshotInt = uint (g0_SnapshotIntervalSec (tc_L0cfg cfg)) * 1000000000,
      c0_EnableSnapshot = g0_EnableSnapshot (tc_L0cfg cfg)\<rparr>"

definition l1_config_of :: "Config \<Rightarrow> l1_config" where
  "l1_config_of cfg =
     \<lparr>c1_SSDPath = g1_SSDPath (tc_L1cfg cfg), c1_ValueLogPath = g1_ValueLogPath (tc_L1cfg cfg),
      c1_MaxCapacityGB = g1_MaxCapacityGB (tc_L1cfg cfg), c1_ShardCount = g1_ShardCount (tc_L1cfg cfg),
      c1_SyncMode = g1_SyncMode (tc_L1cfg cfg), c1_SyncIntervalMs = g1_SyncIntervalMs (tc_L1cfg cfg),
      c1_Compression = g1_Compression (tc_L1cfg cfg), c1_MaxTableSize = g1_MaxTablesSize (tc_L1cfg cfg),
      c1_NumGoroutines = g1_NumGoroutines (tc_L1cfg cfg), c1_WALEnabled = g1_WALEnabled (tc_L1cfg cfg),
      c1_BlockCacheSizeMB = g1_BlockCacheSizeMB (tc_L1cfg cfg)\<rparr>"

text \<open>
  Up to the recovery: the tiers built, or the error returned. When L1 fails, the L0 built before
  is closed again (\<^verbatim>\<open>c.l0.Close()\<close>) but stays in the structure.
\<close>

definition init_tiers ::
    "'db badger \<Rightarrow> mkdir_env \<Rightarrow> (f64 \<Rightarrow> u64) \<Rightarrow> snap_env \<Rightarrow> dir \<Rightarrow> ('db, 'w) tiered_cache \<Rightarrow>
     ('db, 'w) tiered_cache \<times> go_error option" where
  "init_tiers B mk oor senv sdir c =
     (case L0_New (Some (l0_config_of (tc_cfg c))) of
        Inl err \<Rightarrow> (c, Some (NewInitError ''l0'' ''initialize'' (Some err) True))
      | Inr l0Cache \<Rightarrow>
     (case L1_New B mk oor (Some (l1_config_of (tc_cfg c))) of
        Inl (err, gone) \<Rightarrow>
          (c\<lparr>tc_l0 := Some (fst (L0_Close senv l0Cache sdir))\<rparr>,
           Some (NewInitError ''l1'' ''initialize'' (Some err) True))
      | Inr l1Cache \<Rightarrow>
          (c\<lparr>tc_l0 := Some l0Cache, tc_l1 := Some l1Cache,
             tc_l2 := (if g2_Enabled (tc_L2cfg (tc_cfg c)) then Some NewSinkManager else tc_l2 c)\<rparr>,
           None)))"

text \<open>
  The apply function of the recovery, over the two tiers: \<open>None\<close> once an operation panicked.
  \<open>rp_n\<close> counts the calls, the clock being \<open>clk\<close>.
\<close>

record 'db replay_state =
  rp_l0 :: l0_cache
  rp_l1 :: "'db l1_cache"
  rp_n :: nat

definition apply_entry ::
    "'db badger \<Rightarrow> (nat \<Rightarrow> go_time) \<Rightarrow> wal_entry \<Rightarrow> 'db replay_state option \<Rightarrow>
     'db replay_state option \<times> go_error option" where
  "apply_entry B clk e st0 =
     (case st0 of
        None \<Rightarrow> (None, None)
      | Some st1 \<Rightarrow>
        let st = st1\<lparr>rp_n := rp_n st1 + 1\<rparr>; now = clk (rp_n st1);
            on_l0 = (\<lambda>r. case r of None \<Rightarrow> (None, None)
              | Some (c, err) \<Rightarrow> (Some (st\<lparr>rp_l0 := c\<rparr>), err));
            on_l1 = (\<lambda>r. case r of None \<Rightarrow> (None, None)
              | Some (c, err) \<Rightarrow> (Some (st\<lparr>rp_l1 := c\<rparr>), err))
        in if we_Operation e = OpSet then
             (if we_Tier e = 0 then on_l0 (L0_Set now (we_Key e) (we_Value e) 0 (rp_l0 st))
              else if we_Tier e = 1 then on_l1 (L1_Set B now (we_Key e) (we_Value e) 0 (rp_l1 st))
              else (Some st, None))
           else if we_Operation e = OpDelete then
             (if we_Tier e = 0 then on_l0 (L0_Delete (we_Key e) (rp_l0 st))
              else if we_Tier e = 1 then on_l1 (L1_Delete B (we_Key e) (rp_l1 st))
              else (Some st, None))
           else (Some st, None))"

definition recovery_error :: "recovery_result option \<Rightarrow> go_error option \<Rightarrow> go_error option" where
  "recovery_error result err =
     (case err of
        Some e \<Rightarrow> Some e
      | None \<Rightarrow>
     (case result of
        None \<Rightarrow> None
      | Some r \<Rightarrow> if \<not> rr_Success r
          then Some (ErrorfList ''recovery completed with errors: '' (rr_Errors r)) else None))"

inductive performRecovery ::
    "'db badger \<Rightarrow> (nat \<Rightarrow> go_time) \<Rightarrow> recover_env \<Rightarrow> wal_disk \<Rightarrow> ('db, 'w) tiered_cache \<Rightarrow>
     ('db, 'w) tiered_cache \<Rightarrow> go_error option \<Rightarrow> bool"
  for B :: "'db badger" and clk :: "nat \<Rightarrow> go_time" and env :: recover_env and d :: wal_disk where
  "tc_recovery c = Some m \<Longrightarrow> tc_l0 c = Some l0 \<Longrightarrow> tc_l1 c = Some l1 \<Longrightarrow>
   Recover (apply_entry B clk) (tc_cancelled c) env m d (Some \<lparr>rp_l0 = l0, rp_l1 = l1, rp_n = 0\<rparr>)
     m' (Some st) result err \<Longrightarrow>
   performRecovery B clk env d c
     (c\<lparr>tc_recovery := Some m', tc_l0 := Some (rp_l0 st), tc_l1 := Some (rp_l1 st)\<rparr>)
     (recovery_error result err)"

text \<open>The background goroutine that \<^verbatim>\<open>Initialize\<close> starts to fill L0, if any.\<close>

datatype rebuild = FromSnapshot | FromL1 | ColdStart

definition rebuild_choice :: "Config \<Rightarrow> rebuild" where
  "rebuild_choice cfg =
     (if g0_RebuildFrom (tc_L0cfg cfg) = RebuildFromSnapshot then FromSnapshot
      else if g0_RebuildFrom (tc_L0cfg cfg) = RebuildFromL1 then FromL1
      else if g0_RebuildFrom (tc_L0cfg cfg) = RebuildFromNone then ColdStart
      else if gr_EnableL0PreWarm (tc_Replay cfg) then FromL1 else ColdStart)"

text \<open>
  \<^verbatim>\<open>Initialize\<close> as a relation, because a recovery has many runs (and one that blocks has none).
  The error of the recovery is only printed.
\<close>

inductive Initialize ::
    "'db badger \<Rightarrow> mkdir_env \<Rightarrow> (f64 \<Rightarrow> u64) \<Rightarrow> snap_env \<Rightarrow> dir \<Rightarrow> (nat \<Rightarrow> go_time) \<Rightarrow> recover_env \<Rightarrow>
     wal_disk \<Rightarrow> ('db, 'w) tiered_cache \<Rightarrow> ('db, 'w) tiered_cache \<Rightarrow> rebuild option \<Rightarrow>
     go_error option \<Rightarrow> bool"
  for B :: "'db badger" and mk :: mkdir_env and oor :: "f64 \<Rightarrow> u64" and senv :: snap_env and
    sdir :: dir and clk :: "nat \<Rightarrow> go_time" and env :: recover_env and d :: wal_disk where
  closed: "tc_closed c \<Longrightarrow>
    Initialize B mk oor senv sdir clk env d c c None (Some (tc_error ''initialize'' ErrCodeClosed))"
| busy: "\<not> tc_closed c \<Longrightarrow> tc_initializing c \<Longrightarrow>
    Initialize B mk oor senv sdir clk env d c c None (Some (tc_error ''initialize'' ErrCodeInitFailed))"
| failed: "\<not> tc_closed c \<Longrightarrow> \<not> tc_initializing c \<Longrightarrow>
    init_tiers B mk oor senv sdir c = (c1, Some err) \<Longrightarrow>
    Initialize B mk oor senv sdir clk env d c c1 None (Some err)"
| unverified: "\<not> tc_closed c \<Longrightarrow> \<not> tc_initializing c \<Longrightarrow>
    init_tiers B mk oor senv sdir c = (c1, None) \<Longrightarrow> \<not> gr_VerifyOnRecovery (tc_Replay (tc_cfg c)) \<Longrightarrow>
    Initialize B mk oor senv sdir clk env d c (c1\<lparr>tc_initialized := True\<rparr>)
      (Some (rebuild_choice (tc_cfg c))) None"
| recovered: "\<not> tc_closed c \<Longrightarrow> \<not> tc_initializing c \<Longrightarrow>
    init_tiers B mk oor senv sdir c = (c1, None) \<Longrightarrow> gr_VerifyOnRecovery (tc_Replay (tc_cfg c)) \<Longrightarrow>
    performRecovery B clk env d c1 c2 warning \<Longrightarrow>
    Initialize B mk oor senv sdir clk env d c (c2\<lparr>tc_initialized := True\<rparr>)
      (Some (rebuild_choice (tc_cfg c))) None"

subsection \<open>Client operations\<close>

text \<open>The guards of every client operation.\<close>

definition tc_guard :: "string \<Rightarrow> ('db, 'w) tiered_cache \<Rightarrow> go_error option" where
  "tc_guard op c =
     (if \<not> tc_initialized c then Some (tc_error op ErrCodeInitFailed)
      else if tc_closed c then Some (tc_error op ErrCodeClosed) else None)"

text \<open>
  The lookup in one tier: a missing tier is passed over, and any error counts as a miss.
\<close>

definition try_l0 ::
    "go_time \<Rightarrow> string \<Rightarrow> ('db, 'w) tiered_cache \<Rightarrow> (('db, 'w) tiered_cache \<times> bytes option) option" where
  "try_l0 now key c =
     (case tc_l0 c of
        None \<Rightarrow> Some (c, None)
      | Some l0 \<Rightarrow> do {
          (l0', r) \<leftarrow> L0_Get now key l0;
          Some (c\<lparr>tc_l0 := Some l0'\<rparr>, case r of Inr v \<Rightarrow> Some v | Inl e \<Rightarrow> None)
        })"

text \<open>A hit in L1 starts the promotion to L0.\<close>

definition try_l1 ::
    "'db badger \<Rightarrow> go_time \<Rightarrow> string \<Rightarrow> ('db, 'w) tiered_cache \<Rightarrow>
     (('db, 'w) tiered_cache \<times> bytes option) option" where
  "try_l1 B now key c =
     (case tc_l1 c of
        None \<Rightarrow> Some (c, None)
      | Some l1 \<Rightarrow> do {
          (l1', r) \<leftarrow> L1_Get B now key l1;
          let c1 = c\<lparr>tc_l1 := Some l1'\<rparr>;
          Some (case r of
              Inl e \<Rightarrow> (c1, None)
            | Inr v \<Rightarrow>
                (if tc_l0 c1 \<noteq> None then c1\<lparr>tc_promotions := tc_promotions c1 @ [(key, v)]\<rparr> else c1,
                 Some v))
        })"

definition try_l2 :: "string \<Rightarrow> 'w \<Rightarrow> ('db, 'w) tiered_cache \<Rightarrow> bytes option" where
  "try_l2 key w c =
     (case tc_l2 c of
        None \<Rightarrow> None
      | Some l2 \<Rightarrow>
     (case GetSink ''default'' l2 of
        None \<Rightarrow> None
      | Some sink \<Rightarrow> (case sk_Read sink key w of Inr v \<Rightarrow> Some v | Inl e \<Rightarrow> None)))"

text \<open>\<open>now0\<close> and \<open>now1\<close> are the times of the two lookups.\<close>

definition Tiered_Get ::
    "'db badger \<Rightarrow> go_time \<Rightarrow> go_time \<Rightarrow> 'w \<Rightarrow> string \<Rightarrow> ('db, 'w) tiered_cache \<Rightarrow>
     (('db, 'w) tiered_cache \<times> (go_error + bytes)) option" where
  "Tiered_Get B now0 now1 w key c =
     (case tc_guard ''get'' c of
        Some e \<Rightarrow> Some (c, Inl e)
      | None \<Rightarrow> do {
          (c1, r0) \<leftarrow> try_l0 now0 key c;
          (case r0 of
             Some v \<Rightarrow> Some (c1, Inr v)
           | None \<Rightarrow> do {
               (c2, r1) \<leftarrow> try_l1 B now1 key c1;
               Some (c2, case r1 of
                   Some v \<Rightarrow> Inr v
                 | None \<Rightarrow> (case try_l2 key w c2 of Some v \<Rightarrow> Inr v | None \<Rightarrow> Inl (ErrCode ErrCodeNotFound)))
             })
        })"

text \<open>The promotion goroutine at position \<open>i\<close>: an L0 write without time to live, its error dropped.\<close>

definition run_promotion ::
    "nat \<Rightarrow> go_time \<Rightarrow> ('db, 'w) tiered_cache \<Rightarrow> ('db, 'w) tiered_cache option" where
  "run_promotion i now c =
     (if i < length (tc_promotions c) then
        (case (tc_promotions c ! i, tc_l0 c) of
           ((key, v), Some l0) \<Rightarrow> do {
             (l0', e) \<leftarrow> L0_Set now key v 0 l0;
             Some (c\<lparr>tc_l0 := Some l0',
                     tc_promotions := take i (tc_promotions c) @ drop (Suc i) (tc_promotions c)\<rparr>)
           }
         | (_, None) \<Rightarrow> None)
      else Some c)"

text \<open>
  The writes of one tier, with the error it returns; a missing tier is passed over. The write to
  the log happens when L1 asks for it; its error is only printed.
\<close>

definition on_l0 ::
    "(l0_cache \<Rightarrow> (l0_cache \<times> go_error option) option) \<Rightarrow> ('db, 'w) tiered_cache \<Rightarrow>
     (('db, 'w) tiered_cache \<times> go_error option) option" where
  "on_l0 f c =
     (case tc_l0 c of
        None \<Rightarrow> Some (c, None)
      | Some l0 \<Rightarrow> do { (l0', e) \<leftarrow> f l0; Some (c\<lparr>tc_l0 := Some l0'\<rparr>, e) })"

definition on_l1 ::
    "('db l1_cache \<Rightarrow> ('db l1_cache \<times> go_error option) option) \<Rightarrow> ('db, 'w) tiered_cache \<Rightarrow>
     (('db, 'w) tiered_cache \<times> go_error option) option" where
  "on_l1 f c =
     (case tc_l1 c of
        None \<Rightarrow> Some (c, None)
      | Some l1 \<Rightarrow> do { (l1', e) \<leftarrow> f l1; Some (c\<lparr>tc_l1 := Some l1'\<rparr>, e) })"

definition log_write ::
    "(int \<Rightarrow> string) \<Rightarrow> write_env \<Rightarrow> wal_operation \<Rightarrow> string \<Rightarrow> bytes \<Rightarrow> ('db, 'w) tiered_cache \<Rightarrow>
     wal_disk \<Rightarrow> ('db, 'w) tiered_cache \<times> wal_disk" where
  "log_write wt wenv op' key v c d =
     (case (tc_recovery c, tc_l1 c) of
        (Some m, Some l1) \<Rightarrow>
          if ShouldUseWAL l1 then
            (case WAL_Write wt wenv \<lparr>we_Sequence = 0, we_Timestamp = \<lparr>tm_wall = 0, tm_mono = None\<rparr>,
                we_Operation = op', we_Key = key, we_Value = v, we_Metadata = None, we_Tier = 0,
                we_Checksum = 0\<rparr> m d of
               (m', d', e, cp, err) \<Rightarrow> (c\<lparr>tc_recovery := Some m'\<rparr>, d'))
          else (c, d)
      | _ \<Rightarrow> (c, d))"

definition Tiered_Set ::
    "'db badger \<Rightarrow> (int \<Rightarrow> string) \<Rightarrow> write_env \<Rightarrow> go_time \<Rightarrow> go_time \<Rightarrow> string \<Rightarrow> bytes \<Rightarrow> int \<Rightarrow>
     ('db, 'w) tiered_cache \<Rightarrow> wal_disk \<Rightarrow>
     (('db, 'w) tiered_cache \<times> wal_disk \<times> go_error option) option" where
  "Tiered_Set B wt wenv now0 now1 key v ttl c d =
     (case tc_guard ''set'' c of
        Some e \<Rightarrow> Some (c, d, Some e)
      | None \<Rightarrow>
        let limit = uint (g0_MaxPayloadBytes (tc_L0cfg (tc_cfg c)))
        in if limit < int (length v) then
          Some (c, d, Some (NewConfigError ''value'' (GInt (int (length v)))
            (''exceeds max payload size '' @ fmt_d limit) []))
        else do {
          (c1, lastErr) \<leftarrow> on_l0 (L0_Set now0 key v ttl) c;
          (c2, e1) \<leftarrow> on_l1 (L1_Set B now1 key v ttl) c1;
          let (c3, d1) = log_write wt wenv OpSet key v c2 d;
          Some (c3, d1, lastErr)
        })"

definition Tiered_Delete ::
    "'db badger \<Rightarrow> (int \<Rightarrow> string) \<Rightarrow> write_env \<Rightarrow> string \<Rightarrow> ('db, 'w) tiered_cache \<Rightarrow> wal_disk \<Rightarrow>
     (('db, 'w) tiered_cache \<times> wal_disk \<times> go_error option) option" where
  "Tiered_Delete B wt wenv key c d =
     (case tc_guard ''delete'' c of
        Some e \<Rightarrow> Some (c, d, Some e)
      | None \<Rightarrow> do {
          (c1, e0) \<leftarrow> on_l0 (L0_Delete key) c;
          (c2, e1) \<leftarrow> on_l1 (L1_Delete B key) c1;
          let (c3, d1) = log_write wt wenv OpDelete key [] c2 d;
          Some (c3, d1, if e1 \<noteq> None then e1 else e0)
        })"

definition SetToL1 ::
    "'db badger \<Rightarrow> go_time \<Rightarrow> string \<Rightarrow> bytes \<Rightarrow> int \<Rightarrow> ('db, 'w) tiered_cache \<Rightarrow>
     (('db, 'w) tiered_cache \<times> go_error option) option" where
  "SetToL1 B now key v ttl c =
     (case tc_guard ''set_to_l1'' c of
        Some e \<Rightarrow> Some (c, Some e)
      | None \<Rightarrow>
          if tc_l1 c = None then Some (c, Some (Errorf ''L1 not initialized'' None))
          else on_l1 (L1_Set B now key v ttl) c)"

definition GetFromL1 ::
    "'db badger \<Rightarrow> go_time \<Rightarrow> string \<Rightarrow> ('db, 'w) tiered_cache \<Rightarrow>
     (('db, 'w) tiered_cache \<times> (go_error + bytes)) option" where
  "GetFromL1 B now key c =
     (case tc_guard ''get_from_l1'' c of
        Some e \<Rightarrow> Some (c, Inl e)
      | None \<Rightarrow>
     (case tc_l1 c of
        None \<Rightarrow> Some (c, Inl (Errorf ''L1 not initialized'' None))
      | Some l1 \<Rightarrow> do { (l1', r) \<leftarrow> L1_Get B now key l1; Some (c\<lparr>tc_l1 := Some l1'\<rparr>, r) }))"

record cache_stats =
  cs_L0 :: l0_stats
  cs_L1 :: l1_stats
  cs_L2 :: "(string \<times> SinkStats) list"

text \<open>\<^verbatim>\<open>Stats\<close> has no guard for a closed cache: a tier that refuses leaves its part zero.\<close>

definition Tiered_Stats :: "'db badger \<Rightarrow> ('db, 'w) tiered_cache \<Rightarrow> go_error + cache_stats" where
  "Tiered_Stats B c =
     (if \<not> tc_initialized c then Inl (tc_error ''stats'' ErrCodeInitFailed)
      else Inr
        \<lparr>cs_L0 = (case tc_l0 c of None \<Rightarrow> zero_l0_stats
                  | Some l0 \<Rightarrow> (case L0_Stats l0 of Inr st \<Rightarrow> st | Inl e \<Rightarrow> zero_l0_stats)),
         cs_L1 = (case tc_l1 c of None \<Rightarrow> zero_l1_stats
                  | Some l1 \<Rightarrow> (case L1_Stats B l1 of Inr st \<Rightarrow> st | Inl e \<Rightarrow> zero_l1_stats)),
         cs_L2 = (case tc_l2 c of None \<Rightarrow> [] | Some l2 \<Rightarrow> SinkManager_Stats l2)\<rparr>)"

subsection \<open>Closing\<close>

definition tier_error :: "string \<Rightarrow> go_error option \<Rightarrow> go_error list" where
  "tier_error name e = (case e of None \<Rightarrow> [] | Some err \<Rightarrow> [Errorf (name @ '': '') (Some err)])"

record close_env =
  cv_snap :: snap_env
  cv_dir :: dir
  cv_sched :: schedule
  cv_sync :: "go_error option"
  cv_close :: "go_error option"

definition Tiered_Close ::
    "'db badger \<Rightarrow> close_env \<Rightarrow> 'w \<Rightarrow> ('db, 'w) tiered_cache \<Rightarrow>
     ('db, 'w) tiered_cache \<times> 'w \<times> go_error option" where
  "Tiered_Close B env w c =
     (if tc_closed c then (c, w, None)
      else
        let c0 = c\<lparr>tc_closed := True, tc_cancelled := True\<rparr>;
            (l0, e0) = (case tc_l0 c0 of None \<Rightarrow> (None, None)
              | Some x \<Rightarrow> (case L0_Close (cv_snap env) x (cv_dir env) of (y, ops, e) \<Rightarrow> (Some y, e)));
            (l1, e1) = (case tc_l1 c0 of None \<Rightarrow> (None, None)
              | Some x \<Rightarrow> (case L1_Close B x of (y, e) \<Rightarrow> (Some y, e)));
            (l2, w1, e2) = (case tc_l2 c0 of None \<Rightarrow> (None, w, None)
              | Some x \<Rightarrow> (case SinkManager_Close (cv_sched env) x w of (y, w', e) \<Rightarrow> (Some y, w', e)));
            (rec, e3) = (case tc_recovery c0 of None \<Rightarrow> (None, None)
              | Some x \<Rightarrow> (case WAL_Close (cv_sync env) (cv_close env) x of (y, e) \<Rightarrow> (Some y, e)));
            closeErrors = tier_error ''L0'' e0 @ tier_error ''L1'' e1 @ tier_error ''L2'' e2 @
              tier_error ''recovery'' e3
        in (c0\<lparr>tc_l0 := l0, tc_l1 := l1, tc_l2 := l2, tc_recovery := rec\<rparr>, w1,
            if 0 < length closeErrors then Some (ErrorfList ''errors closing tiers: '' closeErrors)
            else None))"

subsection \<open>Tiering\<close>

text \<open>
  One candidate of a tiering round: copied to L1, looked up there, and removed from L0. \<open>n0\<close> and
  \<open>n1\<close> are the times of the copy and of the lookup.
\<close>

definition tier_entry ::
    "'db badger \<Rightarrow> go_time \<Rightarrow> go_time \<Rightarrow> cache_entry \<Rightarrow> l0_cache \<times> 'db l1_cache \<Rightarrow>
     (l0_cache \<times> 'db l1_cache) option" where
  "tier_entry B n0 n1 entry s =
     (case s of (l0, l1) \<Rightarrow> do {
        (l1a, e) \<leftarrow> L1_Set B n0 (ce_Key entry) (ce_Value entry) (ce_TTL entry) l1;
        if e \<noteq> None then Some (l0, l1a)
        else do {
          (l1b, r) \<leftarrow> L1_Get B n1 (ce_Key entry) l1a;
          (case r of
             Inl err \<Rightarrow> Some (l0, l1b)
           | Inr v \<Rightarrow> do {
               (l0', err) \<leftarrow> L0_Demote (ce_Key entry) l0;
               Some (l0', l1b)
             })
        }
      })"

fun tier_entries ::
    "'db badger \<Rightarrow> (nat \<Rightarrow> go_time) \<Rightarrow> nat \<Rightarrow> cache_entry list \<Rightarrow> l0_cache \<times> 'db l1_cache \<Rightarrow>
     (l0_cache \<times> 'db l1_cache) option" where
  "tier_entries B clk n [] s = Some s"
| "tier_entries B clk n (x # xs) s =
     (case tier_entry B (clk n) (clk (Suc n)) x s of
        None \<Rightarrow> None
      | Some s1 \<Rightarrow> tier_entries B clk (Suc (Suc n)) xs s1)"

definition performTiering ::
    "'db badger \<Rightarrow> iter_order \<Rightarrow> (nat \<Rightarrow> go_time) \<Rightarrow> ('db, 'w) tiered_cache \<Rightarrow>
     ('db, 'w) tiered_cache option" where
  "performTiering B iter clk c =
     (case (tc_l0 c, tc_l1 c) of
        (Some l0, Some l1) \<Rightarrow>
          if f64_less (L0_UsageRatio l0) (gt_L0ToL1Threshold (g2_Tiering (tc_L2cfg (tc_cfg c)))) then Some c
          else
         (case L0_EvictCandidates iter (gt_BatchSize (g2_Tiering (tc_L2cfg (tc_cfg c)))) l0 of
            Inl err \<Rightarrow> Some c
          | Inr candidates \<Rightarrow>
              map_option (\<lambda>(l0', l1'). c\<lparr>tc_l0 := Some l0', tc_l1 := Some l1'\<rparr>)
                (tier_entries B clk 0 candidates (l0, l1)))
      | _ \<Rightarrow> Some c)"

text \<open>
  One round of the tiering worker, which runs only with L2 enabled: \<open>None\<close> for the worker's end,
  else the tiering of a tick (an option for a panic).
\<close>

definition tiering_tick ::
    "'db badger \<Rightarrow> iter_order \<Rightarrow> (nat \<Rightarrow> go_time) \<Rightarrow> ('db, 'w) tiered_cache \<Rightarrow>
     ('db, 'w) tiered_cache option option" where
  "tiering_tick B iter clk c =
     (if \<not> g2_Enabled (tc_L2cfg (tc_cfg c)) \<or> tc_cancelled c then None
      else Some (performTiering B iter clk c))"

subsection \<open>Filling L0 at the start\<close>

text \<open>
  From the latest snapshot: \<open>globbed\<close> is the listing of the snapshot directory, \<open>opened\<close> what
  opening a file gives.
\<close>

definition snapshot_dir :: "Config \<Rightarrow> string" where
  "snapshot_dir cfg =
     (if g0_SnapshotPath (tc_L0cfg cfg) = [] then ''./data/l0_snapshots'' else g0_SnapshotPath (tc_L0cfg cfg))"

definition rebuildFromSnapshot ::
    "(string \<Rightarrow> int option) \<Rightarrow> (string \<Rightarrow> go_error + string list) \<Rightarrow>
     (bytes \<Rightarrow> snapshot_header \<Rightarrow> snapshot_header \<times> go_error option) \<Rightarrow>
     (bytes \<Rightarrow> go_error + cache_entry) \<Rightarrow> (nat \<Rightarrow> go_time) \<Rightarrow> (string \<Rightarrow> go_error + bytes) \<Rightarrow>
     ('db, 'w) tiered_cache \<Rightarrow> (('db, 'w) tiered_cache \<times> go_error option) option" where
  "rebuildFromSnapshot stat globbed unmh unm clk opened c =
     (case tc_l0 c of
        None \<Rightarrow> Some (c, None)
      | Some l0 \<Rightarrow>
     (case FindLatestSnapshot stat (globbed (snapshot_dir (tc_cfg c))) of
        (latestFile, Some e) \<Rightarrow> Some (c, None)
      | (latestFile, None) \<Rightarrow> do {
          (l0', err) \<leftarrow> L0_Restore unmh unm clk (opened latestFile) l0;
          Some (c\<lparr>tc_l0 := Some l0'\<rparr>,
                map_option (\<lambda>e. Errorf ''failed to restore from snapshot: '' (Some e)) err)
        }))"

text \<open>
  From L1: the entries the iteration collects, within half of L0's memory and while the memory
  of the process (\<open>alloc\<close>, one reading for each entry) is below that. A loop over the iterator
  may not end, so it is a partial function; entries whose value cannot be copied are skipped.
\<close>

definition prewarm_limit :: "(f64 \<Rightarrow> u64) \<Rightarrow> Config \<Rightarrow> u64" where
  "prewarm_limit oor cfg =
     f64_to_u64 oor (f64_mul (f64_mul (f64_mul (f64_of_int (uint (g0_MaxMemoryMB (tc_L0cfg cfg))))
       (F64 (1 / 2))) (f64_of_int 1024)) (f64_of_int 1024))"

partial_function (option) prewarm_collect ::
    "'db badger \<Rightarrow> go_time \<Rightarrow> 'db l1_cache \<Rightarrow> (nat \<Rightarrow> u64) \<Rightarrow> u64 \<Rightarrow> nat \<Rightarrow> l1_iter \<Rightarrow>
     (string \<times> bytes) list \<Rightarrow> u64 \<Rightarrow> ((string \<times> bytes) list \<times> l1_iter) option" where
  "prewarm_collect B now c alloc limit n it entries bytesLoaded =
     (case iter_Next B now c it of
        None \<Rightarrow> None
      | Some (it1, found) \<Rightarrow>
          if \<not> found then Some (entries, it1)
          else if limit < alloc n then Some (entries, it1)
          else
         (case (iter_Key it1, iter_Value it1) of
            (Some key, Some (Inl e)) \<Rightarrow>
              prewarm_collect B now c alloc limit (Suc n) it1 entries bytesLoaded
          | (Some key, Some (Inr v)) \<Rightarrow>
              if limit < bytesLoaded + of_nat (length v) then Some (entries, it1)
              else prewarm_collect B now c alloc limit (Suc n) it1 (entries @ [(key, v)])
                     (bytesLoaded + of_nat (length v))
          | _ \<Rightarrow> None))"

end
