(* ===== verification/Tiered_Props.thy ===== *)
theory Tiered_Props
  imports Tiered L0_Props L1_Props Config_Props
begin

text \<open>
  The tiered cache as its client sees it: reading one's own writes, deleting from every tier,
  what a tiering round may not lose; and the interleavings and failures under which a deleted or
  expired value comes back or an older value is read, which follow from promoting without a time
  to live, from dropping L1's write errors, and from tiering with candidates taken before.
\<close>

subsection \<open>A cache in operation\<close>

definition running :: "('db, 'w) tiered_cache \<Rightarrow> l0_cache \<Rightarrow> 'db l1_cache \<Rightarrow> bool" where
  "running c l0 l1 \<longleftrightarrow>
     tc_initialized c \<and> \<not> tc_closed c \<and> tc_l0 c = Some l0 \<and> tc_l1 c = Some l1 \<and> cache_inv l0 \<and> l1_inv l1"

lemma running_guard: "running c l0 l1 \<Longrightarrow> tc_guard op c = None"
  by (simp add: running_def tc_guard_def)

lemma running_update:
  "running c l0 l1 \<Longrightarrow> cache_inv l0' \<Longrightarrow> l1_inv l1' \<Longrightarrow>
   running (c\<lparr>tc_l0 := Some l0', tc_l1 := Some l1', tc_recovery := m, tc_promotions := ps\<rparr>) l0' l1'"
  by (simp add: running_def)

lemma Tiered_Get_hit:
  assumes "running c l0 l1" and "L0_Get now0 key l0 = Some (l0', Inr v)"
  shows "Tiered_Get B now0 now1 w key c = Some (c\<lparr>tc_l0 := Some l0'\<rparr>, Inr v)"
  using assms by (simp add: Tiered_Get_def running_guard [OF assms(1)] try_l0_def running_def)

lemma Tiered_Get_l1:
  assumes "running c l0 l1" and "L0_Get now0 key l0 = Some (l0', Inl e)"
    and "L1_Get B now1 key l1 = Some (l1', Inr v)"
  shows "Tiered_Get B now0 now1 w key c =
    Some (c\<lparr>tc_l0 := Some l0', tc_l1 := Some l1', tc_promotions := tc_promotions c @ [(key, v)]\<rparr>, Inr v)"
  using assms by (simp add: Tiered_Get_def running_guard [OF assms(1)] try_l0_def try_l1_def running_def)

lemma log_write_shape:
  "\<exists>m d'. log_write wt wenv op' key v c d = (c\<lparr>tc_recovery := m\<rparr>, d')"
proof -
  have same: "\<exists>m. c = c\<lparr>tc_recovery := m\<rparr>" by (rule exI [of _ "tc_recovery c"]) simp
  show ?thesis
    unfolding log_write_def by (auto split: option.splits prod.splits intro: same)
qed

lemma Tiered_Set_shape:
  assumes "running c l0 l1" and "int (length v) \<le> uint (g0_MaxPayloadBytes (tc_L0cfg (tc_cfg c)))"
    and "L0_Set now0 key v ttl l0 = Some (l0', e0)" and "L1_Set B now1 key v ttl l1 = Some (l1', e1)"
  shows "\<exists>m d'. Tiered_Set B wt wenv now0 now1 key v ttl c d =
    Some (c\<lparr>tc_l0 := Some l0', tc_l1 := Some l1', tc_recovery := m\<rparr>, d', e0)"
proof -
  obtain m d' where l: "log_write wt wenv OpSet key v (c\<lparr>tc_l0 := Some l0', tc_l1 := Some l1'\<rparr>) d =
      (c\<lparr>tc_l0 := Some l0', tc_l1 := Some l1', tc_recovery := m\<rparr>, d')"
    using log_write_shape by blast
  have "Tiered_Set B wt wenv now0 now1 key v ttl c d =
      Some (c\<lparr>tc_l0 := Some l0', tc_l1 := Some l1', tc_recovery := m\<rparr>, d', e0)"
    using assms l by (simp add: Tiered_Set_def running_guard [OF assms(1)] on_l0_def on_l1_def
        running_def Let_def)
  then show ?thesis by blast
qed

lemma Tiered_Set_cases:
  assumes "running c l0 l1" and "Tiered_Set B wt wenv now0 now1 key v ttl c d = Some (c', d', None)"
    and "badger_ok B cont"
  obtains l0' l1' e1 m where "L0_Set now0 key v ttl l0 = Some (l0', None)"
    "L1_Set B now1 key v ttl l1 = Some (l1', e1)"
    "c' = c\<lparr>tc_l0 := Some l0', tc_l1 := Some l1', tc_recovery := m\<rparr>"
    "cache_inv l0'" "l1_inv l1'" "running c' l0' l1'"
proof -
  have inv: "cache_inv l0" "l1_inv l1" using assms(1) by (simp_all add: running_def)
  have len: "int (length v) \<le> uint (g0_MaxPayloadBytes (tc_L0cfg (tc_cfg c)))"
    using assms(2) by (auto simp: Tiered_Set_def running_guard [OF assms(1)] Let_def split: if_split_asm)
  obtain l0' e0 where s0: "L0_Set now0 key v ttl l0 = Some (l0', e0)"
    using l0_set_total [OF inv(1)] by blast
  obtain l1' e1 where s1: "L1_Set B now1 key v ttl l1 = Some (l1', e1)"
      "wrote cont (SetEntry key v (expires_at now1 ttl)) l1 l1' e1"
    using L1_Set_wrote [OF assms(3) inv(2)] by blast
  from Tiered_Set_shape [OF assms(1) len s0 s1(1), of wt wenv d] assms(2) obtain m where
    c': "c' = c\<lparr>tc_l0 := Some l0', tc_l1 := Some l1', tc_recovery := m\<rparr>" and e0: "e0 = None" by auto
  have "cache_inv l0'" using l0_set_done [OF inv(1)] s0 e0 by blast
  moreover have "l1_inv l1'" using s1(2) by (simp add: wrote_def)
  moreover have "running c' l0' l1'" using assms(1) calculation c' by (simp add: running_def)
  ultimately show thesis using that s0 s1(1) c' e0 by blast
qed

subsection \<open>Reading one's own writes\<close>


text \<open>A small cache in operation, for the witnesses.\<close>

definition small_tiered :: "l0_cache \<Rightarrow> mem_db l1_cache \<Rightarrow> (mem_db, unit) tiered_cache" where
  "small_tiered l0 l1 = \<lparr>tc_l0 = Some l0, tc_l1 = Some l1, tc_l2 = None, tc_recovery = None,
     tc_cfg = DefaultConfig 4, tc_closed = False, tc_initializing = False, tc_initialized = True,
     tc_cancelled = False, tc_promotions = []\<rparr>"

abbreviation at_sec :: "int \<Rightarrow> go_time" where
  "at_sec n \<equiv> \<lparr>tm_wall = n * 1000000000, tm_mono = None\<rparr>"

definition demo_wenv :: write_env where
  "demo_wenv = \<lparr>wv_now = at_sec 0, wv_marshal = (\<lambda>e. Inr []), wv_write = None\<rparr>"

lemma small_running:
  assumes "L0_New (Some small_l0_config) = Inr l0" and "l1_inv l1"
  shows "running (small_tiered l0 l1) l0 l1"
  using L0_New_Inr(1) [OF assms(1)] assms(2) by (simp add: running_def small_tiered_def)

lemma small_limit: "uint (g0_MaxPayloadBytes (tc_L0cfg (tc_cfg (small_tiered l0 l1)))) = 32768"
  by (simp add: small_tiered_def DefaultConfig_def default_L0_def)

lemma small_l0:
  obtains l0 where "L0_New (Some small_l0_config) = Inr l0" "l0_maxPayload l0 = 16" "\<not> l0_closed l0"
    "cache_inv l0" "l0_entry l0 = Map.empty"
proof -
  obtain l0 where "L0_New (Some small_l0_config) = Inr l0" using small_l0_New by blast
  then show thesis using that [of l0] L0_New_shape [of "Some small_l0_config" l0] L0_New_Inr [of _ l0]
    by (auto simp: small_l0_config_def)
qed

lemma L0_Set_ok:
  assumes "cache_inv l0" and "\<not> l0_closed l0" and "key \<noteq> []" and "v \<noteq> []"
    and "int (length v) \<le> l0_maxPayload l0"
  shows "\<exists>l0'. L0_Set now key v ttl l0 = Some (l0', None)"
  using assms(2-5) by (cases rule: L0_Set_cases [OF assms(1), of now key v ttl]) auto

lemma mem_l1_inv: "dbs \<noteq> [] \<Longrightarrow> length dbs < 2 ^ 32 \<Longrightarrow> l1_inv (mem_l1 dbs)"
  by (simp add: l1_inv_def mem_l1_def unat_of_nat of_nat_eq_0_iff word_of_nat_eq_0_iff nat_dvd_not_less)


subsection \<open>Deleting\<close>

text \<open>Updates of Badger that commit.\<close>

definition updates_ok :: "'db badger \<Rightarrow> bool" where
  "updates_ok B \<longleftrightarrow> (\<forall>w db. snd (bd_Update B w db) = None)"

lemma L1_Delete_ok:
  assumes "badger_ok B cont" and "updates_ok B" and "l1_inv l1" and "\<not> l1_closed l1" and "key \<noteq> []"
  shows "\<exists>l1'. L1_Delete B key l1 = Some (l1', None) \<and> l1_inv l1' \<and>
    l1_entry cont l1' = (l1_entry cont l1)(key := None)"
proof -
  obtain l1' e where d: "L1_Delete B key l1 = Some (l1', e)" "wrote cont (DeleteKey key) l1 l1' e"
    using L1_Delete_wrote [OF assms(1,3)] by blast
  have "snd (bd_Update B (DeleteKey key) db) = None" for db using assms(2) by (simp add: updates_ok_def)
  then have "e = None"
    using d(1) assms(4,5) by (auto simp: L1_Delete_def l1_getShard_inv [OF assms(3)] Let_def
        case_prod_unfold)
  then show ?thesis using d by (simp add: wrote_def)
qed

lemma Tiered_Delete_shape:
  assumes "running c l0 l1" and "L0_Delete key l0 = Some (l0', e0)" and "L1_Delete B key l1 = Some (l1', e1)"
  shows "\<exists>m d'. Tiered_Delete B wt wenv key c d =
    Some (c\<lparr>tc_l0 := Some l0', tc_l1 := Some l1', tc_recovery := m\<rparr>, d', if e1 \<noteq> None then e1 else e0)"
proof -
  obtain m d' where l: "log_write wt wenv OpDelete key [] (c\<lparr>tc_l0 := Some l0', tc_l1 := Some l1'\<rparr>) d =
      (c\<lparr>tc_l0 := Some l0', tc_l1 := Some l1', tc_recovery := m\<rparr>, d')"
    using log_write_shape by blast
  have "Tiered_Delete B wt wenv key c d =
      Some (c\<lparr>tc_l0 := Some l0', tc_l1 := Some l1', tc_recovery := m\<rparr>, d', if e1 \<noteq> None then e1 else e0)"
    using assms l by (simp add: Tiered_Delete_def running_guard [OF assms(1)] on_l0_def on_l1_def
        running_def Let_def)
  then show ?thesis by blast
qed

lemma Tiered_Delete_both:
  assumes "running c l0 l1" and "badger_ok B cont" and "updates_ok B"
    and "\<not> l0_closed l0" and "\<not> l1_closed l1" and "key \<noteq> []"
  shows "\<exists>l0' l1' m d'. Tiered_Delete B wt wenv key c d =
      Some (c\<lparr>tc_l0 := Some l0', tc_l1 := Some l1', tc_recovery := m\<rparr>, d',
        if l0_entry l0 key = None then Some (ErrCode ErrCodeNotFound) else None) \<and>
    cache_inv l0' \<and> l1_inv l1' \<and> l0_entry l0' = (l0_entry l0)(key := None) \<and>
    l1_entry cont l1' = (l1_entry cont l1)(key := None) \<and> \<not> l0_closed l0' \<and>
    l0_maxPayload l0' = l0_maxPayload l0"
proof -
  have inv: "cache_inv l0" "l1_inv l1" using assms(1) by (simp_all add: running_def)
  obtain l1' where l1': "L1_Delete B key l1 = Some (l1', None)" "l1_inv l1'"
      "l1_entry cont l1' = (l1_entry cont l1)(key := None)"
    using L1_Delete_ok [OF assms(2,3) inv(2) assms(5,6)] by blast
  have frame: "l0_closed l0' = l0_closed l0 \<and> l0_maxPayload l0' = l0_maxPayload l0"
    if "L0_Delete key l0 = Some (l0', e)" for l0' e
    using that by (auto simp: L0_Delete_def bind_eq_Some_conv Let_def split: if_split_asm option.splits)
  obtain l0' where l0': "L0_Delete key l0 = Some (l0', if l0_entry l0 key = None
      then Some (ErrCode ErrCodeNotFound) else None)" "cache_inv l0'"
      "l0_entry l0' = (l0_entry l0)(key := None)"
  proof (cases rule: L0_Delete_cases [OF inv(1), of key])
    case (1 e)
    then show thesis using assms(4,6) by simp
  next
    case 2
    then show thesis using that [of l0] inv(1) by (simp add: fun_upd_idem)
  next
    case (3 c' e)
    then show thesis using that [of c'] by simp
  qed
  from Tiered_Delete_shape [OF assms(1) l0'(1) l1'(1), of wt wenv d] obtain m d' where
    "Tiered_Delete B wt wenv key c d = Some (c\<lparr>tc_l0 := Some l0', tc_l1 := Some l1', tc_recovery := m\<rparr>,
       d', if l0_entry l0 key = None then Some (ErrCode ErrCodeNotFound) else None)"
    by auto
  then show ?thesis using l0' l1' frame [OF l0'(1)] assms(4) by blast
qed

text \<open>
  C32. \<^verbatim>\<open>Delete\<close> removes the key from both local tiers (when Badger's updates commit); what it
  returns tells only whether L0 held the key: for a key held by L1 alone it reports NOT_FOUND
  although it has just deleted it.
\<close>

theorem tiered_delete_both_tiers:
  assumes "running c l0 l1" and "badger_ok B cont" and "updates_ok B"
    and "\<not> l0_closed l0" and "\<not> l1_closed l1" and "key \<noteq> []"
  shows "\<exists>l0' l1' m d'. Tiered_Delete B wt wenv key c d =
      Some (c\<lparr>tc_l0 := Some l0', tc_l1 := Some l1', tc_recovery := m\<rparr>, d',
        if l0_entry l0 key = None then Some (ErrCode ErrCodeNotFound) else None) \<and>
    l0_entry l0' = (l0_entry l0)(key := None) \<and> l1_entry cont l1' = (l1_entry cont l1)(key := None)"
  using Tiered_Delete_both [OF assms] by blast

lemma mem_updates_ok: "updates_ok mem_badger"
  by (simp add: updates_ok_def mem_badger_def split: badger_write.split)

lemma mem_reads_ok: "reads_ok mem_badger"
  by (auto simp: reads_ok_def mem_badger_def split: option.split)

lemma two_shards_inv: "l1_inv two_shards" "\<not> l1_closed two_shards"
  by (simp_all add: two_shards_def l1_inv_def mem_l1_def)

text \<open>The key \<^verbatim>\<open>b\<close> is in the L1 shard its hash selects.\<close>

lemma two_shards_b: "l1_entry map_of two_shards ''b'' = Some ([2], 0)"
  by code_simp

theorem tiered_delete_both_tiers_witness:
  "\<exists>l0 l0' l1' m d'. Tiered_Delete mem_badger (\<lambda>i. []) demo_wenv ''b'' (small_tiered l0 two_shards) empty_disk =
      Some ((small_tiered l0 two_shards)\<lparr>tc_l0 := Some l0', tc_l1 := Some l1', tc_recovery := m\<rparr>, d',
        Some (ErrCode ErrCodeNotFound)) \<and>
    l1_entry map_of two_shards ''b'' = Some ([2], 0) \<and> l1_entry map_of l1' ''b'' = None"
proof -
  obtain l0 where l0: "L0_New (Some small_l0_config) = Inr l0" "\<not> l0_closed l0" "l0_entry l0 = Map.empty"
    by (rule small_l0)
  note run = small_running [OF l0(1) two_shards_inv(1)]
  from tiered_delete_both_tiers [OF run mem_badger_ok mem_updates_ok l0(2) two_shards_inv(2), of "''b''"
      "\<lambda>i. []" demo_wenv empty_disk] l0(3)
  obtain l0' l1' m d' where "Tiered_Delete mem_badger (\<lambda>i. []) demo_wenv ''b'' (small_tiered l0 two_shards)
      empty_disk = Some ((small_tiered l0 two_shards)\<lparr>tc_l0 := Some l0', tc_l1 := Some l1',
        tc_recovery := m\<rparr>, d', Some (ErrCode ErrCodeNotFound))"
      "l1_entry map_of l1' = (l1_entry map_of two_shards)(''b'' := None)"
    by auto
  then show ?thesis using two_shards_b by (metis fun_upd_same)
qed

text \<open>
  C33. A deleted value comes back. A \<^verbatim>\<open>Get\<close> that hits L1 promotes the value to L0 in a goroutine;
  when a \<^verbatim>\<open>Delete\<close> of the key completes before that goroutine runs, the value is stored in L0
  after the deletion, without a time to live, and every later \<^verbatim>\<open>Get\<close> returns it.
\<close>

theorem promotion_resurrects_deleted:
  assumes "running c l0 l1" and "badger_ok B cont" and "updates_ok B"
    and "\<not> l0_closed l0" and "\<not> l1_closed l1" and "key \<noteq> []" and "v \<noteq> []"
    and "int (length key) \<le> l0_maxPayload l0" and "int (length v) \<le> l0_maxPayload l0"
    and "i < length (tc_promotions c)" and "tc_promotions c ! i = (key, v)"
    and "Tiered_Delete B wt wenv key c d = Some (c1, d1, e)"
  shows "\<exists>c2 c3. run_promotion i now c1 = Some c2 \<and> Tiered_Get B t0 t1 w key c2 = Some (c3, Inr v)"
proof -
  obtain l0' l1' m where c1: "c1 = c\<lparr>tc_l0 := Some l0', tc_l1 := Some l1', tc_recovery := m\<rparr>"
      "cache_inv l0'" "l1_inv l1'" "\<not> l0_closed l0'" "l0_maxPayload l0' = l0_maxPayload l0"
    using Tiered_Delete_both [OF assms(1-6), of wt wenv d] assms(12) by auto
  obtain l0'' where s: "L0_Set now key v 0 l0' = Some (l0'', None)"
    using L0_Set_ok [OF c1(2,4) assms(6,7)] assms(9) c1(5) by auto
  define c2 where "c2 = c1\<lparr>tc_l0 := Some l0'', tc_promotions :=
      take i (tc_promotions c1) @ drop (Suc i) (tc_promotions c1)\<rparr>"
  have p: "run_promotion i now c1 = Some c2"
    using assms(10,11) s by (simp add: run_promotion_def c1(1) c2_def)
  have st: "cache_inv l0''" "l0_entry l0'' key = Some (NewCacheEntry now key v 0)"
    using l0_set_done [OF c1(2) s] by simp_all
  have run: "running c2 l0'' l1'"
    using assms(1) st(1) c1 by (simp add: running_def c2_def)
  have "\<not> IsExpired t0 (NewCacheEntry now key v 0)" by (simp add: IsExpired_def)
  moreover have "\<not> l0_closed l0''" "int (length key) \<le> l0_maxPayload l0''"
    using L0_Set_frame [OF s] c1(4,5) assms(8) by simp_all
  ultimately obtain l0n where "L0_Get t0 key l0'' = Some (l0n, Inr v)"
    using L0_Get_entry [OF st(1) _ assms(6) _ st(2), of t0] by auto
  from Tiered_Get_hit [OF run this] p show ?thesis by blast
qed

text \<open>A \<^verbatim>\<open>Get\<close> of a key that L1 alone holds, for the witnesses.\<close>

lemma small_get_promotes:
  assumes "running c l0 two_shards" and "\<not> l0_closed l0" and "l0_maxPayload l0 = 16"
    and "l0_entry l0 ''b'' = None"
  shows "\<exists>l0' st. Tiered_Get mem_badger t0 t1 () ''b'' c =
      Some (c\<lparr>tc_l0 := Some l0', tc_l1 := Some (two_shards\<lparr>l1_stats := st\<rparr>),
        tc_promotions := tc_promotions c @ [(''b'', [2])]\<rparr>, Inr [2]) \<and>
    cache_inv l0' \<and> \<not> l0_closed l0' \<and> l0_maxPayload l0' = 16"
proof -
  have inv: "cache_inv l0" using assms(1) by (simp add: running_def)
  obtain l0' where g0: "L0_Get t0 ''b'' l0 = Some (l0', Inl (ErrCode ErrCodeNotFound))" "cache_inv l0'"
      "\<not> l0_closed l0'" "l0_maxPayload l0' = 16"
  proof (cases rule: L0_Get_cases [OF inv, of t0 "''b''"])
    case 2
    then show thesis using that count_miss_inv(1) [OF inv, of "''b''"] assms(2,3)
      by (simp add: count_miss_def)
  qed (use assms(2-4) in auto)
  have "\<not> l1_closed two_shards" by (rule two_shards_inv(2))
  from L1_Get_reads [OF mem_badger_ok mem_reads_ok two_shards_inv(1) this, of "''b''" t1]
  obtain st where "L1_Get mem_badger t1 ''b'' two_shards = Some (two_shards\<lparr>l1_stats := st\<rparr>, Inr [2])"
    by (auto simp: two_shards_b)
  from Tiered_Get_l1 [OF assms(1) g0(1) this] show ?thesis using g0(2-4) by blast
qed

theorem promotion_resurrects_deleted_witness:
  "\<exists>l0 c c1 d1 e c2 c3. Tiered_Get mem_badger (at_sec 0) (at_sec 0) () ''b'' (small_tiered l0 two_shards) =
       Some (c, Inr [2]) \<and>
     Tiered_Delete mem_badger (\<lambda>i. []) demo_wenv ''b'' c empty_disk = Some (c1, d1, e) \<and>
     run_promotion 0 (at_sec 1) c1 = Some c2 \<and>
     Tiered_Get mem_badger (at_sec 9) (at_sec 9) () ''b'' c2 = Some (c3, Inr [2])"
proof -
  obtain l0 where l0: "L0_New (Some small_l0_config) = Inr l0" "l0_maxPayload l0 = 16" "\<not> l0_closed l0"
      "l0_entry l0 = Map.empty" by (rule small_l0)
  note run = small_running [OF l0(1) two_shards_inv(1)]
  have none: "tc_promotions (small_tiered l0 two_shards) = []" by (simp add: small_tiered_def)
  obtain l0' st where
    g: "Tiered_Get mem_badger (at_sec 0) (at_sec 0) () ''b'' (small_tiered l0 two_shards) =
      Some ((small_tiered l0 two_shards)\<lparr>tc_l0 := Some l0', tc_l1 := Some (two_shards\<lparr>l1_stats := st\<rparr>),
        tc_promotions := [(''b'', [2])]\<rparr>, Inr [2])" "cache_inv l0'" "\<not> l0_closed l0'" "l0_maxPayload l0' = 16"
    using small_get_promotes [OF run l0(3,2), of "at_sec 0" "at_sec 0"] l0(4) unfolding none by auto
  define c where "c = (small_tiered l0 two_shards)\<lparr>tc_l0 := Some l0',
      tc_l1 := Some (two_shards\<lparr>l1_stats := st\<rparr>), tc_promotions := [(''b'', [2])]\<rparr>"
  have rc: "running c l0' (two_shards\<lparr>l1_stats := st\<rparr>)"
    using g(2) two_shards_inv(1) by (simp add: running_def c_def small_tiered_def)
  have cl: "\<not> l1_closed (two_shards\<lparr>l1_stats := st\<rparr>)" using two_shards_inv(2) by simp
  obtain c1 d1 e where dl: "Tiered_Delete mem_badger (\<lambda>i. []) demo_wenv ''b'' c empty_disk = Some (c1, d1, e)"
    using Tiered_Delete_both [OF rc mem_badger_ok mem_updates_ok g(3) cl, of "''b''"] by blast
  from promotion_resurrects_deleted [OF rc mem_badger_ok mem_updates_ok g(3) cl _ _ _ _ _ _ dl,
      of "[2]" 0 "at_sec 1" "at_sec 9" "at_sec 9" "()"] g(4)
  show ?thesis using g(1) dl unfolding c_def by fastforce
qed

subsection \<open>A swallowed L1 error\<close>

lemma L0_Get_expired:
  assumes "cache_inv l0" and "\<not> l0_closed l0" and "key \<noteq> []" and "int (length key) \<le> l0_maxPayload l0"
    and "l0_entry l0 key = Some e" and "IsExpired t e"
  shows "\<exists>l0'. L0_Get t key l0 = Some (l0', Inl (ErrCode ErrCodeNotFound)) \<and> cache_inv l0'"
proof -
  obtain l0' where g: "L0_Get t key l0 = Some (l0', Inl (ErrCode ErrCodeNotFound))"
    using L0_Get_entry [OF assms(1-5), of t] assms(6) by auto
  then show ?thesis using l0_get_inv [OF assms(1)] by blast
qed

text \<open>
  C34. \<^verbatim>\<open>Set\<close> reports success when only L0 took the new value: L1's error (here: L1 is at its
  capacity, where it refuses even to overwrite) is printed and dropped, so L1 keeps the old
  value, and once the new one has expired in L0 a \<^verbatim>\<open>Get\<close> returns the value that was
  overwritten.
\<close>

theorem stale_value_after_swallowed_error:
  assumes "running c l0 l1" and "badger_ok B cont" and "reads_ok B"
    and "\<not> l1_closed l1" and "l1_maxCapacity l1 \<le> DiskUsage B l1"
    and "l1_entry cont l1 key = Some (old, 0)" and "int (length key) \<le> l0_maxPayload l0"
    and "Tiered_Set B wt wenv now0 now1 key v ttl c d = Some (c1, d1, None)"
    and "0 < ttl" and "ttl < time_sub t0 now0"
  shows "\<exists>c2. Tiered_Get B t0 t1 w key c1 = Some (c2, Inr old)"
proof -
  have inv: "cache_inv l0" "l1_inv l1" using assms(1) by (simp_all add: running_def)
  obtain l0' l1' e1 m where s: "L0_Set now0 key v ttl l0 = Some (l0', None)"
      "L1_Set B now1 key v ttl l1 = Some (l1', e1)" "cache_inv l0'" "running c1 l0' l1'"
    using Tiered_Set_cases [OF assms(1,8,2)] by metis
  have key: "key \<noteq> []" "v \<noteq> []" "\<not> l0_closed l0'"
    using L0_Set_guards [OF inv(1) s(1)] by simp_all
  have "l1' = l1" using s(2) assms(4,5) key by (simp add: L1_Set_def)
  have en: "l0_entry l0' key = Some (NewCacheEntry now0 key v ttl)" using l0_set_done [OF inv(1) s(1)] by blast
  have len: "int (length key) \<le> l0_maxPayload l0'" using assms(7) L0_Set_frame [OF s(1)] by simp
  have "IsExpired t0 (NewCacheEntry now0 key v ttl)" using assms(9,10) by (simp add: IsExpired_def)
  from L0_Get_expired [OF s(3) key(3,1) len en this]
  obtain l0'' where g0: "L0_Get t0 key l0' = Some (l0'', Inl (ErrCode ErrCodeNotFound))" by blast
  obtain l1'' where "L1_Get B t1 key l1' = Some (l1'', Inr old)"
    using L1_Get_reads [OF assms(2,3) inv(2) assms(4) key(1), of t1] assms(6) \<open>l1' = l1\<close> by auto
  from Tiered_Get_l1 [OF s(4) g0 this] show ?thesis by blast
qed

definition full_l1 :: "mem_db l1_cache" where
  "full_l1 = two_shards\<lparr>l1_maxCapacity := 2\<rparr>"

theorem stale_value_after_swallowed_error_witness:
  "\<exists>l0 c1 d1 c2. Tiered_Set mem_badger (\<lambda>i. []) demo_wenv (at_sec 0) (at_sec 0) ''b'' [7] 1000000000
       (small_tiered l0 full_l1) empty_disk = Some (c1, d1, None) \<and>
     Tiered_Get mem_badger (at_sec 2) (at_sec 2) () ''b'' c1 = Some (c2, Inr [2])"
proof -
  obtain l0 where l0: "L0_New (Some small_l0_config) = Inr l0" "l0_maxPayload l0 = 16"
      "\<not> l0_closed l0" "cache_inv l0" by (rule small_l0)
  have full: "l1_inv full_l1" "\<not> l1_closed full_l1" "l1_maxCapacity full_l1 \<le> DiskUsage mem_badger full_l1"
    using two_shards_inv by (simp_all add: full_l1_def l1_inv_def DiskUsage_def two_shards_def mem_l1_def
        mem_badger_def)
  have b: "l1_entry map_of full_l1 ''b'' = Some ([2], 0)"
    using two_shards_b by (simp add: full_l1_def l1_entry_def)
  note run = small_running [OF l0(1) full(1)]
  obtain l0' where s0: "L0_Set (at_sec 0) ''b'' [7] 1000000000 l0 = Some (l0', None)"
    using L0_Set_ok [OF l0(4,3), of "''b''" "[7]" "at_sec 0" 1000000000] l0(2) by auto
  obtain l1' e1 where "L1_Set mem_badger (at_sec 0) ''b'' [7] 1000000000 full_l1 = Some (l1', e1)"
    using L1_Set_wrote [OF mem_badger_ok full(1)] by blast
  from Tiered_Set_shape [OF run _ s0 this] small_limit [of l0 full_l1]
  obtain c1 d1 where s: "Tiered_Set mem_badger (\<lambda>i. []) demo_wenv (at_sec 0) (at_sec 0) ''b'' [7] 1000000000
      (small_tiered l0 full_l1) empty_disk = Some (c1, d1, None)" by fastforce
  have "(1000000000 :: int) < time_sub (at_sec 2) (at_sec 0)" by (simp add: time_sub_def)
  from stale_value_after_swallowed_error [OF run mem_badger_ok mem_reads_ok full(2,3) b _ s _ this,
      of "at_sec 2" "()"] l0(2)
  show ?thesis using s by auto
qed

subsection \<open>Tiering\<close>

text \<open>What a round keeps: an entry of L0 stays there or its value is in L1.\<close>

definition kept :: "('db \<Rightarrow> contents) \<Rightarrow> (string \<rightharpoonup> cache_entry) \<Rightarrow> l0_cache \<times> 'db l1_cache \<Rightarrow> bool" where
  "kept cont orig s \<longleftrightarrow> (case s of (l0, l1) \<Rightarrow> cache_inv l0 \<and> l1_inv l1 \<and>
     (\<forall>k e. orig k = Some e \<longrightarrow> l0_entry l0 k = Some e \<or> l1_stored cont l1 k = Some (ce_Value e)))"

lemma L1_Get_stored:
  assumes "l1_inv l1" and "L1_Get B t k l1 = Some (l1', r)"
  shows "l1_inv l1' \<and> l1_entry cont l1' = l1_entry cont l1"
  using L1_Get_shape [OF assms(1), of B t k] assms(2) assms(1) by auto

lemma tier_entry_kept:
  assumes "badger_ok B cont" and "kept cont orig s" and "orig (ce_Key x) = Some x"
  shows "\<exists>s'. tier_entry B n0 n1 x s = Some s' \<and> kept cont orig s'"
proof -
  obtain l0 l1 where s: "s = (l0, l1)" by fastforce
  have inv: "cache_inv l0" "l1_inv l1" using assms(2) by (simp_all add: kept_def s)
  have keep: "orig k = Some e \<Longrightarrow> l0_entry l0 k = Some e \<or> l1_stored cont l1 k = Some (ce_Value e)" for k e
    using assms(2) by (simp add: kept_def s)
  obtain l1a e where a: "L1_Set B n0 (ce_Key x) (ce_Value x) (ce_TTL x) l1 = Some (l1a, e)"
      "wrote cont (SetEntry (ce_Key x) (ce_Value x) (expires_at n0 (ce_TTL x))) l1 l1a e"
    using L1_Set_wrote [OF assms(1) inv(2)] by blast
  show ?thesis
  proof (cases e)
    case (Some err)
    then have "kept cont orig (l0, l1a)"
      using keep inv(1) wrote_stored(3,4) a(2) unfolding kept_def by fastforce
    then show ?thesis using a(1) Some by (simp add: tier_entry_def s)
  next
    case None
    have l1a: "l1_inv l1a" "l1_stored cont l1a = (l1_stored cont l1)(ce_Key x \<mapsto> ce_Value x)"
      using a(2) None wrote_stored(1,4) by blast+
    have stay: "orig k = Some e \<Longrightarrow> k \<noteq> ce_Key x \<Longrightarrow>
        l0_entry l0 k = Some e \<or> l1_stored cont l1a k = Some (ce_Value e)" for k e
      using keep l1a(2) by auto
    obtain l1b r where b: "L1_Get B n1 (ce_Key x) l1a = Some (l1b, r)"
      using L1_Get_shape [OF l1a(1)] by blast
    have l1b: "l1_inv l1b" "l1_stored cont l1b = l1_stored cont l1a"
      using L1_Get_stored [OF l1a(1) b, of cont] by (simp_all add: l1_stored_def [abs_def])
    have here: "orig (ce_Key x) = Some e \<Longrightarrow> l1_stored cont l1b (ce_Key x) = Some (ce_Value e)" for e
      using assms(3) l1a(2) l1b(2) by simp
    obtain l0' err where m: "L0_Demote (ce_Key x) l0 = Some (l0', err)" "cache_inv l0'"
        "\<And>k. k \<noteq> ce_Key x \<Longrightarrow> l0_entry l0' k = l0_entry l0 k"
      by (cases rule: L0_Demote_cases [OF inv(1), of "ce_Key x"]) (use inv(1) in auto)
    have k0: "kept cont orig (l0, l1b)" and k1: "kept cont orig (l0', l1b)"
      unfolding kept_def using inv(1) m(2,3) l1b stay here by (auto, metis+)
    show ?thesis
      using a(1) None b m(1) k0 k1 by (cases r) (simp_all add: tier_entry_def s)
  qed
qed

lemma tier_entries_kept:
  assumes "badger_ok B cont" and "kept cont orig s" and "\<forall>x \<in> set xs. orig (ce_Key x) = Some x"
  shows "\<exists>s'. tier_entries B clk n xs s = Some s' \<and> kept cont orig s'"
  using assms(2,3)
proof (induction xs arbitrary: n s)
  case Nil
  then show ?case by simp
next
  case (Cons x xs)
  then obtain s1 where s1: "tier_entry B (clk n) (clk (Suc n)) x s = Some s1" "kept cont orig s1"
    using tier_entry_kept [OF assms(1) Cons.prems(1), of x] by fastforce
  from Cons.IH [OF s1(2), of "Suc (Suc n)"] Cons.prems(2) s1(1) show ?case by simp
qed

text \<open>
  C35. A tiering round loses nothing: it runs without a panic, and every entry L0 held before it
  is afterwards still in L0 or its value is in L1 under the same key, whichever copies fail,
  whichever entries have expired and in whatever order the shards are iterated.
\<close>

theorem tiering_keeps_entries:
  assumes "running c l0 l1" and "badger_ok B cont" and "iter_ok iter"
  shows "\<exists>c' l0' l1'. performTiering B iter clk c = Some c' \<and> running c' l0' l1' \<and>
    (\<forall>k e. l0_entry l0 k = Some e \<longrightarrow>
       l0_entry l0' k = Some e \<or> l1_stored cont l1' k = Some (ce_Value e))"
proof -
  have inv: "cache_inv l0" "l1_inv l1" and st: "tc_l0 c = Some l0" "tc_l1 c = Some l1"
    using assms(1) by (simp_all add: running_def)
  have nothing: ?thesis if "performTiering B iter clk c = Some c" using that assms(1) by blast
  define batch where "batch = gt_BatchSize (g2_Tiering (tc_L2cfg (tc_cfg c)))"
  show ?thesis
  proof (cases "f64_less (L0_UsageRatio l0) (gt_L0ToL1Threshold (g2_Tiering (tc_L2cfg (tc_cfg c))))")
    case True
    then have "performTiering B iter clk c = Some c" by (simp add: performTiering_def st)
    then show ?thesis using inv assms(1) by blast
  next
    case busy: False
    show ?thesis
    proof (cases "L0_EvictCandidates iter batch l0")
      case (Inl err)
      then have "performTiering B iter clk c = Some c"
        using busy by (simp add: performTiering_def st batch_def)
      then show ?thesis using inv assms(1) by blast
    next
      case (Inr xs)
      have "\<forall>x \<in> set xs. l0_entry l0 (ce_Key x) = Some x"
        using evict_candidates_stored [OF inv(1) assms(3) Inr] by blast
      moreover have "kept cont (l0_entry l0) (l0, l1)" using inv by (simp add: kept_def)
      ultimately obtain l0' l1' where t: "tier_entries B clk 0 xs (l0, l1) = Some (l0', l1')"
          "kept cont (l0_entry l0) (l0', l1')"
        using tier_entries_kept [OF assms(2), of "l0_entry l0" "(l0, l1)" xs clk 0] by fastforce
      then have "performTiering B iter clk c = Some (c\<lparr>tc_l0 := Some l0', tc_l1 := Some l1'\<rparr>)"
        using busy Inr by (simp add: performTiering_def st batch_def)
      moreover have "running (c\<lparr>tc_l0 := Some l0', tc_l1 := Some l1'\<rparr>) l0' l1'"
        using assms(1) t(2) by (simp add: running_def kept_def)
      ultimately show ?thesis using t(2) unfolding kept_def by blast
    qed
  qed
qed

theorem tiering_keeps_entries_witness:
  "\<exists>l0 c'. L0_New (Some small_l0_config) = Inr l0 \<and>
     performTiering mem_badger sh_entries (\<lambda>n. at_sec 0) (small_tiered l0 two_shards) = Some c'"
proof -
  obtain l0 where l0: "L0_New (Some small_l0_config) = Inr l0" by (rule small_l0)
  have "iter_ok sh_entries" by (simp add: iter_ok_def)
  from tiering_keeps_entries [OF small_running [OF l0 two_shards_inv(1)] mem_badger_ok this]
  show ?thesis using l0 by blast
qed

text \<open>One candidate, when Badger works and L1 has room.\<close>

lemma tier_entry_moves:
  assumes "badger_ok B cont" and "reads_ok B" and "updates_ok B" and "cache_inv l0" and "l1_inv l1"
    and "\<not> l0_closed l0" and "\<not> l1_closed l1" and "DiskUsage B l1 < l1_maxCapacity l1"
    and "ce_Key x \<noteq> []" and "ce_Value x \<noteq> []"
    and "live n1 (ce_Value x, expires_at n0 (ce_TTL x))"
  shows "\<exists>l0' l1'. tier_entry B n0 n1 x (l0, l1) = Some (l0', l1') \<and> cache_inv l0' \<and> l1_inv l1' \<and>
    l0_entry l0' = (l0_entry l0)(ce_Key x := None) \<and> \<not> l0_closed l0' \<and> l0_maxPayload l0' = l0_maxPayload l0 \<and>
    l1_entry cont l1' = (l1_entry cont l1)(ce_Key x \<mapsto> (ce_Value x, expires_at n0 (ce_TTL x))) \<and>
    \<not> l1_closed l1'"
proof -
  obtain l1a e where a: "L1_Set B n0 (ce_Key x) (ce_Value x) (ce_TTL x) l1 = Some (l1a, e)"
      "wrote cont (SetEntry (ce_Key x) (ce_Value x) (expires_at n0 (ce_TTL x))) l1 l1a e"
    using L1_Set_wrote [OF assms(1,5)] by blast
  have u: "snd (bd_Update B w db) = None" for w db using assms(3) by (simp add: updates_ok_def)
  have room: "(l1_maxCapacity l1 \<le> DiskUsage B l1) = False" using assms(8) by (simp add: not_le)
  have a': "e = None" "\<not> l1_closed l1a"
    using a(1) assms(7,9,10) u room
    by (auto simp: L1_Set_def l1_getShard_inv [OF assms(5)] Let_def case_prod_unfold count_l1_def set_db_def)
  have l1a: "l1_inv l1a" "l1_entry cont l1a =
      (l1_entry cont l1)(ce_Key x \<mapsto> (ce_Value x, expires_at n0 (ce_TTL x)))"
    using a(2) a'(1) by (simp_all add: wrote_def)
  obtain st where b: "L1_Get B n1 (ce_Key x) l1a = Some (l1a\<lparr>l1_stats := st\<rparr>, Inr (ce_Value x))"
    using L1_Get_reads [OF assms(1,2) l1a(1) a'(2) assms(9), of n1] assms(11) l1a(2) by auto
  have frame: "l0_closed l0' = l0_closed l0 \<and> l0_maxPayload l0' = l0_maxPayload l0"
    if "L0_Demote (ce_Key x) l0 = Some (l0', r)" for l0' r
    using that by (auto simp: L0_Demote_def bind_eq_Some_conv Let_def split: if_split_asm option.splits)
  obtain l0' r where m: "L0_Demote (ce_Key x) l0 = Some (l0', r)" "cache_inv l0'"
      "l0_entry l0' = (l0_entry l0)(ce_Key x := None)"
  proof (cases rule: L0_Demote_cases [OF assms(4), of "ce_Key x"])
    case 1
    then show thesis using assms(6) by simp
  next
    case 2
    then show thesis using that [of l0] assms(4) by (simp add: fun_upd_idem)
  next
    case (3 c' e)
    then show thesis using that [of c'] by simp
  qed
  have "tier_entry B n0 n1 x (l0, l1) = Some (l0', l1a\<lparr>l1_stats := st\<rparr>)"
    using a(1) a'(1) b m(1) by (simp add: tier_entry_def)
  then show ?thesis using m(2,3) frame [OF m(1)] l1a a'(2) assms(6) by auto
qed

text \<open>After such a move a \<^verbatim>\<open>Get\<close> finds the moved value in L1.\<close>

lemma moved_get:
  assumes "badger_ok B cont" and "reads_ok B" and "running c l0 l1" and "\<not> l0_closed l0"
    and "\<not> l1_closed l1" and "key \<noteq> []" and "int (length key) \<le> l0_maxPayload l0"
    and "l0_entry l0 key = None" and "l1_entry cont l1 key = Some (v, ex)" and "live t1 (v, ex)"
  shows "\<exists>c'. Tiered_Get B t0 t1 w key c = Some (c', Inr v)"
proof -
  have inv: "cache_inv l0" "l1_inv l1" using assms(3) by (simp_all add: running_def)
  obtain l0' where g0: "L0_Get t0 key l0 = Some (l0', Inl (ErrCode ErrCodeNotFound))"
    by (cases rule: L0_Get_cases [OF inv(1), of t0 key]) (use assms(4,6-8) in auto)
  obtain l1' where "L1_Get B t1 key l1 = Some (l1', Inr v)"
    using L1_Get_reads [OF assms(1,2) inv(2) assms(5,6), of t1] assms(9,10) by auto
  from Tiered_Get_l1 [OF assms(3) g0 this] show ?thesis by blast
qed

text \<open>
  A write that happens during a tiering round can be undone by it. The round takes its
  candidates first; when a \<^verbatim>\<open>Set\<close> of a candidate's key completes before the candidate's turn, the
  round copies the old value over the new one in L1, finds a value there, and removes the new
  value from L0: the write had returned nil, and a \<^verbatim>\<open>Get\<close> returns the value from before it.
\<close>

theorem tiering_undoes_concurrent_write:
  assumes "running c l0 l1" and "badger_ok B cont" and "reads_ok B" and "updates_ok B" and "iter_ok iter"
    and "L0_EvictCandidates iter cnt l0 = Inr [x]" and "ce_TTL x \<le> 0"
    and "int (length (ce_Key x)) \<le> l0_maxPayload l0"
    and "Tiered_Set B wt wenv now0 now1 (ce_Key x) v ttl c d = Some (c1, d1, None)"
    and "tc_l0 c1 = Some l0a" and "tc_l1 c1 = Some l1a"
    and "\<not> l1_closed l1a" and "DiskUsage B l1a < l1_maxCapacity l1a"
  shows "\<exists>l0b l1b c2. tier_entries B clk 0 [x] (l0a, l1a) = Some (l0b, l1b) \<and>
    Tiered_Get B t0 t1 w (ce_Key x) (c1\<lparr>tc_l0 := Some l0b, tc_l1 := Some l1b\<rparr>) = Some (c2, Inr (ce_Value x))"
proof -
  have inv: "cache_inv l0" using assms(1) by (simp add: running_def)
  obtain l0' l1' where s': "L0_Set now0 (ce_Key x) v ttl l0 = Some (l0', None)" "running c1 l0' l1'"
    using Tiered_Set_cases [OF assms(1,9,2)] by metis
  then have "l0' = l0a" "l1' = l1a" using assms(10,11) by (simp_all add: running_def)
  with s' have s: "L0_Set now0 (ce_Key x) v ttl l0 = Some (l0a, None)" "cache_inv l0a" "l1_inv l1a"
      "running c1 l0a l1a"
    by (simp_all add: running_def)
  have open0: "\<not> l0_closed l0a" "ce_Key x \<noteq> []" using L0_Set_guards [OF inv s(1)] by simp_all
  have "l0_entry l0 (ce_Key x) = Some x" using evict_candidates_stored [OF inv assms(5,6)] by simp
  then have "ce_Value x \<noteq> []"
    using shard_inv_entry_ok [OF cache_inv_shard [OF inv], of "ce_Key x" "ce_Key x" x]
    by (simp add: l0_entry_def entry_ok_def)
  moreover have lv: "live t (ce_Value x, expires_at (clk 0) (ce_TTL x))" for t
    using assms(7) by (simp add: expires_at_def)
  ultimately obtain l0b l1b where t: "tier_entry B (clk 0) (clk 1) x (l0a, l1a) = Some (l0b, l1b)"
      "cache_inv l0b" "l1_inv l1b" "l0_entry l0b = (l0_entry l0a)(ce_Key x := None)" "\<not> l0_closed l0b"
      "l0_maxPayload l0b = l0_maxPayload l0a"
      "l1_entry cont l1b (ce_Key x) = Some (ce_Value x, expires_at (clk 0) (ce_TTL x))" "\<not> l1_closed l1b"
    using tier_entry_moves [OF assms(2-4) s(2,3) open0(1) assms(12,13) open0(2)] by (metis fun_upd_same)
  define c1b where "c1b = c1\<lparr>tc_l0 := Some l0b, tc_l1 := Some l1b\<rparr>"
  have "running c1b l0b l1b" using s(4) t(2,3) by (simp add: running_def c1b_def)
  moreover have "int (length (ce_Key x)) \<le> l0_maxPayload l0b"
    using assms(8) t(6) L0_Set_frame [OF s(1)] by simp
  ultimately obtain c2 where "Tiered_Get B t0 t1 w (ce_Key x) c1b = Some (c2, Inr (ce_Value x))"
    using moved_get [OF assms(2,3) _ t(5,8) open0(2) _ _ t(7) lv, where c = c1b and ?t0.0 = t0 and w = w] t(4) by auto
  then show ?thesis using t(1) by (auto simp: c1b_def)
qed

text \<open>The candidates of a cache with one entry, for the witnesses.\<close>

lemma one_candidate:
  assumes "cache_inv c" and "iter_ok iter" and "\<not> l0_closed c" and "l0_entry c = [k \<mapsto> e]"
  shows "L0_EvictCandidates iter 1 c = Inr [e]"
proof -
  let ?L = "concat (map (\<lambda>sh. map snd (iter sh)) (l0_shards c))" and ?i = "shard_index (l0_shardCount c) k"
  have xs: "L0_EvictCandidates iter 1 c = Inr (take 1 ?L)"
    using evict_candidates_prefix [OF assms(3), of iter 1] by simp
  have "(k, e) \<in> set (sh_entries (l0_shards c ! ?i))"
    using assms(4) by (auto simp: l0_entry_def fun_eq_iff dest: spec [of _ k] intro: map_of_SomeD)
  then have "(k, e) \<in> set (iter (l0_shards c ! ?i))"
    using assms(2) unfolding iter_ok_def by (metis set_mset_mset)
  moreover have "l0_shards c ! ?i \<in> set (l0_shards c)"
    using assms(1) shard_index_less [of "l0_shardCount c" k] by (simp add: cache_inv_def)
  ultimately have "e \<in> set ?L" by force
  then have "?L \<noteq> []" by force
  then obtain y ys where y: "?L = y # ys" by (cases ?L) auto
  have "l0_entry c (ce_Key y) = Some y"
    using evict_candidates_stored [OF assms(1,2) xs] y by simp
  then have "y = e" using assms(4) by (simp split: if_split_asm)
  then show ?thesis using xs y by simp
qed

lemma sh_entries_iter: "iter_ok sh_entries"
  by (simp add: iter_ok_def)

text \<open>The small cache after a first \<^verbatim>\<open>Set\<close>.\<close>

lemma small_first_set:
  assumes "ttl = 0 \<or> ttl = 1000000000"
  obtains l0 where "cache_inv l0" "\<not> l0_closed l0" "l0_maxPayload l0 = 16"
    "l0_entry l0 = [''b'' \<mapsto> NewCacheEntry (at_sec 0) ''b'' [5] ttl]"
proof -
  obtain l0 where l0: "L0_New (Some small_l0_config) = Inr l0" "l0_maxPayload l0 = 16" "\<not> l0_closed l0"
      "cache_inv l0" "l0_entry l0 = Map.empty" by (rule small_l0)
  obtain l0' where s: "L0_Set (at_sec 0) ''b'' [5] ttl l0 = Some (l0', None)"
    using L0_Set_ok [OF l0(4,3), of "''b''" "[5]" "at_sec 0" ttl] l0(2) by auto
  have d: "cache_inv l0'" "l0_entry l0' ''b'' = Some (NewCacheEntry (at_sec 0) ''b'' [5] ttl)"
      "l0_entry l0' \<subseteq>\<^sub>m [''b'' \<mapsto> NewCacheEntry (at_sec 0) ''b'' [5] ttl]"
    using l0_set_done [OF l0(4) s] l0(5) by simp_all
  have "l0_entry l0' = [''b'' \<mapsto> NewCacheEntry (at_sec 0) ''b'' [5] ttl]"
    using d(2,3) by (auto simp: map_le_def fun_eq_iff dom_def)
  then show thesis using that [of l0'] d(1) L0_Set_frame [OF s] l0(2,3) by simp
qed

lemma small_running2:
  "cache_inv l0 \<Longrightarrow> l1_inv l1 \<Longrightarrow> running (small_tiered l0 l1) l0 l1"
  by (simp add: running_def small_tiered_def)

lemma two_shards_set:
  "case L1_Set mem_badger (at_sec 1) ''b'' [7] 0 two_shards of
     Some (l1, e) \<Rightarrow> \<not> l1_closed l1 \<and> DiskUsage mem_badger l1 < l1_maxCapacity l1 | None \<Rightarrow> False"
  by code_simp

theorem tiering_undoes_concurrent_write_witness:
  "\<exists>l0 l0a l1a c1 d1 l0b l1b c2. L0_EvictCandidates sh_entries 1 l0 =
       Inr [NewCacheEntry (at_sec 0) ''b'' [5] 0] \<and>
     Tiered_Set mem_badger (\<lambda>i. []) demo_wenv (at_sec 1) (at_sec 1) ''b'' [7] 0
       (small_tiered l0 two_shards) empty_disk = Some (c1, d1, None) \<and>
     tc_l0 c1 = Some l0a \<and> tc_l1 c1 = Some l1a \<and>
     tier_entries mem_badger (\<lambda>n. at_sec 2) 0 [NewCacheEntry (at_sec 0) ''b'' [5] 0] (l0a, l1a) = Some (l0b, l1b) \<and>
     Tiered_Get mem_badger (at_sec 3) (at_sec 3) () ''b'' (c1\<lparr>tc_l0 := Some l0b, tc_l1 := Some l1b\<rparr>) =
       Some (c2, Inr [5])"
proof -
  obtain l0 where l0: "cache_inv l0" "\<not> l0_closed l0" "l0_maxPayload l0 = 16"
    "l0_entry l0 = [''b'' \<mapsto> NewCacheEntry (at_sec 0) ''b'' [5] 0]" using small_first_set [of 0] by blast
  let ?x = "NewCacheEntry (at_sec 0) ''b'' [5] 0"
  note run = small_running2 [OF l0(1) two_shards_inv(1)]
  have ev: "L0_EvictCandidates sh_entries 1 l0 = Inr [?x]"
    by (rule one_candidate [OF l0(1) sh_entries_iter l0(2,4)])
  obtain l0' where s0: "L0_Set (at_sec 1) ''b'' [7] 0 l0 = Some (l0', None)"
    using L0_Set_ok [OF l0(1,2), of "''b''" "[7]" "at_sec 1" 0] l0(3) by auto
  obtain l1' e1 where s1: "L1_Set mem_badger (at_sec 1) ''b'' [7] 0 two_shards = Some (l1', e1)"
    using L1_Set_wrote [OF mem_badger_ok two_shards_inv(1)] by blast
  have l1': "\<not> l1_closed l1'" "DiskUsage mem_badger l1' < l1_maxCapacity l1'"
    using s1 two_shards_set by simp_all
  from Tiered_Set_shape [OF run _ s0 s1] small_limit [of l0 two_shards]
  obtain c1 d1 where s: "Tiered_Set mem_badger (\<lambda>i. []) demo_wenv (at_sec 1) (at_sec 1) ''b'' [7] 0
      (small_tiered l0 two_shards) empty_disk = Some (c1, d1, None)" "tc_l0 c1 = Some l0'" "tc_l1 c1 = Some l1'"
    by fastforce
  have key: "ce_Key ?x = ''b''" "ce_Value ?x = [5]" "ce_TTL ?x = 0" by (simp_all add: NewCacheEntry_def)
  from tiering_undoes_concurrent_write [OF run mem_badger_ok mem_reads_ok mem_updates_ok sh_entries_iter
      ev, unfolded key, OF _ _ s(1,2,3) l1', of "\<lambda>n. at_sec 2" "at_sec 3" "at_sec 3" "()"] l0(3)
  show ?thesis using ev s by fastforce
qed

lemma performTiering_moves:
  "running c l0 l1 \<Longrightarrow> L0_EvictCandidates iter (gt_BatchSize (g2_Tiering (tc_L2cfg (tc_cfg c)))) l0 = Inr xs \<Longrightarrow>
   \<not> f64_less (L0_UsageRatio l0) (gt_L0ToL1Threshold (g2_Tiering (tc_L2cfg (tc_cfg c)))) \<Longrightarrow>
   tier_entries B clk 0 xs (l0, l1) = Some (l0', l1') \<Longrightarrow>
   performTiering B iter clk c = Some (c\<lparr>tc_l0 := Some l0', tc_l1 := Some l1'\<rparr>)"
  by (simp add: performTiering_def running_def)


lemma f64_round_word: "0 \<le> f64_round (unsigned w)" for w :: "'a::len word"
  using f64_round_nonneg [OF of_nat_0_le_iff, of "unat w"] by (simp only: of_nat_unat)

text \<open>A tiering configuration that moves whatever L0 holds, one entry a round.\<close>

definition eager_config :: Config where
  "eager_config = (let cfg = DefaultConfig 4; tc = cfg_TieredCache cfg; l2 = tcc_L2 tc in
     cfg\<lparr>cfg_TieredCache := tc\<lparr>tcc_L2 := l2\<lparr>g2_Tiering := (g2_Tiering l2)
       \<lparr>gt_L0ToL1Threshold := F64 0, gt_BatchSize := 1\<rparr>\<rparr>\<rparr>\<rparr>)"


subsection \<open>Initialising\<close>

lemma NewRecoveryManager_builds:
  assumes "ne_mkdir_wal env = None" and "ne_mkdir_checkpoint env = None" and "ne_open env = None"
    and "path \<noteq> []"
  shows "\<exists>d1 m. NewRecoveryManager env path cp mw ci d = (d1, Inr m)"
  using assms by (cases "cp = []") (simp_all add: NewRecoveryManager_def Let_def)

lemma L0_New_builds:
  "g0_MaxMemoryMB (tc_L0cfg cfg) \<noteq> 0 \<Longrightarrow> g0_MaxPayloadBytes (tc_L0cfg cfg) \<noteq> 0 \<Longrightarrow>
   \<exists>l0. L0_New (Some (l0_config_of cfg)) = Inr l0"
  by (simp add: L0_New_def l0_config_of_def Let_def)

lemma open_shards_all:
  assumes "\<forall>p. mk p = None" and "\<forall>i. \<exists>db. bd_Open B (shard_opts B cfg sm i) = Inr db"
  shows "\<exists>shards. open_shards B mk cfg sm is acc = Inr shards"
proof (induction "is" arbitrary: acc)
  case Nil
  then show ?case by simp
next
  case (Cons i "is")
  then show ?case using assms(1) assms(2) [rule_format, of i] by auto
qed

lemma L1_New_builds:
  assumes "\<forall>p. mk p = None" and "\<forall>o'. \<not> bo_InMemory o' \<longrightarrow> (\<exists>db. bd_Open B o' = Inr db)"
    and "\<forall>p. \<not> bo_InMemory (bd_DefaultOptions B p)"
    and "c1_SSDPath cfg \<noteq> []" and "\<not> f64_le (c1_MaxCapacityGB cfg) (F64 0)" and "c1_SyncMode cfg \<noteq> ''disabled''"
  shows "\<exists>c. L1_New B mk oor (Some cfg) = Inr c"
proof -
  have "\<not> bo_InMemory (shard_opts B cfg (if c1_SyncMode cfg \<noteq> [] then c1_SyncMode cfg else ''periodic'') i)" for i
    using assms(3,6) by (simp add: shard_opts_def Let_def)
  then have "\<exists>db. bd_Open B (shard_opts B cfg (if c1_SyncMode cfg \<noteq> [] then c1_SyncMode cfg else ''periodic'') i)
      = Inr db" for i using assms(2) by blast
  then obtain shards where "open_shards B mk cfg
      (if c1_SyncMode cfg \<noteq> [] then c1_SyncMode cfg else ''periodic'')
      [0..<unat (if c1_ShardCount cfg = 0 then DefaultL1ShardCount else c1_ShardCount cfg)] [] = Inr shards"
    using open_shards_all [OF assms(1)] by blast
  then show ?thesis using assms(1,4,5) by (simp add: L1_New_def Let_def)
qed

lemma config_builds:
  assumes "Validate show_v (Some cfg) = None" and "g1_SyncMode (tc_L1cfg cfg) \<noteq> ''disabled''"
    and "ne_mkdir_wal env = None" and "ne_mkdir_checkpoint env = None" and "ne_open env = None"
    and "\<forall>p. mk p = None" and "\<forall>o'. \<not> bo_InMemory o' \<longrightarrow> (\<exists>db. bd_Open B o' = Inr db)"
    and "\<forall>p. \<not> bo_InMemory (bd_DefaultOptions B p)"
  shows "\<exists>d1 c c1 l0 l1. Tiered_New show_v env (Some cfg) d = (d1, Inr c) \<and>
    init_tiers B mk oor senv sdir c = (c1, None) \<and>
    running (c1\<lparr>tc_initialized := True\<rparr>) l0 l1 \<and> l0_entry l0 = Map.empty \<and> \<not> l0_closed l0 \<and>
    L1_New B mk oor (Some (l1_config_of cfg)) = Inr l1"
proof -
  have wf: "L0_wf (tc_L0cfg cfg)" "L1_wf (tc_L1cfg cfg)" "Replay_wf (tc_Replay cfg)"
    using assms(1) by (simp_all add: Validate_shape config_wf_def split: if_split_asm)
  obtain d1 m where m: "NewRecoveryManager env (gr_WALPath (tc_Replay cfg)) (gr_CheckpointPath (tc_Replay cfg))
      (gr_MaxReplayWorkers (tc_Replay cfg)) (gr_CheckpointInterval (tc_Replay cfg)) d = (d1, Inr m)"
    using NewRecoveryManager_builds [OF assms(3-5)] wf(3) unfolding Replay_wf_def by blast
  define c :: "('a, 'b) tiered_cache" where "c = \<lparr>tc_l0 = None, tc_l1 = None, tc_l2 = None,
      tc_recovery = Some m, tc_cfg = cfg, tc_closed = False, tc_initializing = False,
      tc_initialized = False, tc_cancelled = False, tc_promotions = []\<rparr>"
  have new: "Tiered_New show_v env (Some cfg) d = (d1, Inr c)"
    using assms(1) m by (simp add: Tiered_New_def c_def)
  obtain l0 where l0: "L0_New (Some (l0_config_of cfg)) = Inr l0"
    using L0_New_builds wf(1) unfolding L0_wf_def atLeastAtMost_iff word_ge_1_iff by blast
  have "\<not> f64_le (g1_MaxCapacityGB (tc_L1cfg cfg)) (F64 0)" "g1_SSDPath (tc_L1cfg cfg) \<noteq> []"
    using wf(2) by (auto simp: L1_wf_def f64_within_def split: f64.splits)
  then obtain l1 where l1: "L1_New B mk oor (Some (l1_config_of cfg)) = Inr l1"
    using L1_New_builds [OF assms(6-8), of "l1_config_of cfg"] assms(2) by (auto simp: l1_config_of_def)
  define c1 where "c1 = fst (init_tiers B mk oor senv sdir c)"
  have init: "init_tiers B mk oor senv sdir c = (c1, None)" "tc_l0 c1 = Some l0" "tc_l1 c1 = Some l1"
      "\<not> tc_closed c1"
    using l0 l1 by (simp_all add: c1_def init_tiers_def c_def)
  then have "running (c1\<lparr>tc_initialized := True\<rparr>) l0 l1"
    using L0_New_Inr(1) [OF l0] L1_New_inv [OF l1] by (simp add: running_def)
  then show ?thesis using new init(1) L0_New_Inr(2,3) [OF l0] l1 by auto
qed



end
