(* ===== verification/Tiered_History.thy ===== *)
theory Tiered_History
  imports Tiered_Props
begin

text \<open>
  The tiered cache refines the contract of its tiers when nothing goes wrong: with room in L1,
  with updates and reads of Badger that do not fail, and with every promotion finishing before
  the next call, the two tiers together are a \<open>cache_tier\<close> over what L1 stores, so each history
  of client calls is coherent. Every one of these conditions is needed: \<open>Tiered_Props\<close> has the
  histories that read deleted or overwritten values without it.
\<close>

subsection \<open>Client calls that let a promotion finish\<close>

type_synonym ('db, 'w) tc_state = "('db, 'w) tiered_cache \<times> wal_disk"

definition quiet_get ::
    "'db badger \<Rightarrow> 'w \<Rightarrow> go_time \<Rightarrow> string \<Rightarrow> ('db, 'w) tc_state \<Rightarrow>
     (('db, 'w) tc_state \<times> (go_error + bytes)) option" where
  "quiet_get B w now k s =
     (case s of (c, d) \<Rightarrow> do {
        (c1, r) \<leftarrow> Tiered_Get B now now w k c;
        c2 \<leftarrow> run_promotion 0 now c1;
        Some ((c2, d), r)
      })"

definition quiet_set ::
    "'db badger \<Rightarrow> (int \<Rightarrow> string) \<Rightarrow> write_env \<Rightarrow> go_time \<Rightarrow> string \<Rightarrow> bytes \<Rightarrow> int \<Rightarrow> ('db, 'w) tc_state \<Rightarrow>
     (('db, 'w) tc_state \<times> go_error option) option" where
  "quiet_set B wt wenv now k v ttl s =
     (case s of (c, d) \<Rightarrow>
        map_option (\<lambda>(c1, d1, e). ((c1, d1), e)) (Tiered_Set B wt wenv now now k v ttl c d))"

definition quiet_del ::
    "'db badger \<Rightarrow> (int \<Rightarrow> string) \<Rightarrow> write_env \<Rightarrow> string \<Rightarrow> ('db, 'w) tc_state \<Rightarrow>
     (('db, 'w) tc_state \<times> go_error option) option" where
  "quiet_del B wt wenv k s =
     (case s of (c, d) \<Rightarrow> map_option (\<lambda>(c1, d1, e). ((c1, d1), e)) (Tiered_Delete B wt wenv k c d))"

subsection \<open>What the tiers hold together\<close>

text \<open>\<open>cap\<close> is L1's capacity; \<open>roomy\<close> says that no database reaches it.\<close>

definition roomy :: "'db badger \<Rightarrow> u64 \<Rightarrow> bool" where
  "roomy B cap \<longleftrightarrow> (\<forall>l1. DiskUsage B l1 < cap)"

definition settled :: "('db \<Rightarrow> contents) \<Rightarrow> u64 \<Rightarrow> ('db, 'w) tiered_cache \<Rightarrow> l0_cache \<Rightarrow> 'db l1_cache \<Rightarrow> bool" where
  "settled cont cap c l0 l1 \<longleftrightarrow>
     running c l0 l1 \<and> \<not> l0_closed l0 \<and> \<not> l1_closed l1 \<and> l1_maxCapacity l1 = cap \<and>
     tc_promotions c = [] \<and> (\<forall>l2. tc_l2 c = Some l2 \<longrightarrow> GetSink ''default'' l2 = None) \<and>
     l0_maxPayload l0 = uint (g0_MaxPayloadBytes (tc_L0cfg (tc_cfg c))) \<and>
     l0_stored l0 \<subseteq>\<^sub>m l1_stored cont l1"

definition tc_inv :: "('db \<Rightarrow> contents) \<Rightarrow> u64 \<Rightarrow> ('db, 'w) tc_state \<Rightarrow> bool" where
  "tc_inv cont cap s \<longleftrightarrow> (\<exists>l0 l1. settled cont cap (fst s) l0 l1)"

definition tc_stored :: "('db \<Rightarrow> contents) \<Rightarrow> ('db, 'w) tc_state \<Rightarrow> string \<rightharpoonup> bytes" where
  "tc_stored cont s = (case tc_l1 (fst s) of None \<Rightarrow> Map.empty | Some l1 \<Rightarrow> l1_stored cont l1)"

lemma settled_inv: "settled cont cap c l0 l1 \<Longrightarrow> tc_inv cont cap (c, d)"
  by (auto simp: tc_inv_def)

lemma settled_stored: "settled cont cap c l0 l1 \<Longrightarrow> tc_stored cont (c, d) = l1_stored cont l1"
  by (simp add: tc_stored_def settled_def running_def)

lemma settled_tiers: "settled cont cap c l0 l1 \<Longrightarrow> cache_inv l0 \<and> l1_inv l1 \<and> running c l0 l1"
  by (simp add: settled_def running_def)

lemma settled_update:
  assumes "settled cont cap c l0 l1" and "cache_inv l0'" and "l1_inv l1'"
    and "l0_closed l0' = l0_closed l0 \<and> l0_maxPayload l0' = l0_maxPayload l0"
    and "l1_closed l1' = l1_closed l1 \<and> l1_maxCapacity l1' = l1_maxCapacity l1"
    and "l0_stored l0' \<subseteq>\<^sub>m l1_stored cont l1'"
    and "tc_l0 c' = Some l0'" and "tc_l1 c' = Some l1'" and "tc_promotions c' = []"
    and "tc_initialized c' = tc_initialized c" and "tc_closed c' = tc_closed c"
    and "tc_l2 c' = tc_l2 c" and "tc_cfg c' = tc_cfg c"
  shows "settled cont cap c' l0' l1'"
  using assms by (simp add: settled_def running_def)

lemma L0_Get_frame [frame_simps]:
  "L0_Get now k c = Some (c', r) \<Longrightarrow> l0_closed c' = l0_closed c \<and> l0_maxPayload c' = l0_maxPayload c"
  by (auto simp: L0_Get_def Let_def put_shard_def count_miss_def count_hit_def bind_eq_Some_conv
      split: if_split_asm option.splits)

lemma L0_Delete_frame [frame_simps]:
  "L0_Delete k c = Some (c', e) \<Longrightarrow> l0_closed c' = l0_closed c \<and> l0_maxPayload c' = l0_maxPayload c"
  by (auto simp: L0_Delete_def bind_eq_Some_conv Let_def split: if_split_asm option.splits)

lemma L1_Set_frame [frame_simps]:
  "L1_Set B now k v ttl c = Some (c', e) \<Longrightarrow>
   l1_closed c' = l1_closed c \<and> l1_maxCapacity c' = l1_maxCapacity c"
  by (auto simp: L1_Set_def bind_eq_Some_conv Let_def case_prod_unfold count_l1_def set_db_def
      split: if_split_asm)

lemma L1_Delete_frame [frame_simps]:
  "L1_Delete B k c = Some (c', e) \<Longrightarrow>
   l1_closed c' = l1_closed c \<and> l1_maxCapacity c' = l1_maxCapacity c"
  by (auto simp: L1_Delete_def bind_eq_Some_conv Let_def case_prod_unfold count_l1_def set_db_def
      split: if_split_asm)

subsection \<open>The laws\<close>

lemma quiet_get_settled:
  assumes "badger_ok B cont" and "settled cont cap c l0 l1"
  shows "\<exists>c' l0' l1' r. quiet_get B w now k (c, d) = Some ((c', d), r) \<and> settled cont cap c' l0' l1' \<and>
    l1_stored cont l1' = l1_stored cont l1 \<and> (\<forall>v. r = Inr v \<longrightarrow> l1_stored cont l1 k = Some v)"
proof -
  have inv: "cache_inv l0" "l1_inv l1" and run: "running c l0 l1"
    and promo: "tc_promotions c = []" and sub: "l0_stored l0 \<subseteq>\<^sub>m l1_stored cont l1"
    and cold: "tc_l2 c = Some l2 \<Longrightarrow> GetSink ''default'' l2 = None" for l2
    using assms(2) by (auto simp: settled_def running_def)
  obtain l0a r0 where g0: "L0_Get now k l0 = Some (l0a, r0)" using l0_get_total [OF inv(1)] by blast
  have l0a: "cache_inv l0a" "l0_stored l0a \<subseteq>\<^sub>m l0_stored l0" using l0_get_inv [OF inv(1) g0] by simp_all
  note fr0 = L0_Get_frame [OF g0]
  have sub': "l0_stored l0a \<subseteq>\<^sub>m l1_stored cont l1" using l0a(2) sub by (rule map_le_trans)
  show ?thesis
  proof (cases r0)
    case (Inr v)
    have t: "Tiered_Get B now now w k c = Some (c\<lparr>tc_l0 := Some l0a\<rparr>, Inr v)"
      using Tiered_Get_hit [OF run] g0 Inr by simp
    have "l0_stored l0 k = Some v" using l0_get_value [OF inv(1)] g0 Inr by fastforce
    then have "l1_stored cont l1 k = Some v" using sub by (force simp: map_le_def dom_def)
    moreover have "settled cont cap (c\<lparr>tc_l0 := Some l0a\<rparr>) l0a l1"
      by (rule settled_update [OF assms(2) l0a(1) inv(2) fr0 _ sub'])
        (use run promo in \<open>simp_all add: running_def\<close>)
    ultimately show ?thesis using t promo by (force simp: quiet_get_def run_promotion_def)
  next
    case (Inl e)
    obtain st r1 where g1: "L1_Get B now k l1 = Some (l1\<lparr>l1_stats := st\<rparr>, r1)"
      using L1_Get_shape [OF inv(2)] by blast
    let ?l1 = "l1\<lparr>l1_stats := st\<rparr>"
    have st1: "l1_inv ?l1" "l1_stored cont ?l1 = l1_stored cont l1"
      using L1_Get_stored [OF inv(2) g1, of cont] by (simp_all add: l1_stored_def [abs_def])
    show ?thesis
    proof (cases r1)
      case (Inr v)
      have val: "l1_stored cont l1 k = Some v"
        using l1_get_value [OF assms(1) inv(2)] g1 Inr by (fastforce simp: l1_stored_def)
      let ?c1 = "c\<lparr>tc_l0 := Some l0a, tc_l1 := Some ?l1, tc_promotions := [(k, v)]\<rparr>"
      have t: "Tiered_Get B now now w k c = Some (?c1, Inr v)"
        using Tiered_Get_l1 [OF run] g0 g1 Inl Inr promo by simp
      obtain l0b e' where s: "L0_Set now k v 0 l0a = Some (l0b, e')" using l0_set_total [OF l0a(1)] by blast
      let ?c2 = "c\<lparr>tc_l0 := Some l0b, tc_l1 := Some ?l1, tc_promotions := []\<rparr>"
      have p: "run_promotion 0 now ?c1 = Some ?c2" using s by (simp add: run_promotion_def)
      have "cache_inv l0b \<and> l0_stored l0b \<subseteq>\<^sub>m l1_stored cont l1"
      proof (cases e')
        case None
        with s l0.set_done [OF l0a(1)] have "cache_inv l0b" "l0_stored l0b \<subseteq>\<^sub>m (l0_stored l0a)(k \<mapsto> v)"
          by blast+
        moreover have "(l0_stored l0a)(k \<mapsto> v) \<subseteq>\<^sub>m l1_stored cont l1"
          using sub' val by (auto simp: map_le_def)
        ultimately show ?thesis using map_le_trans by blast
      next
        case (Some err)
        then have "l0b = l0a" using s l0_set_failed [OF l0a(1)] by blast
        then show ?thesis using l0a(1) sub' by simp
      qed
      then have "settled cont cap ?c2 l0b ?l1"
        by (intro settled_update [OF assms(2) _ st1(1)])
          (use L0_Set_frame [OF s] fr0 st1(2) in simp_all)
      then show ?thesis using t p val st1(2) by (force simp: quiet_get_def)
    next
      case inl: (Inl e1)
      let ?c1 = "c\<lparr>tc_l0 := Some l0a, tc_l1 := Some ?l1\<rparr>"
      have "try_l2 k w ?c1 = None" using cold by (simp add: try_l2_def split: option.split)
      then have t: "Tiered_Get B now now w k c = Some (?c1, Inl (ErrCode ErrCodeNotFound))"
        using g0 g1 Inl inl run
        by (simp add: Tiered_Get_def running_guard [OF run] try_l0_def try_l1_def running_def)
      have "settled cont cap ?c1 l0a ?l1"
        by (rule settled_update [OF assms(2) l0a(1) st1(1) fr0]) (use promo sub' st1(2) in simp_all)
      then show ?thesis using t promo st1(2) by (force simp: quiet_get_def run_promotion_def)
    qed
  qed
qed

lemma L1_Set_room:
  assumes "badger_ok B cont" and "updates_ok B" and "roomy B cap" and "l1_inv l1" and "\<not> l1_closed l1"
    and "l1_maxCapacity l1 = cap" and "k \<noteq> []" and "v \<noteq> []"
  shows "\<exists>l1'. L1_Set B now k v ttl l1 = Some (l1', None) \<and> l1_inv l1' \<and>
    l1_stored cont l1' = (l1_stored cont l1)(k \<mapsto> v)"
proof -
  obtain l1' e where a: "L1_Set B now k v ttl l1 = Some (l1', e)"
      "wrote cont (SetEntry k v (expires_at now ttl)) l1 l1' e"
    using L1_Set_wrote [OF assms(1,4)] by blast
  have u: "snd (bd_Update B w db) = None" for w db using assms(2) by (simp add: updates_ok_def)
  have room: "(l1_maxCapacity l1 \<le> DiskUsage B l1) = False" using assms(3,6) by (simp add: roomy_def not_le)
  have "e = None"
    using a(1) assms(5,7,8) u room
    by (auto simp: L1_Set_def l1_getShard_inv [OF assms(4)] Let_def case_prod_unfold)
  then show ?thesis using a wrote_stored(1,4) by blast
qed

lemma quiet_set_settled:
  assumes "badger_ok B cont" and "updates_ok B" and "roomy B cap" and "settled cont cap c l0 l1"
  shows "\<exists>c' d' l0' l1' e. quiet_set B wt wenv now k v ttl (c, d) = Some ((c', d'), e) \<and>
    settled cont cap c' l0' l1' \<and>
    l1_stored cont l1' = (if e = None then (l1_stored cont l1)(k \<mapsto> v) else l1_stored cont l1) \<and>
    (e = None \<longleftrightarrow> k \<noteq> [] \<and> v \<noteq> [] \<and> int (length v) \<le> uint (g0_MaxPayloadBytes (tc_L0cfg (tc_cfg c))))"
proof (cases "int (length v) \<le> uint (g0_MaxPayloadBytes (tc_L0cfg (tc_cfg c)))")
  case False
  then have "\<exists>e. Tiered_Set B wt wenv now now k v ttl c d = Some (c, d, Some e)"
    using assms(4) by (auto simp: Tiered_Set_def Let_def not_le settled_def running_guard)
  then show ?thesis using assms(4) False by (fastforce simp: quiet_set_def)
next
  case True
  have inv: "cache_inv l0" "l1_inv l1" and run: "running c l0 l1" and op: "\<not> l0_closed l0" "\<not> l1_closed l1"
    and cap: "l1_maxCapacity l1 = cap" and promo: "tc_promotions c = []"
    and lim: "l0_maxPayload l0 = uint (g0_MaxPayloadBytes (tc_L0cfg (tc_cfg c)))"
    and sub: "l0_stored l0 \<subseteq>\<^sub>m l1_stored cont l1"
    using assms(4) by (auto simp: settled_def running_def)
  obtain l0' e0 where s0: "L0_Set now k v ttl l0 = Some (l0', e0)" using l0_set_total [OF inv(1)] by blast
  have "\<exists>l1' e1. L1_Set B now k v ttl l1 = Some (l1', e1) \<and> l1_inv l1' \<and> cache_inv l0' \<and>
      l0_stored l0' \<subseteq>\<^sub>m l1_stored cont l1' \<and>
      l1_stored cont l1' = (if e0 = None then (l1_stored cont l1)(k \<mapsto> v) else l1_stored cont l1) \<and>
      (e0 = None \<longleftrightarrow> k \<noteq> [] \<and> v \<noteq> [])"
  proof (cases e0)
    case None
    with s0 have s: "L0_Set now k v ttl l0 = Some (l0', None)" by simp
    have kv: "k \<noteq> []" "v \<noteq> []" using L0_Set_guards [OF inv(1) s] by simp_all
    from L1_Set_room [OF assms(1-3) inv(2) op(2) cap this] obtain l1' where
      l1': "L1_Set B now k v ttl l1 = Some (l1', None)" "l1_inv l1'"
        "l1_stored cont l1' = (l1_stored cont l1)(k \<mapsto> v)" by blast
    have "cache_inv l0'" "l0_stored l0' \<subseteq>\<^sub>m (l0_stored l0)(k \<mapsto> v)" using l0.set_done [OF inv(1) s] by simp_all
    moreover have "(l0_stored l0)(k \<mapsto> v) \<subseteq>\<^sub>m (l1_stored cont l1)(k \<mapsto> v)"
      using sub by (auto simp: map_le_def)
    ultimately show ?thesis using l1' None kv map_le_trans by fastforce
  next
    case (Some err)
    then have l0': "l0' = l0" using s0 l0_set_failed [OF inv(1)] by blast
    have kv: "k = [] \<or> v = []"
      using s0 Some op(1) True lim by (cases rule: L0_Set_cases [OF inv(1), of now k v ttl]) auto
    then have "\<exists>e1. L1_Set B now k v ttl l1 = Some (l1, e1)" using op(2) by (auto simp: L1_Set_def)
    then show ?thesis using inv sub l0' Some kv by auto
  qed
  then obtain l1' e1 where s1: "L1_Set B now k v ttl l1 = Some (l1', e1)" "l1_inv l1'" "cache_inv l0'"
      "l0_stored l0' \<subseteq>\<^sub>m l1_stored cont l1'"
      "l1_stored cont l1' = (if e0 = None then (l1_stored cont l1)(k \<mapsto> v) else l1_stored cont l1)"
      "e0 = None \<longleftrightarrow> k \<noteq> [] \<and> v \<noteq> []"
    by blast
  obtain m d' where t: "Tiered_Set B wt wenv now now k v ttl c d =
      Some (c\<lparr>tc_l0 := Some l0', tc_l1 := Some l1', tc_recovery := m\<rparr>, d', e0)"
    using Tiered_Set_shape [OF run True s0 s1(1), of wt wenv d] by blast
  have "settled cont cap (c\<lparr>tc_l0 := Some l0', tc_l1 := Some l1', tc_recovery := m\<rparr>) l0' l1'"
    by (rule settled_update [OF assms(4) s1(3,2) L0_Set_frame [OF s0] L1_Set_frame [OF s1(1)] s1(4)])
      (simp_all add: promo)
  then show ?thesis using t s1(5,6) True by (force simp: quiet_set_def)
qed

lemma quiet_del_settled:
  assumes "badger_ok B cont" and "updates_ok B" and "settled cont cap c l0 l1"
  shows "\<exists>c' d' l0' l1' e. quiet_del B wt wenv k (c, d) = Some ((c', d'), e) \<and>
    settled cont cap c' l0' l1' \<and> l1_stored cont l1' \<subseteq>\<^sub>m l1_stored cont l1 \<and>
    (e = None \<longrightarrow> l1_stored cont l1' = (l1_stored cont l1)(k := None)) \<and>
    l1_stored cont l1' = (if k = [] then l1_stored cont l1 else (l1_stored cont l1)(k := None))"
proof -
  have inv: "cache_inv l0" "l1_inv l1" and run: "running c l0 l1" and op: "\<not> l0_closed l0" "\<not> l1_closed l1"
    and promo: "tc_promotions c = []" and sub: "l0_stored l0 \<subseteq>\<^sub>m l1_stored cont l1"
    using assms(3) by (auto simp: settled_def running_def)
  obtain l0' e0 where d0: "L0_Delete k l0 = Some (l0', e0)" using l0_delete_total [OF inv(1)] by blast
  have "\<exists>l1' e1. L1_Delete B k l1 = Some (l1', e1) \<and> l1_inv l1' \<and> cache_inv l0' \<and>
      l0_stored l0' \<subseteq>\<^sub>m l1_stored cont l1' \<and> l1_stored cont l1' \<subseteq>\<^sub>m l1_stored cont l1 \<and>
      (e1 = None \<longrightarrow> l1_stored cont l1' = (l1_stored cont l1)(k := None)) \<and>
      l1_stored cont l1' = (if k = [] then l1_stored cont l1 else (l1_stored cont l1)(k := None))"
  proof (cases "k = []")
    case True
    then have "L1_Delete B k l1 = Some (l1, Some (Errorf ''key cannot be empty'' None))" "l0' = l0"
      using op d0 by (auto simp: L1_Delete_def L0_Delete_def)
    then show ?thesis using inv sub True by auto
  next
    case False
    obtain l1' where l1': "L1_Delete B k l1 = Some (l1', None)" "l1_inv l1'"
        "l1_entry cont l1' = (l1_entry cont l1)(k := None)"
      using L1_Delete_ok [OF assms(1,2) inv(2) op(2) False] by blast
    have st: "l1_stored cont l1' = (l1_stored cont l1)(k := None)"
      using l1'(3) by (simp add: l1_stored_def fun_eq_iff)
    have "cache_inv l0' \<and> l0_stored l0' \<subseteq>\<^sub>m (l1_stored cont l1)(k := None)"
    proof (cases e0)
      case None
      with d0 l0_delete_done [OF inv(1)] have "cache_inv l0'" "l0_entry l0' = (l0_entry l0)(k := None)" by blast+
      then show ?thesis using sub l0_stored_del [of l0' l0 k] by (auto simp: map_le_def)
    next
      case (Some err)
      then have l0': "l0' = l0" using d0 l0_delete_failed [OF inv(1)] by blast
      have "l0_entry l0 k = None"
        using d0 Some op(1) False by (cases rule: L0_Delete_cases [OF inv(1), of k]) auto
      then have "l0_stored l0 k = None" by (simp add: l0_stored_def)
      then show ?thesis using sub inv(1) l0' by (auto simp: map_le_def dom_def)
    qed
    then show ?thesis using l1' st False by (auto simp: map_le_def)
  qed
  then obtain l1' e1 where d1: "L1_Delete B k l1 = Some (l1', e1)" "l1_inv l1'" "cache_inv l0'"
      "l0_stored l0' \<subseteq>\<^sub>m l1_stored cont l1'" "l1_stored cont l1' \<subseteq>\<^sub>m l1_stored cont l1"
      "e1 = None \<longrightarrow> l1_stored cont l1' = (l1_stored cont l1)(k := None)"
      "l1_stored cont l1' = (if k = [] then l1_stored cont l1 else (l1_stored cont l1)(k := None))"
    by blast
  obtain m d' where t: "Tiered_Delete B wt wenv k c d =
      Some (c\<lparr>tc_l0 := Some l0', tc_l1 := Some l1', tc_recovery := m\<rparr>, d', if e1 \<noteq> None then e1 else e0)"
    using Tiered_Delete_shape [OF run d0 d1(1), of wt wenv d] by blast
  have "settled cont cap (c\<lparr>tc_l0 := Some l0', tc_l1 := Some l1', tc_recovery := m\<rparr>) l0' l1'"
    by (rule settled_update [OF assms(3) d1(3,2) L0_Delete_frame [OF d0] L1_Delete_frame [OF d1(1)] d1(4)])
      (simp_all add: promo)
  moreover have "(if e1 \<noteq> None then e1 else e0) = None \<longrightarrow> l1_stored cont l1' = (l1_stored cont l1)(k := None)"
    using d1(6) by auto
  ultimately show ?thesis using t d1(5,7) unfolding quiet_del_def by force
qed

lemma tc_cache_tier:
  fixes B :: "'db badger" and w :: 'w
  assumes "badger_ok B cont" and "updates_ok B" and "roomy B cap"
  shows "cache_tier (tc_inv cont cap) (tc_stored cont) (quiet_get B w) (quiet_set B wt wenv) (quiet_del B wt wenv)"
proof
  fix s s' :: "('db, 'w) tc_state" and now k v ttl e r
  assume "tc_inv cont cap s"
  then obtain c d l0 l1 where s: "s = (c, d)" and st: "settled cont cap c l0 l1"
    by (cases s) (auto simp: tc_inv_def)
  note here = settled_stored [OF st, of d]
  obtain c1 l0a l1a r1 where g: "quiet_get B w now k s = Some ((c1, d), r1)" "settled cont cap c1 l0a l1a"
      "l1_stored cont l1a = l1_stored cont l1" "\<forall>v. r1 = Inr v \<longrightarrow> l1_stored cont l1 k = Some v"
    unfolding s using quiet_get_settled [OF assms(1) st] by blast
  show "\<exists>s' r. quiet_get B w now k s = Some (s', r)" using g(1) by blast
  show "tc_inv cont cap s' \<and> tc_stored cont s' \<subseteq>\<^sub>m tc_stored cont s" if "quiet_get B w now k s = Some (s', r)"
    using that g(1,3) settled_inv [OF g(2)] settled_stored [OF g(2)] here s by simp
  show "tc_stored cont s k = Some v" if "quiet_get B w now k s = Some (s', Inr v)"
    using that g(1,4) here s by simp
  obtain c2 d2 l0b l1b e2 where t: "quiet_set B wt wenv now k v ttl s = Some ((c2, d2), e2)"
      "settled cont cap c2 l0b l1b"
      "l1_stored cont l1b = (if e2 = None then (l1_stored cont l1)(k \<mapsto> v) else l1_stored cont l1)"
    unfolding s using quiet_set_settled [OF assms st, where wt = wt and wenv = wenv and now = now and k = k and v = v and ttl = ttl and d = d]
    by (elim exE conjE) (rule that [unfolded s]; assumption)
  show "\<exists>s' e. quiet_set B wt wenv now k v ttl s = Some (s', e)" using t(1) by blast
  show "tc_inv cont cap s' \<and> tc_stored cont s' k = Some v \<and> tc_stored cont s' \<subseteq>\<^sub>m (tc_stored cont s)(k \<mapsto> v)"
    if "quiet_set B wt wenv now k v ttl s = Some (s', None)"
    using that t(1,3) settled_inv [OF t(2)] settled_stored [OF t(2)] here s by simp
  show "tc_inv cont cap s' \<and> tc_stored cont s' \<subseteq>\<^sub>m tc_stored cont s"
    if "quiet_set B wt wenv now k v ttl s = Some (s', Some e)"
    using that t(1,3) settled_inv [OF t(2)] settled_stored [OF t(2)] here s by auto
  obtain c3 d3 l0c l1c e3 where q: "quiet_del B wt wenv k s = Some ((c3, d3), e3)"
      "settled cont cap c3 l0c l1c" "l1_stored cont l1c \<subseteq>\<^sub>m l1_stored cont l1"
      "e3 = None \<longrightarrow> l1_stored cont l1c = (l1_stored cont l1)(k := None)"
    unfolding s using quiet_del_settled [OF assms(1,2) st, where wt = wt and wenv = wenv and k = k and d = d]
    by (elim exE conjE) (rule that [unfolded s]; assumption)
  show "\<exists>s' e. quiet_del B wt wenv k s = Some (s', e)" using q(1) by blast
  show "tc_inv cont cap s' \<and> tc_stored cont s' \<subseteq>\<^sub>m (tc_stored cont s)(k := None)"
    if "quiet_del B wt wenv k s = Some (s', None)"
    using that q(1,4) settled_inv [OF q(2)] settled_stored [OF q(2)] here s by simp
  show "tc_inv cont cap s' \<and> tc_stored cont s' \<subseteq>\<^sub>m tc_stored cont s"
    if "quiet_del B wt wenv k s = Some (s', Some e)"
    using that q(1,3) settled_inv [OF q(2)] settled_stored [OF q(2)] here s by simp
qed

subsection \<open>Histories of an initialised cache\<close>

lemma init_settled:
  assumes "Tiered_New show_v env (Some cfg) d0 = (d, Inr c0)"
    and "init_tiers B mk oor senv sdir c0 = (c, None)" and "tc_l1 c = Some l1"
  shows "\<exists>l0. settled cont (l1_maxCapacity l1) (c\<lparr>tc_initialized := True\<rparr>) l0 l1"
proof -
  have c0: "tc_cfg c0 = cfg" "tc_l2 c0 = None" "tc_closed c0 = False" "tc_promotions c0 = []"
    using assms(1) by (auto simp: Tiered_New_def split: option.splits prod.splits sum.splits)
  obtain l0 where l0: "L0_New (Some (l0_config_of cfg)) = Inr l0"
    using assms(2) c0(1) by (cases "L0_New (Some (l0_config_of cfg))") (auto simp: init_tiers_def)
  obtain l1' where l1': "L1_New B mk oor (Some (l1_config_of cfg)) = Inr l1'"
    using assms(2) c0(1) l0
    by (cases "L1_New B mk oor (Some (l1_config_of cfg))") (auto simp: init_tiers_def)
  have c: "tc_l0 c = Some l0" "tc_l1 c = Some l1'" "tc_cfg c = cfg" "tc_closed c = False"
      "tc_promotions c = []" "tc_l2 c = None \<or> tc_l2 c = Some NewSinkManager"
    using assms(2) c0 l0 l1' by (auto simp: init_tiers_def split: if_split_asm)
  have "l1' = l1" using c(2) assms(3) by simp
  moreover have "l1_inv l1'" by (rule L1_New_inv [OF l1'])
  moreover have "\<not> l1_closed l1'"
    using l1' by (cases rule: L1_New_cases [of B mk oor "l1_config_of cfg"]) auto
  moreover have "l0_maxPayload l0 = uint (g0_MaxPayloadBytes (tc_L0cfg cfg))"
    using L0_New_shape [OF l0] by (auto simp: l0_config_of_def)
  ultimately show ?thesis
    using c L0_New_Inr [OF l0]
    by (auto simp: settled_def running_def NewSinkManager_def GetSink_def l0_stored_def [abs_def] map_le_def)
qed


text \<open>A Badger in memory whose size estimate stays zero, as it does until Badger's next update of it.\<close>

definition light_badger :: "mem_db badger" where
  "light_badger = mem_badger\<lparr>bd_Size := \<lambda>db. 0\<rparr>"

lemma light_badger_ok: "badger_ok light_badger map_of" "updates_ok light_badger"
  by (auto simp: badger_ok_def updates_ok_def light_badger_def mem_badger_def
      split: option.splits badger_write.splits)


end
