(* ===== verification/Tiered_Machine.thy ===== *)
theory Tiered_Machine
  imports Tiered_Props Crash_Recovery
begin

text \<open>
  The tiered cache as one machine: the calls of its clients, the promotions, the ticks of the
  tiering worker, the filling of L0 from a snapshot and the closing are events that may come in
  any order. From an initialised cache no sequence of events panics, and both tiers keep their
  invariants; a cache is initialised with these invariants whatever its recovery met in the log.
\<close>

subsection \<open>Events\<close>

datatype tiered_event =
    EvGet go_time go_time string
  | EvSet write_env go_time go_time string bytes int
  | EvDelete write_env string
  | EvSetToL1 go_time string bytes int
  | EvGetFromL1 go_time string
  | EvPromote nat go_time
  | EvTiering iter_order "nat \<Rightarrow> go_time"
  | EvRestore "string \<Rightarrow> int option" "string \<Rightarrow> go_error + string list"
      "bytes \<Rightarrow> snapshot_header \<Rightarrow> snapshot_header \<times> go_error option"
      "bytes \<Rightarrow> go_error + cache_entry" "nat \<Rightarrow> go_time" "string \<Rightarrow> go_error + bytes"
  | EvClose close_env

type_synonym ('db, 'w) machine = "('db, 'w) tiered_cache \<times> wal_disk \<times> 'w"

fun tiered_exec ::
    "'db badger \<Rightarrow> (int \<Rightarrow> string) \<Rightarrow> tiered_event \<Rightarrow> ('db, 'w) machine \<Rightarrow> ('db, 'w) machine option" where
  "tiered_exec B wt (EvGet n0 n1 k) (c, d, w) =
     map_option (\<lambda>(c', r). (c', d, w)) (Tiered_Get B n0 n1 w k c)"
| "tiered_exec B wt (EvSet wenv n0 n1 k v ttl) (c, d, w) =
     map_option (\<lambda>(c', d', e). (c', d', w)) (Tiered_Set B wt wenv n0 n1 k v ttl c d)"
| "tiered_exec B wt (EvDelete wenv k) (c, d, w) =
     map_option (\<lambda>(c', d', e). (c', d', w)) (Tiered_Delete B wt wenv k c d)"
| "tiered_exec B wt (EvSetToL1 now k v ttl) (c, d, w) =
     map_option (\<lambda>(c', e). (c', d, w)) (SetToL1 B now k v ttl c)"
| "tiered_exec B wt (EvGetFromL1 now k) (c, d, w) =
     map_option (\<lambda>(c', r). (c', d, w)) (GetFromL1 B now k c)"
| "tiered_exec B wt (EvPromote i now) (c, d, w) =
     map_option (\<lambda>c'. (c', d, w)) (run_promotion i now c)"
| "tiered_exec B wt (EvTiering iter clk) (c, d, w) =
     (case tiering_tick B iter clk c of
        None \<Rightarrow> Some (c, d, w)
      | Some r \<Rightarrow> map_option (\<lambda>c'. (c', d, w)) r)"
| "tiered_exec B wt (EvRestore stat globbed unmh unm clk opened) (c, d, w) =
     map_option (\<lambda>(c', e). (c', d, w)) (rebuildFromSnapshot stat globbed unmh unm clk opened c)"
| "tiered_exec B wt (EvClose env) (c, d, w) =
     (case Tiered_Close B env w c of (c', w', e) \<Rightarrow> Some (c', d, w'))"

text \<open>The order in which a shard's map is iterated is any order of its entries.\<close>

fun event_ok :: "tiered_event \<Rightarrow> bool" where
  "event_ok (EvTiering iter clk) \<longleftrightarrow> iter_ok iter"
| "event_ok _ \<longleftrightarrow> True"

definition ready :: "('db, 'w) tiered_cache \<Rightarrow> bool" where
  "ready c \<longleftrightarrow> tc_initialized c \<and>
     (\<exists>l0 l1. tc_l0 c = Some l0 \<and> tc_l1 c = Some l1 \<and> cache_inv l0 \<and> l1_inv l1)"

lemma ready_update [inv_intros]:
  "ready c \<Longrightarrow> cache_inv l0 \<Longrightarrow> ready (c\<lparr>tc_l0 := Some l0\<rparr>)"
  "ready c \<Longrightarrow> l1_inv l1 \<Longrightarrow> ready (c\<lparr>tc_l1 := Some l1\<rparr>)"
  "ready c \<Longrightarrow> ready (c\<lparr>tc_recovery := m\<rparr>)"
  "ready c \<Longrightarrow> ready (c\<lparr>tc_promotions := ps\<rparr>)"
  by (auto simp: ready_def)

lemma ready_tiers:
  assumes "ready c"
  obtains l0 l1 where "tc_l0 c = Some l0" "tc_l1 c = Some l1" "cache_inv l0" "l1_inv l1"
  using assms by (auto simp: ready_def)

subsection \<open>Each event is safe\<close>

lemma on_l0_safe:
  assumes "ready c" and "\<And>l0. cache_inv l0 \<Longrightarrow> \<exists>l0' e. f l0 = Some (l0', e) \<and> cache_inv l0'"
  shows "\<exists>c' e. on_l0 f c = Some (c', e) \<and> ready c'"
proof -
  obtain l0 where l0: "tc_l0 c = Some l0" "cache_inv l0" using assms(1) by (rule ready_tiers)
  obtain l0' e where "f l0 = Some (l0', e)" "cache_inv l0'" using assms(2) [OF l0(2)] by blast
  then show ?thesis using l0(1) ready_update(1) [OF assms(1)] by (simp add: on_l0_def)
qed

lemma on_l1_safe:
  assumes "ready c" and "\<And>l1. l1_inv l1 \<Longrightarrow> \<exists>l1' e. f l1 = Some (l1', e) \<and> l1_inv l1'"
  shows "\<exists>c' e. on_l1 f c = Some (c', e) \<and> ready c'"
proof -
  obtain l1 where l1: "tc_l1 c = Some l1" "l1_inv l1" using assms(1) by (rule ready_tiers)
  obtain l1' e where "f l1 = Some (l1', e)" "l1_inv l1'" using assms(2) [OF l1(2)] by blast
  then show ?thesis using l1(1) ready_update(2) [OF assms(1)] by (simp add: on_l1_def)
qed

lemma tier_writes_safe:
  assumes "ready c"
  shows "\<exists>c' e. on_l0 (L0_Set now k v ttl) c = Some (c', e) \<and> ready c'"
    and "\<exists>c' e. on_l0 (L0_Delete k) c = Some (c', e) \<and> ready c'"
    and "badger_ok B cont \<Longrightarrow> \<exists>c' e. on_l1 (L1_Set B now k v ttl) c = Some (c', e) \<and> ready c'"
    and "badger_ok B cont \<Longrightarrow> \<exists>c' e. on_l1 (L1_Delete B k) c = Some (c', e) \<and> ready c'"
proof -
  show "\<exists>c' e. on_l0 (L0_Set now k v ttl) c = Some (c', e) \<and> ready c'"
    by (rule on_l0_safe [OF assms]) (rule l0.set_safe)
  show "\<exists>c' e. on_l0 (L0_Delete k) c = Some (c', e) \<and> ready c'"
    by (rule on_l0_safe [OF assms]) (rule l0.del_safe)
  show "\<exists>c' e. on_l1 (L1_Set B now k v ttl) c = Some (c', e) \<and> ready c'" if "badger_ok B cont"
    by (rule on_l1_safe [OF assms]) (rule cache_tier.set_safe [OF l1_cache_tier [OF that]])
  show "\<exists>c' e. on_l1 (L1_Delete B k) c = Some (c', e) \<and> ready c'" if "badger_ok B cont"
    by (rule on_l1_safe [OF assms]) (rule cache_tier.del_safe [OF l1_cache_tier [OF that]])
qed

lemma log_write_ready: "ready c \<Longrightarrow> ready (fst (log_write wt wenv op' k v c d))"
  using log_write_shape [of wt wenv op' k v c d] ready_update(3) [of c] by force

lemma try_l0_safe:
  assumes "ready c" shows "\<exists>c' r. try_l0 now k c = Some (c', r) \<and> ready c'"
proof -
  obtain l0 where l0: "tc_l0 c = Some l0" "cache_inv l0" using assms by (rule ready_tiers)
  obtain l0' r where "L0_Get now k l0 = Some (l0', r)" "cache_inv l0'" using l0.get_safe [OF l0(2)] by blast
  then show ?thesis using l0(1) ready_update(1) [OF assms] by (simp add: try_l0_def)
qed

lemma try_l1_safe:
  assumes "badger_ok B cont" and "ready c" shows "\<exists>c' r. try_l1 B now k c = Some (c', r) \<and> ready c'"
proof -
  obtain l1 where l1: "tc_l1 c = Some l1" "l1_inv l1" using assms(2) by (rule ready_tiers)
  obtain l1' r where g: "L1_Get B now k l1 = Some (l1', r)" "l1_inv l1'"
    using cache_tier.get_safe [OF l1_cache_tier [OF assms(1)] l1(2)] by blast
  have "ready (c\<lparr>tc_l1 := Some l1'\<rparr>)" by (rule ready_update(2) [OF assms(2) g(2)])
  then show ?thesis
    using l1(1) g(1) ready_update(4) [of "c\<lparr>tc_l1 := Some l1'\<rparr>"]
    by (cases r) (auto simp: try_l1_def Let_def)
qed

lemma Tiered_Get_safe:
  assumes "badger_ok B cont" and "ready c" shows "\<exists>c' r. Tiered_Get B n0 n1 w k c = Some (c', r) \<and> ready c'"
proof (cases "tc_guard ''get'' c")
  case None
  obtain c1 r0 where c1: "try_l0 n0 k c = Some (c1, r0)" "ready c1" using try_l0_safe [OF assms(2)] by blast
  obtain c2 r1 where c2: "try_l1 B n1 k c1 = Some (c2, r1)" "ready c2"
    using try_l1_safe [OF assms(1) c1(2)] by blast
  show ?thesis using None c1 c2 by (cases r0) (simp_all add: Tiered_Get_def)
qed (use assms(2) in \<open>simp add: Tiered_Get_def\<close>)

lemma Tiered_Set_safe:
  assumes "badger_ok B cont" and "ready c"
  shows "\<exists>c' d' e. Tiered_Set B wt wenv n0 n1 k v ttl c d = Some (c', d', e) \<and> ready c'"
proof (cases "tc_guard ''set'' c = None \<and> int (length v) \<le> uint (g0_MaxPayloadBytes (tc_L0cfg (tc_cfg c)))")
  case True
  obtain c1 e0 where c1: "on_l0 (L0_Set n0 k v ttl) c = Some (c1, e0)" "ready c1"
    using tier_writes_safe(1) [OF assms(2)] by blast
  obtain c2 e1 where c2: "on_l1 (L1_Set B n1 k v ttl) c1 = Some (c2, e1)" "ready c2"
    using tier_writes_safe(3) [OF c1(2) assms(1)] by blast
  obtain c3 d3 where c3: "log_write wt wenv OpSet k v c2 d = (c3, d3)" by fastforce
  then have "ready c3" using log_write_ready [OF c2(2), of wt wenv OpSet k v d] by simp
  then show ?thesis using True c1(1) c2(1) c3 by (simp add: Tiered_Set_def Let_def)
next
  case False
  then show ?thesis using assms(2) by (cases "tc_guard ''set'' c") (simp_all add: Tiered_Set_def Let_def)
qed

lemma Tiered_Delete_safe:
  assumes "badger_ok B cont" and "ready c"
  shows "\<exists>c' d' e. Tiered_Delete B wt wenv k c d = Some (c', d', e) \<and> ready c'"
proof (cases "tc_guard ''delete'' c")
  case None
  obtain c1 e0 where c1: "on_l0 (L0_Delete k) c = Some (c1, e0)" "ready c1"
    using tier_writes_safe(2) [OF assms(2)] by blast
  obtain c2 e1 where c2: "on_l1 (L1_Delete B k) c1 = Some (c2, e1)" "ready c2"
    using tier_writes_safe(4) [OF c1(2) assms(1)] by blast
  obtain c3 d3 where c3: "log_write wt wenv OpDelete k [] c2 d = (c3, d3)" by fastforce
  then have "ready c3" using log_write_ready [OF c2(2), of wt wenv OpDelete k "[]" d] by simp
  then show ?thesis using None c1(1) c2(1) c3 by (simp add: Tiered_Delete_def Let_def)
qed (use assms(2) in \<open>simp add: Tiered_Delete_def\<close>)

lemma L1_calls_safe:
  assumes "badger_ok B cont" and "ready c"
  shows "\<exists>c' e. SetToL1 B now k v ttl c = Some (c', e) \<and> ready c'"
    and "\<exists>c' r. GetFromL1 B now k c = Some (c', r) \<and> ready c'"
proof -
  note l1 = l1_cache_tier [OF assms(1)]
  show "\<exists>c' e. SetToL1 B now k v ttl c = Some (c', e) \<and> ready c'"
    using tier_writes_safe(3) [OF assms(2,1), of now k v ttl] assms(2)
    by (auto simp: SetToL1_def split: option.split)
  obtain x where x: "tc_l1 c = Some x" "l1_inv x" using assms(2) by (rule ready_tiers)
  obtain y r where "L1_Get B now k x = Some (y, r)" "l1_inv y" using cache_tier.get_safe [OF l1 x(2)] by blast
  then show "\<exists>c' r. GetFromL1 B now k c = Some (c', r) \<and> ready c'"
    using x(1) assms(2) ready_update(2) [OF assms(2)] by (simp add: GetFromL1_def split: option.split)
qed

lemma run_promotion_safe:
  assumes "ready c" shows "\<exists>c'. run_promotion i now c = Some c' \<and> ready c'"
proof (cases "i < length (tc_promotions c)")
  case True
  obtain l0 where l0: "tc_l0 c = Some l0" "cache_inv l0" using assms by (rule ready_tiers)
  obtain k v where kv: "tc_promotions c ! i = (k, v)" by fastforce
  obtain l0' e where "L0_Set now k v 0 l0 = Some (l0', e)" "cache_inv l0'" using l0.set_safe [OF l0(2)] by blast
  then show ?thesis
    using True l0(1) kv ready_update(4) [OF ready_update(1) [OF assms]] by (simp add: run_promotion_def)
qed (use assms in \<open>simp add: run_promotion_def\<close>)

lemma performTiering_safe:
  assumes "badger_ok B cont" and "iter_ok iter" and "ready c"
  shows "\<exists>c'. performTiering B iter clk c = Some c' \<and> ready c'"
proof -
  obtain l0 l1 where t: "tc_l0 c = Some l0" "tc_l1 c = Some l1" "cache_inv l0" "l1_inv l1"
    using assms(3) by (rule ready_tiers)
  show ?thesis
  proof (cases "L0_EvictCandidates iter (gt_BatchSize (g2_Tiering (tc_L2cfg (tc_cfg c)))) l0")
    case (Inl e)
    then show ?thesis using t(1,2) assms(3) by (simp add: performTiering_def)
  next
    case (Inr xs)
    have "\<forall>x \<in> set xs. l0_entry l0 (ce_Key x) = Some x"
      using evict_candidates_stored [OF t(3) assms(2) Inr] by blast
    moreover have "kept cont (l0_entry l0) (l0, l1)" using t(3,4) by (simp add: kept_def)
    ultimately obtain l0' l1' where e: "tier_entries B clk 0 xs (l0, l1) = Some (l0', l1')"
        "kept cont (l0_entry l0) (l0', l1')"
      using tier_entries_kept [OF assms(1), of "l0_entry l0" "(l0, l1)" xs clk 0] by fastforce
    then have "ready (c\<lparr>tc_l0 := Some l0', tc_l1 := Some l1'\<rparr>)"
      using ready_update(2) [OF ready_update(1) [OF assms(3)]] by (simp add: kept_def)
    then show ?thesis using Inr t(1,2) e(1) assms(3) by (simp add: performTiering_def)
  qed
qed

lemma restore_loop_safe:
  "cache_inv c \<Longrightarrow> \<exists>c' r. restore_loop unm clk n hashed bs c = Some (c', r) \<and> cache_inv c'"
proof (induction unm clk n hashed bs c rule: restore_loop.induct)
  case (1 unm clk n hashed bs c)
  show ?case
  proof (cases "\<exists>len bs1 eb bs2 x. read_u32 bs = Inr (len, bs1) \<and> read_full len bs1 = Inr (eb, bs2) \<and> unm eb = Inr x")
    case True
    then obtain len bs1 eb bs2 x where r: "read_u32 bs = Inr (len, bs1)" "read_full len bs1 = Inr (eb, bs2)"
        "unm eb = Inr x" by blast
    obtain c1 e where c1: "L0_Set (clk n) (ce_Key x) (ce_Value x) (ce_TTL x) c = Some (c1, e)" "cache_inv c1"
      using l0.set_safe [OF "1.prems"] by blast
    from "1.IH" [OF r(1) refl r(2) refl r(3) c1(1) refl c1(2)]
    show ?thesis by (subst restore_loop.simps) (simp add: r c1(1))
  next
    case False
    then show ?thesis using "1.prems"
      by (subst restore_loop.simps) (auto split: sum.split)
  qed
qed

lemma L0_Restore_safe:
  assumes "cache_inv c" shows "\<exists>c' e. L0_Restore unmh unm clk opened c = Some (c', e) \<and> cache_inv c'"
proof -
  have "\<exists>c' r. restore_loop unm clk 0 [] bs c = Some (c', r) \<and> cache_inv c'" for bs
    by (rule restore_loop_safe [OF assms])
  then have "\<forall>bs. \<exists>c' r. restore_loop unm clk 0 [] bs c = Some (c', r) \<and> cache_inv c'" by blast
  then obtain c' r where "restore_loop unm clk 0 [] bs c = Some (c' bs, r bs)" "cache_inv (c' bs)" for bs
    by metis
  then show ?thesis using assms
    by (auto simp: L0_Restore_def RestoreFromSnapshot_def split: sum.split prod.split option.split)
qed

lemma rebuildFromSnapshot_safe:
  assumes "ready c"
  shows "\<exists>c' e. rebuildFromSnapshot stat globbed unmh unm clk opened c = Some (c', e) \<and> ready c'"
proof -
  obtain l0 where l0: "tc_l0 c = Some l0" "cache_inv l0" using assms by (rule ready_tiers)
  obtain f e where f: "FindLatestSnapshot stat (globbed (snapshot_dir (tc_cfg c))) = (f, e)" by fastforce
  obtain l0' r where "L0_Restore unmh unm clk (opened f) l0 = Some (l0', r)" "cache_inv l0'"
    using L0_Restore_safe [OF l0(2)] by blast
  then show ?thesis
    using l0(1) f assms ready_update(1) [OF assms] by (cases e) (simp_all add: rebuildFromSnapshot_def)
qed

lemma L0_Close_inv:
  assumes "cache_inv c" and "L0_Close env c d = (c', ops, e)"
  shows "cache_inv c'"
proof -
  have "l0_shards c' = l0_shards c \<and> l0_shardCount c' = l0_shardCount c"
    using assms(2) by (auto simp: L0_Close_def snapshot_def WriteSnapshot_def split: if_split_asm)
  then show ?thesis using assms(1) by (simp add: cache_inv_def)
qed

lemma L1_Close_inv: "l1_inv c \<Longrightarrow> L1_Close B c = (c', e) \<Longrightarrow> l1_inv c'"
  by (auto simp: L1_Close_def map_dbs_def l1_inv_def Let_def split: if_split_asm)

lemma Tiered_Close_ready:
  assumes "ready c" shows "ready (fst (Tiered_Close B env w c))"
proof (cases "tc_closed c")
  case False
  obtain l0 l1 where t: "tc_l0 c = Some l0" "tc_l1 c = Some l1" "cache_inv l0" "l1_inv l1"
    using assms by (rule ready_tiers)
  obtain l0' ops e0 where c0: "L0_Close (cv_snap env) l0 (cv_dir env) = (l0', ops, e0)" by (metis prod_cases3)
  obtain l1' e1 where c1: "L1_Close B l1 = (l1', e1)" by fastforce
  show ?thesis
    using False assms t c0 c1 L0_Close_inv [OF t(3) c0] L1_Close_inv [OF t(4) c1]
    by (simp add: Tiered_Close_def Let_def ready_def case_prod_unfold)
qed (use assms in \<open>simp add: Tiered_Close_def\<close>)

lemma tiered_exec_safe:
  assumes "badger_ok B cont" and "ready c" and "event_ok ev"
  shows "\<exists>c' d' w'. tiered_exec B wt ev (c, d, w) = Some (c', d', w') \<and> ready c'"
proof (cases ev)
  case (EvGet n0 n1 k)
  show ?thesis using Tiered_Get_safe [OF assms(1,2), of n0 n1 w k] EvGet by auto
next
  case (EvSet wenv n0 n1 k v ttl)
  show ?thesis using Tiered_Set_safe [OF assms(1,2), of wt wenv n0 n1 k v ttl d] EvSet by auto
next
  case (EvDelete wenv k)
  show ?thesis using Tiered_Delete_safe [OF assms(1,2), of wt wenv k d] EvDelete by auto
next
  case (EvSetToL1 now k v ttl)
  show ?thesis using L1_calls_safe(1) [OF assms(1,2), of now k v ttl] EvSetToL1 by auto
next
  case (EvGetFromL1 now k)
  show ?thesis using L1_calls_safe(2) [OF assms(1,2), of now k] EvGetFromL1 by auto
next
  case (EvPromote i now)
  show ?thesis using run_promotion_safe [OF assms(2), of i now] EvPromote by auto
next
  case (EvTiering iter clk)
  show ?thesis
    using performTiering_safe [OF assms(1) _ assms(2), of iter clk] EvTiering assms(2,3)
    by (auto simp: tiering_tick_def)
next
  case (EvRestore stat globbed unmh unm clk opened)
  show ?thesis
    using rebuildFromSnapshot_safe [OF assms(2), of stat globbed unmh unm clk opened] EvRestore by auto
next
  case (EvClose env)
  obtain c' w' e where "Tiered_Close B env w c = (c', w', e)" by (metis prod_cases3)
  then show ?thesis using Tiered_Close_ready [OF assms(2), of B env w] EvClose by simp
qed

interpretation tcm: safe_machine "tiered_exec B wt" "\<lambda>s. badger_ok B cont \<and> ready (fst s)" event_ok
  for B wt cont
proof unfold_locales
  fix s :: "('a, 'b) machine" and e
  assume s: "badger_ok B cont \<and> ready (fst s)" and e: "event_ok e"
  obtain c d w where "s = (c, d, w)" by (metis prod_cases3)
  then show "\<exists>s'. tiered_exec B wt e s = Some s' \<and> badger_ok B cont \<and> ready (fst s')"
    using tiered_exec_safe [of B cont c e wt d w] s e by fastforce
qed

subsection \<open>Recovery\<close>

text \<open>The apply function of the recovery as a machine over the two tiers.\<close>

definition replay_exec ::
    "'db badger \<Rightarrow> (nat \<Rightarrow> go_time) \<Rightarrow> wal_entry \<Rightarrow> 'db replay_state \<Rightarrow> 'db replay_state option" where
  "replay_exec B clk e st = fst (apply_entry B clk e (Some st))"

definition replay_ready :: "'db badger \<Rightarrow> ('db \<Rightarrow> contents) \<Rightarrow> 'db replay_state \<Rightarrow> bool" where
  "replay_ready B cont st \<longleftrightarrow> badger_ok B cont \<and> cache_inv (rp_l0 st) \<and> l1_inv (rp_l1 st)"

lemma replay_exec_safe:
  assumes "replay_ready B cont st"
  shows "\<exists>st'. replay_exec B clk e st = Some st' \<and> replay_ready B cont st'"
proof -
  let ?now = "clk (rp_n st)"
  have ok: "badger_ok B cont" "cache_inv (rp_l0 st)" "l1_inv (rp_l1 st)"
    using assms by (simp_all add: replay_ready_def)
  note l1 = l1_cache_tier [OF ok(1)]
  obtain l0a e0 where s0: "L0_Set ?now (we_Key e) (we_Value e) 0 (rp_l0 st) = Some (l0a, e0)" "cache_inv l0a"
    using l0.set_safe [OF ok(2)] by blast
  obtain l0b e1 where d0: "L0_Delete (we_Key e) (rp_l0 st) = Some (l0b, e1)" "cache_inv l0b"
    using l0.del_safe [OF ok(2)] by blast
  obtain l1a e2 where s1: "L1_Set B ?now (we_Key e) (we_Value e) 0 (rp_l1 st) = Some (l1a, e2)" "l1_inv l1a"
    using cache_tier.set_safe [OF l1 ok(3)] by blast
  obtain l1b e3 where d1: "L1_Delete B (we_Key e) (rp_l1 st) = Some (l1b, e3)" "l1_inv l1b"
    using cache_tier.del_safe [OF l1 ok(3)] by blast
  show ?thesis
    using ok s0 d0 s1 d1 by (simp add: replay_exec_def apply_entry_def Let_def replay_ready_def)
qed

interpretation replay: safe_machine "replay_exec B clk" "replay_ready B cont" "\<lambda>e. True" for B clk cont
  by unfold_locales (rule replay_exec_safe)

lemma apply_fold:
  "fold (\<lambda>e a. fst (apply_entry B clk e a)) es (Some st) = run_events (replay_exec B clk) es st"
proof (induction es arbitrary: st)
  case (Cons e es)
  have dead: "fold (\<lambda>e a. fst (apply_entry B clk e a)) es None = None"
    by (induction es) (simp_all add: apply_entry_def)
  show ?case using Cons dead by (cases "replay_exec B clk e st") (simp_all add: replay_exec_def)
qed simp

lemma Recover_app:
  assumes "Recover ap canc env m d app m' app' r err"
  shows "\<exists>es. app' = fold (\<lambda>e a. fst (ap e a)) es app"
  using assms
proof (cases rule: Recover.cases)
  case early
  then show ?thesis by (intro exI [of _ "[]"]) simp
next
  case (replayed m1 entries s duration result)
  then show ?thesis using app_log [OF replayed(5)] by blast
qed

lemma performRecovery_tiers:
  assumes "performRecovery B clk env d c c' e" and "badger_ok B cont"
    and "tc_l0 c = Some l0" and "tc_l1 c = Some l1" and "cache_inv l0" and "l1_inv l1"
  shows "\<exists>m l0' l1'. c' = c\<lparr>tc_recovery := m, tc_l0 := Some l0', tc_l1 := Some l1'\<rparr> \<and> cache_inv l0' \<and> l1_inv l1'"
  using assms(1)
proof (cases rule: performRecovery.cases)
  case (1 m x0 x1 m' st result err)
  have x: "x0 = l0" "x1 = l1" using 1(4,5) assms(3,4) by simp_all
  obtain es where es: "Some st = run_events (replay_exec B clk) es \<lparr>rp_l0 = l0, rp_l1 = l1, rp_n = 0\<rparr>"
    using Recover_app [OF 1(6)] unfolding x apply_fold by blast
  have "replay_ready B cont \<lparr>rp_l0 = l0, rp_l1 = l1, rp_n = 0\<rparr>"
    using assms(2,5,6) by (simp add: replay_ready_def)
  from replay.run_safe [OF this, of es clk] es [symmetric] have "replay_ready B cont st"
    by (simp add: list_all_iff)
  then show ?thesis using 1(1) by (auto simp: replay_ready_def)
qed

lemma init_tiers_built:
  assumes "init_tiers B mk oor senv sdir c = (c1, None)"
  shows "\<exists>l0 l1. tc_l0 c1 = Some l0 \<and> tc_l1 c1 = Some l1 \<and> cache_inv l0 \<and> l1_inv l1 \<and>
    tc_closed c1 = tc_closed c"
proof -
  obtain l0 where l0: "L0_New (Some (l0_config_of (tc_cfg c))) = Inr l0"
    using assms by (auto simp: init_tiers_def split: sum.split_asm)
  obtain l1 where l1: "L1_New B mk oor (Some (l1_config_of (tc_cfg c))) = Inr l1"
    using assms l0 by (auto simp: init_tiers_def split: sum.split_asm)
  show ?thesis
    using assms l0 l1 L0_New_Inr(1) [OF l0] L1_New_inv [OF l1] by (auto simp: init_tiers_def)
qed

inductive_cases InitializeE: "Initialize B mk oor senv sdir clk env d c c' rb None"

lemma Initialize_ready:
  assumes "Initialize B mk oor senv sdir clk env d c c' rb None" and "badger_ok B cont"
  shows "ready c' \<and> \<not> tc_closed c'"
  using assms(1)
proof (rule InitializeE)
  fix c1
  assume i: "init_tiers B mk oor senv sdir c = (c1, None)" "\<not> tc_closed c"
    and c': "c' = c1\<lparr>tc_initialized := True\<rparr>"
  then show "ready c' \<and> \<not> tc_closed c'" using init_tiers_built [OF i(1)] by (auto simp: ready_def)
next
  fix c1 c2 warning
  assume i: "init_tiers B mk oor senv sdir c = (c1, None)" "\<not> tc_closed c"
    and c': "c' = c2\<lparr>tc_initialized := True\<rparr>" and r: "performRecovery B clk env d c1 c2 warning"
  obtain l0 l1 where t: "tc_l0 c1 = Some l0" "tc_l1 c1 = Some l1" "cache_inv l0" "l1_inv l1" "\<not> tc_closed c1"
    using init_tiers_built [OF i(1)] i(2) by blast
  show "ready c' \<and> \<not> tc_closed c'"
    using performRecovery_tiers [OF r assms(2) t(1-4)] c' t(5) by (auto simp: ready_def)
qed

text \<open>
  C2. The tiered cache never panics. Whatever the log and its checkpoints hold, however the
  goroutines of the recovery interleave and whichever of its entries fail to apply, if
  \<^verbatim>\<open>Initialize\<close> returns nil, both tiers are there and satisfy their invariants; and from then on
  any sequence of client calls, pending promotions, tiering rounds, restores from snapshots and
  closings, in any order and also after a closing, runs without a panic and keeps the invariants.
  (Of Badger this takes only its documented behaviour.)
\<close>

theorem tiered_never_panics:
  assumes "Initialize B mk oor senv sdir clk env d c c' rb None" and "badger_ok B cont"
    and "list_all event_ok evs"
  shows "ready c' \<and> \<not> tc_closed c' \<and>
    (\<exists>c1 d1 w1. run_events (tiered_exec B wt) evs (c', d, w) = Some (c1, d1, w1) \<and> ready c1)"
proof -
  have r: "ready c'" "\<not> tc_closed c'" using Initialize_ready [OF assms(1,2)] by blast+
  then show ?thesis using tcm.run_safe [of B cont "(c', d, w)" evs wt] assms(2,3) by fastforce
qed

text \<open>The start of a new installation: no log yet, nothing to recover.\<close>

lemma fresh_recover_prepare:
  assumes "NewRecoveryManager ne wp cp mw ci empty_disk = (d, Inr m)" and "rv_readdir env = None"
    and "rv_open env = None" and "rv_read env = disk_read" and "rv_ctx env = (\<lambda>i. None)"
  shows "\<exists>m1. recover_prepare env m d = (m1, Inr [])" and "0 < rm_maxWorkers m"
proof -
  have m: "\<not> rm_closed m" "rm_skippedEntries m = 0" "rm_corruptedSize m = 0" "wd_wal d = Some []"
      "wd_checkpoints d = None \<or> wd_checkpoints d = Some []" and w: "0 < rm_maxWorkers m"
    using assms(1)
    by (auto simp: NewRecoveryManager_def Let_def empty_disk_def DefaultMaxReplayWorkers_def
        split: if_split_asm option.split_asm)
  have "findLatestCheckpoint (rv_unreadable env) (rv_unmarshal_cp env) (rv_readdir env) m d = Inr 0"
    using m(5) assms(2) by (auto simp: findLatestCheckpoint_def)
  then show "\<exists>m1. recover_prepare env m d = (m1, Inr [])"
    using m assms(3-5) by (simp add: recover_prepare_def replayWAL_def scan_eof)
  show "0 < rm_maxWorkers m" by (rule w)
qed

lemma Recover_nothing:
  assumes "recover_prepare env m d = (m1, Inr [])" and "0 < rm_maxWorkers m"
  shows "\<exists>m2 r. Recover ap False env m d app m2 app (Some r) None"
proof -
  let ?n = "nat (rm_maxWorkers m)"
  have start: "clean_run ap ?n [] (rinit ?n [] app)" by (rule clean_init) (use assms(2) in simp_all)
  obtain s where s: "rreach ap False ?n [] app s" "rs_phase s = MDone" using clean.ends [OF start] by blast
  have "rs_applied s = []" using clean_done [OF clean.inv_reach [OF s(1) start] s(2)] by simp
  then have "rs_app s = app" using app_log [OF s(1)] by simp
  moreover obtain m2 r where "recover_finish 0 [] s m1 = (m2, r)" by fastforce
  ultimately show ?thesis using Recover.replayed [OF assms(1) s] by metis
qed

lemma Initialize_fresh:
  fixes c0 :: "('db, 'w) tiered_cache"
  assumes "Tiered_New show_v ne (Some cfg) empty_disk = (d, Inr c0)"
    and "init_tiers B mk oor senv sdir c0 = (c, None)" and "rv_readdir env = None"
    and "rv_open env = None" and "rv_read env = disk_read" and "rv_ctx env = (\<lambda>i. None)"
  shows "\<exists>c' rb. Initialize B mk oor senv sdir clk env d c0 c' rb None"
proof -
  obtain m where m: "NewRecoveryManager ne (gr_WALPath (tc_Replay cfg)) (gr_CheckpointPath (tc_Replay cfg))
      (gr_MaxReplayWorkers (tc_Replay cfg)) (gr_CheckpointInterval (tc_Replay cfg)) empty_disk = (d, Inr m)"
    and c0: "tc_recovery c0 = Some m" "\<not> tc_closed c0" "\<not> tc_initializing c0" "\<not> tc_cancelled c0"
    using assms(1) by (auto simp: Tiered_New_def split: option.splits prod.splits sum.splits)
  have c: "tc_recovery c = Some m" "\<not> tc_cancelled c"
    using assms(2) c0 by (auto simp: init_tiers_def split: sum.split_asm prod.split_asm)
  obtain l0 l1 where t: "tc_l0 c = Some l0" "tc_l1 c = Some l1" using init_tiers_built [OF assms(2)] by blast
  obtain m1 where prep: "recover_prepare env m d = (m1, Inr [])"
    using fresh_recover_prepare(1) [OF m assms(3-6)] by blast
  obtain m2 r where "Recover (apply_entry B clk) False env m d (Some \<lparr>rp_l0 = l0, rp_l1 = l1, rp_n = 0\<rparr>)
      m2 (Some \<lparr>rp_l0 = l0, rp_l1 = l1, rp_n = 0\<rparr>) (Some r) None"
    using Recover_nothing [OF prep fresh_recover_prepare(2) [OF m assms(3-6)], where
        ap = "apply_entry B clk" and app = "Some \<lparr>rp_l0 = l0, rp_l1 = l1, rp_n = 0\<rparr>"] by blast
  then have "\<exists>c2 e. performRecovery B clk env d c c2 e"
    using performRecovery.intros [OF c(1) t] c(2) by (metis (full_types))
  then show ?thesis using Initialize.intros(4,5) [OF c0(2,3) assms(2)] by blast
qed

text \<open>The start of a new installation on the defaults, for the witnesses.\<close>

lemma demo_installation:
  obtains d and c0 c :: "(mem_db, unit) tiered_cache" and rb where "Tiered_New (\<lambda>v. [])
        \<lparr>ne_mkdir_wal = None, ne_mkdir_checkpoint = None, ne_open = None\<rparr> (Some (DefaultConfig 4)) empty_disk = (d, Inr c0)"
    and "Initialize mem_badger (\<lambda>p. None) (\<lambda>x. 0) undefined [] (\<lambda>n. at_sec 0) demo_env d c0 c rb None"
proof -
  let ?ne = "\<lparr>ne_mkdir_wal = None, ne_mkdir_checkpoint = None, ne_open = None\<rparr>"
  have valid: "Validate (\<lambda>v. []) (Some (DefaultConfig 4)) = None"
    using default_config_wf [of 4] by (simp add: Validate_shape)
  have sync: "g1_SyncMode (tc_L1cfg (DefaultConfig 4)) \<noteq> ''disabled''"
    by (simp add: DefaultConfig_def default_L1_def)
  have mem: "\<forall>o'. \<not> bo_InMemory o' \<longrightarrow> (\<exists>db. bd_Open mem_badger o' = Inr db)"
      "\<forall>p. \<not> bo_InMemory (bd_DefaultOptions mem_badger p)"
    by (simp_all add: mem_badger_def)
  obtain d c0 c1 where b: "Tiered_New (\<lambda>v. []) ?ne (Some (DefaultConfig 4)) empty_disk =
        (d, Inr (c0 :: (mem_db, unit) tiered_cache))"
      "init_tiers mem_badger (\<lambda>p. None) (\<lambda>x. 0) undefined [] c0 = (c1, None)"
    using config_builds [OF valid sync _ _ _ _ mem, of ?ne "\<lambda>p. None" empty_disk "\<lambda>x. 0" undefined "[]"]
    by fastforce
  then show ?thesis
    using Initialize_fresh [OF b, of demo_env "\<lambda>n. at_sec 0"] that by (auto simp: demo_env_def)
qed

definition demo_close_env :: close_env where
  "demo_close_env = \<lparr>cv_snap = undefined, cv_dir = [], cv_sched = [], cv_sync = None, cv_close = None\<rparr>"

theorem tiered_never_panics_witness:
  "\<exists>d c0 c rb s. Tiered_New (\<lambda>v. []) \<lparr>ne_mkdir_wal = None, ne_mkdir_checkpoint = None, ne_open = None\<rparr>
      (Some (DefaultConfig 4)) empty_disk = (d, Inr (c0 :: (mem_db, unit) tiered_cache)) \<and>
    Initialize mem_badger (\<lambda>p. None) (\<lambda>x. 0) undefined [] (\<lambda>n. at_sec 0) demo_env d c0 c rb None \<and>
    run_events (tiered_exec mem_badger demo_wt)
      [EvSet demo_wenv (at_sec 0) (at_sec 0) ''k'' [1] 0, EvGet (at_sec 1) (at_sec 1) ''k'',
       EvClose demo_close_env, EvPromote 0 (at_sec 2), EvDelete demo_wenv ''k''] (c, d, ()) = Some s"
proof -
  obtain d and c0 c :: "(mem_db, unit) tiered_cache" and rb where b: "Tiered_New (\<lambda>v. [])
        \<lparr>ne_mkdir_wal = None, ne_mkdir_checkpoint = None, ne_open = None\<rparr> (Some (DefaultConfig 4)) empty_disk = (d, Inr c0)"
      and i: "Initialize mem_badger (\<lambda>p. None) (\<lambda>x. 0) undefined [] (\<lambda>n. at_sec 0) demo_env d c0 c rb None"
    by (rule demo_installation)
  have "list_all event_ok [EvSet demo_wenv (at_sec 0) (at_sec 0) ''k'' [1] 0, EvGet (at_sec 1) (at_sec 1) ''k'',
       EvClose demo_close_env, EvPromote 0 (at_sec 2), EvDelete demo_wenv ''k'']" by simp
  from tiered_never_panics [OF i mem_badger_ok this, where wt = demo_wt and w = "()"]
  show ?thesis using b i by blast
qed

end
