(* ===== verification/Restart.thy ===== *)
theory Restart
  imports Tiered_History Tiered_Machine
begin

text \<open>
  The tiered cache across restarts: what the client calls of one process put in the log, what the
  recovery of the next process makes of it, and sessions of a cache that crash and start again.
  Histories stay coherent over any number of restarts if nothing is lost on the way; and a write
  or delete that the client was told is refused can be what keeps the cache from starting again.
\<close>

subsection \<open>What client calls log\<close>

definition log_entry :: "wal_operation \<Rightarrow> string \<Rightarrow> bytes \<Rightarrow> wal_entry" where
  "log_entry op' k v =
     \<lparr>we_Sequence = 0, we_Timestamp = \<lparr>tm_wall = 0, tm_mono = None\<rparr>, we_Operation = op', we_Key = k,
      we_Value = v, we_Metadata = None, we_Tier = 0, we_Checksum = 0\<rparr>"

fun op_logs :: "int \<Rightarrow> tier_op \<Rightarrow> wal_entry list" where
  "op_logs limit (TGet now k) = []"
| "op_logs limit (TSet now k v ttl) = (if int (length v) \<le> limit then [log_entry OpSet k v] else [])"
| "op_logs limit (TDel k) = [log_entry OpDelete k []]"

text \<open>The entries a history asks to log, each with the environment of its write.\<close>

fun log_of :: "int \<Rightarrow> (write_env \<times> tier_op) list \<Rightarrow> (write_env \<times> wal_entry) list" where
  "log_of limit [] = []"
| "log_of limit ((wenv, x) # xs) = map (Pair wenv) (op_logs limit x) @ log_of limit xs"

text \<open>The effect of an entry on the map the log describes.\<close>

definition log_upd :: "wal_entry \<Rightarrow> (string \<rightharpoonup> bytes) \<Rightarrow> (string \<rightharpoonup> bytes)" where
  "log_upd e m =
     (if we_Key e = [] then m
      else if we_Operation e = OpSet then (if we_Value e = [] then m else m(we_Key e \<mapsto> we_Value e))
      else if we_Operation e = OpDelete then m(we_Key e := None) else m)"

definition payload_limit :: "Config \<Rightarrow> int" where
  "payload_limit cfg = uint (g0_MaxPayloadBytes (tc_L0cfg cfg))"

lemma log_entry_simps [simp]:
  "we_Operation (log_entry op' k v) = op'" "we_Key (log_entry op' k v) = k"
  "we_Value (log_entry op' k v) = v" "we_Tier (log_entry op' k v) = 0"
  by (simp_all add: log_entry_def)

lemma stamp_simps [simp]:
  "we_Operation (stamp_entry wt now seq e) = we_Operation e" "we_Key (stamp_entry wt now seq e) = we_Key e"
  "we_Value (stamp_entry wt now seq e) = we_Value e" "we_Tier (stamp_entry wt now seq e) = we_Tier e"
  "we_Timestamp (stamp_entry wt now seq e) = now"
  by (simp_all add: stamp_entry_def Let_def)

lemma log_upd_mono: "m \<subseteq>\<^sub>m m' \<Longrightarrow> log_upd e m \<subseteq>\<^sub>m log_upd e m'"
  by (auto simp: log_upd_def map_le_def)

lemma L1_wal_frame:
  "L1_Get B now k l1 = Some (l1', r) \<Longrightarrow> ShouldUseWAL l1' = ShouldUseWAL l1"
  "L1_Set B now k v ttl l1 = Some (l1', e) \<Longrightarrow> ShouldUseWAL l1' = ShouldUseWAL l1"
  "L1_Delete B k l1 = Some (l1', e) \<Longrightarrow> ShouldUseWAL l1' = ShouldUseWAL l1"
  by (auto simp: L1_Get_def L1_Set_def L1_Delete_def bind_eq_Some_conv Let_def case_prod_unfold
      count_l1_def set_db_def ShouldUseWAL_def split: if_split_asm sum.split_asm)

definition logs_to :: "('db, 'w) tiered_cache \<Rightarrow> recovery_manager \<Rightarrow> bool" where
  "logs_to c m \<longleftrightarrow> tc_recovery c = Some m \<and> (\<exists>l1. tc_l1 c = Some l1 \<and> ShouldUseWAL l1)"

lemma log_write_logs:
  assumes "logs_to c m" and "WAL_Write wt wenv (log_entry op' k v) m d = (m', d', e, b, None)"
  shows "log_write wt wenv op' k v c d = (c\<lparr>tc_recovery := Some m'\<rparr>, d')"
  using assms by (auto simp: logs_to_def log_write_def log_entry_def)

lemma try_l0_logs: "try_l0 now k c = Some (c', r) \<Longrightarrow> logs_to c' m = logs_to c m \<and> tc_cfg c' = tc_cfg c"
  by (auto simp: try_l0_def logs_to_def bind_eq_Some_conv split: option.split_asm)

lemma try_l1_logs:
  assumes "try_l1 B now k c = Some (c', r)"
  shows "logs_to c' m = logs_to c m \<and> tc_cfg c' = tc_cfg c"
proof (cases "tc_l1 c")
  case (Some l1)
  then obtain l1' r1 where g: "L1_Get B now k l1 = Some (l1', r1)"
    using assms by (auto simp: try_l1_def bind_eq_Some_conv)
  show ?thesis
    using assms Some g L1_wal_frame(1) [OF g]
    by (cases r1) (auto simp: try_l1_def Let_def logs_to_def split: if_split_asm)
qed (use assms in \<open>simp add: try_l1_def\<close>)

lemma run_promotion_logs:
  "run_promotion i now c = Some c' \<Longrightarrow> logs_to c' m = logs_to c m \<and> tc_cfg c' = tc_cfg c"
  by (auto simp: run_promotion_def logs_to_def bind_eq_Some_conv split: option.split_asm if_split_asm prod.split_asm)

lemma quiet_get_logs:
  assumes "logs_to c m" and "quiet_get B w now k (c, d) = Some ((c', d'), r)"
  shows "logs_to c' m \<and> d' = d \<and> tc_cfg c' = tc_cfg c"
proof -
  obtain c1 where t: "Tiered_Get B now now w k c = Some (c1, r)" "run_promotion 0 now c1 = Some c'" "d' = d"
    using assms(2) by (auto simp: quiet_get_def bind_eq_Some_conv)
  have "logs_to c1 m \<and> tc_cfg c1 = tc_cfg c"
  proof (cases "tc_guard ''get'' c")
    case None
    obtain c2 r0 where g0: "try_l0 now k c = Some (c2, r0)"
      using t(1) None by (auto simp: Tiered_Get_def bind_eq_Some_conv)
    note c2 = try_l0_logs [OF g0, of m]
    show ?thesis
    proof (cases "r0 = None")
      case True
      obtain c3 r1 where g1: "try_l1 B now k c2 = Some (c3, r1)"
        using t(1) None g0 True by (auto simp: Tiered_Get_def bind_eq_Some_conv)
      show ?thesis
        using t(1) None g0 True g1 c2 try_l1_logs [OF g1, of m] assms(1) by (simp add: Tiered_Get_def)
    next
      case False
      then show ?thesis using t(1) None g0 c2 assms(1) by (auto simp: Tiered_Get_def)
    qed
  qed (use t(1) assms(1) in \<open>simp add: Tiered_Get_def\<close>)
  then show ?thesis using run_promotion_logs [OF t(2), of m] t(3) by simp
qed

lemma on_tier_logs:
  "on_l0 f c = Some (c', e) \<Longrightarrow> logs_to c' m = logs_to c m \<and> tc_cfg c' = tc_cfg c"
  "on_l1 (L1_Set B now k v ttl) c = Some (c', e) \<Longrightarrow> logs_to c' m = logs_to c m \<and> tc_cfg c' = tc_cfg c"
  "on_l1 (L1_Delete B k) c = Some (c', e) \<Longrightarrow> logs_to c' m = logs_to c m \<and> tc_cfg c' = tc_cfg c"
  by (auto simp: on_l0_def on_l1_def logs_to_def bind_eq_Some_conv L1_wal_frame split: option.split_asm)

lemma quiet_set_logs:
  assumes "logs_to c m" and "tc_guard ''set'' c = None"
    and "write_all wt (map (Pair wenv) (op_logs (payload_limit (tc_cfg c)) (TSet now k v ttl))) m d =
      Some (m', d', es)"
    and "quiet_set B wt wenv now k v ttl (c, d) = Some ((c', d1), e)"
  shows "logs_to c' m' \<and> d1 = d' \<and> tc_cfg c' = tc_cfg c"
proof (cases "int (length v) \<le> payload_limit (tc_cfg c)")
  case True
  obtain en b where w: "WAL_Write wt wenv (log_entry OpSet k v) m d = (m', d', en, b, None)"
    using assms(3) True by (auto split: prod.split_asm option.split_asm)
  obtain c1 e0 c2 e1 where c1: "on_l0 (L0_Set now k v ttl) c = Some (c1, e0)"
      and c2: "on_l1 (L1_Set B now k v ttl) c1 = Some (c2, e1)"
      and r: "log_write wt wenv OpSet k v c2 d = (c', d1)"
    using assms(2,4) True
    by (auto simp: quiet_set_def Tiered_Set_def Let_def bind_eq_Some_conv payload_limit_def case_prod_unfold prod_eq_iff)
  have l: "logs_to c2 m" "tc_cfg c2 = tc_cfg c"
    using on_tier_logs(1) [OF c1, of m] on_tier_logs(2) [OF c2, of m] assms(1) by simp_all
  show ?thesis using r l log_write_logs [OF l(1) w] by (auto simp: logs_to_def)
next
  case False
  then show ?thesis
    using assms by (auto simp: quiet_set_def Tiered_Set_def Let_def payload_limit_def)
qed

lemma quiet_del_logs:
  assumes "logs_to c m" and "tc_guard ''delete'' c = None"
    and "write_all wt (map (Pair wenv) (op_logs limit (TDel k))) m d = Some (m', d', es)"
    and "quiet_del B wt wenv k (c, d) = Some ((c', d1), e)"
  shows "logs_to c' m' \<and> d1 = d' \<and> tc_cfg c' = tc_cfg c"
proof -
  obtain en b where w: "WAL_Write wt wenv (log_entry OpDelete k []) m d = (m', d', en, b, None)"
    using assms(3) by (auto split: prod.split_asm option.split_asm)
  obtain c1 e0 c2 e1 where c1: "on_l0 (L0_Delete k) c = Some (c1, e0)"
      and c2: "on_l1 (L1_Delete B k) c1 = Some (c2, e1)"
      and r: "log_write wt wenv OpDelete k [] c2 d = (c', d1)"
    using assms(2,4)
    by (auto simp: quiet_del_def Tiered_Delete_def Let_def bind_eq_Some_conv case_prod_unfold prod_eq_iff)
  have l: "logs_to c2 m" "tc_cfg c2 = tc_cfg c"
    using on_tier_logs(1) [OF c1, of m] on_tier_logs(3) [OF c2, of m] assms(1) by simp_all
  show ?thesis using r l log_write_logs [OF l(1) w] by (auto simp: logs_to_def)
qed

subsection \<open>A session: the calls of one process\<close>

fun session_run ::
    "'db badger \<Rightarrow> 'w \<Rightarrow> (int \<Rightarrow> string) \<Rightarrow> (write_env \<times> tier_op) list \<Rightarrow> ('db, 'w) tc_state \<Rightarrow>
     (('db, 'w) tc_state \<times> tier_out list) option" where
  "session_run B w wt [] s = Some (s, [])"
| "session_run B w wt ((wenv, x) # xs) s = do {
     (s1, out) \<leftarrow> tier_step (quiet_get B w) (quiet_set B wt wenv) (quiet_del B wt wenv) x s;
     (s2, outs) \<leftarrow> session_run B w wt xs s1;
     Some (s2, out # outs)
   }"

lemma write_all_append:
  "write_all wt (xs @ ys) m d = Some (m2, d2, es) \<Longrightarrow>
   \<exists>m1 d1 es1 es2. write_all wt xs m d = Some (m1, d1, es1) \<and> write_all wt ys m1 d1 = Some (m2, d2, es2) \<and>
     es = es1 @ es2"
  by (induction xs arbitrary: m d es) (fastforce split: prod.splits option.splits)+

definition log_view :: "wal_entry \<Rightarrow> wal_operation \<times> string \<times> bytes \<times> int" where
  "log_view e = (we_Operation e, we_Key e, we_Value e, we_Tier e)"

lemma write_all_views:
  "write_all wt ws m d = Some (m', d', es) \<Longrightarrow>
   map log_view es = map (log_view \<circ> snd) ws \<and> map we_Timestamp es = map (wv_now \<circ> fst) ws"
proof (induction ws arbitrary: m d es)
  case (Cons x ws)
  obtain wenv e where x: "x = (wenv, e)" by fastforce
  obtain m1 d1 e1 b es1 where w: "WAL_Write wt wenv e m d = (m1, d1, e1, b, None)"
      "write_all wt ws m1 d1 = Some (m', d', es1)" "es = e1 # es1"
    using Cons.prems x by (auto split: prod.split_asm option.split_asm)
  show ?case using Cons.IH [OF w(2)] WAL_Write_ok [OF w(1)] w(3) x by (auto simp: log_view_def)
qed simp

lemma log_upd_view: "log_view e = log_view e' \<Longrightarrow> log_upd e = log_upd e'"
  by (simp add: log_view_def log_upd_def fun_eq_iff)

lemma fold_log_upd_views: "map log_view es = map log_view es' \<Longrightarrow> fold log_upd es m = fold log_upd es' m"
proof (induction es arbitrary: es' m)
  case (Cons e es)
  then obtain e' es1 where "es' = e' # es1" "log_view e = log_view e'" "map log_view es = map log_view es1"
    by auto
  then show ?case using Cons.IH [of es1] log_upd_view [of e e'] by simp
qed simp

text \<open>A cache whose log is on, its tiers settled.\<close>

definition session_state ::
    "('db \<Rightarrow> contents) \<Rightarrow> u64 \<Rightarrow> ('db, 'w) tiered_cache \<Rightarrow> recovery_manager \<Rightarrow> bool" where
  "session_state cont cap c m \<longleftrightarrow> (\<exists>l0 l1. settled cont cap c l0 l1) \<and> logs_to c m"

lemma settled_guard: "settled cont cap c l0 l1 \<Longrightarrow> tc_guard op' c = None"
  using running_guard [of c l0 l1 op'] by (simp add: settled_def)

lemma session_step:
  assumes "badger_ok B cont" and "updates_ok B" and "roomy B cap" and "session_state cont cap c m"
    and "write_all wt (map (Pair wenv) (op_logs (payload_limit (tc_cfg c)) x)) m d = Some (m', d', es)"
    and "lg \<subseteq>\<^sub>m tc_stored cont (c, d)"
  shows "\<exists>c' out. tier_step (quiet_get B w) (quiet_set B wt wenv) (quiet_del B wt wenv) x (c, d) =
      Some ((c', d'), out) \<and> session_state cont cap c' m' \<and> tc_cfg c' = tc_cfg c \<and>
    fold log_upd (op_logs (payload_limit (tc_cfg c)) x) lg \<subseteq>\<^sub>m tc_stored cont (c', d')"
proof -
  obtain l0 l1 where st: "settled cont cap c l0 l1" and lg: "logs_to c m"
    using assms(4) by (auto simp: session_state_def)
  have sub: "lg \<subseteq>\<^sub>m l1_stored cont l1" using assms(6) settled_stored [OF st] by metis
  show ?thesis
  proof (cases x)
    case (TGet now k)
    obtain c' l0' l1' r where g: "quiet_get B w now k (c, d) = Some ((c', d), r)" "settled cont cap c' l0' l1'"
        "l1_stored cont l1' = l1_stored cont l1"
      using quiet_get_settled [OF assms(1) st, of w now k d] by blast
    have "m' = m" "d' = d" using assms(5) TGet by simp_all
    then show ?thesis
      using g TGet sub settled_stored [OF g(2), of d'] quiet_get_logs [OF lg g(1)] by (auto simp: session_state_def)
  next
    case (TSet now k v ttl)
    obtain c' d1 l0' l1' e where s: "quiet_set B wt wenv now k v ttl (c, d) = Some ((c', d1), e)"
        "settled cont cap c' l0' l1'"
        "l1_stored cont l1' = (if e = None then (l1_stored cont l1)(k \<mapsto> v) else l1_stored cont l1)"
        "e = None \<longleftrightarrow> k \<noteq> [] \<and> v \<noteq> [] \<and> int (length v) \<le> payload_limit (tc_cfg c)"
      using quiet_set_settled [OF assms(1-3) st, of wt wenv now k v ttl d]
      unfolding payload_limit_def [symmetric]
      by (elim exE conjE) (rule that)
    have l: "logs_to c' m' \<and> d1 = d' \<and> tc_cfg c' = tc_cfg c"
      using quiet_set_logs [OF lg settled_guard [OF st] _ s(1)] assms(5) TSet by blast
    have "fold log_upd (op_logs (payload_limit (tc_cfg c)) x) lg \<subseteq>\<^sub>m l1_stored cont l1'"
      unfolding TSet s(3) s(4) using sub by (auto simp: log_upd_def map_le_def OpSet_def OpDelete_def)
    then show ?thesis
      using s(1,2) l TSet settled_stored [OF s(2), of d'] by (auto simp: session_state_def)
  next
    case (TDel k)
    obtain c' d1 l0' l1' e where s: "quiet_del B wt wenv k (c, d) = Some ((c', d1), e)"
        "settled cont cap c' l0' l1'"
        "l1_stored cont l1' = (if k = [] then l1_stored cont l1 else (l1_stored cont l1)(k := None))"
      using quiet_del_settled [OF assms(1,2) st, of wt wenv k d] by (elim exE conjE) (rule that)
    have l: "logs_to c' m' \<and> d1 = d' \<and> tc_cfg c' = tc_cfg c"
      using quiet_del_logs [OF lg settled_guard [OF st] _ s(1)] assms(5) TDel by blast
    have "fold log_upd (op_logs (payload_limit (tc_cfg c)) x) lg \<subseteq>\<^sub>m l1_stored cont l1'"
      unfolding TDel s(3) using sub by (auto simp: log_upd_def map_le_def OpSet_def OpDelete_def)
    then show ?thesis
      using s(1,2) l TDel settled_stored [OF s(2), of d'] by (auto simp: session_state_def)
  qed
qed

fun ideal_run :: "tier_op list \<Rightarrow> tier_out list \<Rightarrow> (string \<rightharpoonup> bytes) \<Rightarrow> (string \<rightharpoonup> bytes)" where
  "ideal_run (x # xs) (out # outs) m = ideal_run xs outs (ideal_step x out m)"
| "ideal_run _ _ m = m"

lemma coherent_append:
  "coherent m xs outs \<Longrightarrow> coherent (ideal_run xs outs m) ys outs' \<Longrightarrow> coherent m (xs @ ys) (outs @ outs')"
  by (induction m xs outs rule: coherent.induct) simp_all

lemma ideal_run_append:
  "length xs = length outs \<Longrightarrow> ideal_run (xs @ ys) (outs @ outs') m = ideal_run ys outs' (ideal_run xs outs m)"
  by (induction xs outs arbitrary: m rule: list_induct2) simp_all

lemma session_coherent:
  assumes "badger_ok B cont" and "updates_ok B" and "roomy B cap" and "session_state cont cap c m"
    and "write_all wt (log_of (payload_limit (tc_cfg c)) xs) m d = Some (m', d', es)"
    and "lg \<subseteq>\<^sub>m tc_stored cont (c, d)" and "tc_stored cont (c, d) \<subseteq>\<^sub>m ideal"
  shows "\<exists>c' outs. session_run B w wt xs (c, d) = Some ((c', d'), outs) \<and> length outs = length xs \<and>
    session_state cont cap c' m' \<and>
    coherent ideal (map snd xs) outs \<and> tc_stored cont (c', d') \<subseteq>\<^sub>m ideal_run (map snd xs) outs ideal \<and>
    fold log_upd es lg \<subseteq>\<^sub>m tc_stored cont (c', d')"
  using assms(4-7)
proof (induction xs arbitrary: c d m es lg ideal)
  case (Cons y xs)
  obtain wenv x where y: "y = (wenv, x)" by fastforce
  let ?l = "payload_limit (tc_cfg c)" and ?step = "tier_step (quiet_get B w) (quiet_set B wt wenv) (quiet_del B wt wenv)"
  obtain m1 d1 es1 es2 where w: "write_all wt (map (Pair wenv) (op_logs ?l x)) m d = Some (m1, d1, es1)"
      "write_all wt (log_of ?l xs) m1 d1 = Some (m', d', es2)" "es = es1 @ es2"
    using write_all_append [of wt "map (Pair wenv) (op_logs ?l x)"] Cons.prems(2) y by fastforce
  obtain c1 out where s: "?step x (c, d) = Some ((c1, d1), out)" "session_state cont cap c1 m1"
      "tc_cfg c1 = tc_cfg c" "fold log_upd (op_logs ?l x) lg \<subseteq>\<^sub>m tc_stored cont (c1, d1)"
    using session_step [OF assms(1-3) Cons.prems(1) w(1) Cons.prems(3), of w] by blast
  have inv: "tc_inv cont cap (c, d)" using Cons.prems(1) by (auto simp: session_state_def tc_inv_def)
  note tier = tc_cache_tier [OF assms(1-3), of w wt wenv]
  have ideal: "tc_stored cont (c1, d1) \<subseteq>\<^sub>m ideal_step x out ideal"
    using cache_tier.step_ideal [OF tier inv Cons.prems(4) s(1)] by blast
  have read: "\<forall>now k v. x = TGet now k \<and> out = OutGet (Inr v) \<longrightarrow> ideal k = Some v"
    using cache_tier.step_read [OF tier inv Cons.prems(4)] s(1) by blast
  have views: "map log_view es1 = map log_view (op_logs ?l x)"
    using write_all_views [OF w(1)] by simp
  have "fold log_upd es1 lg \<subseteq>\<^sub>m tc_stored cont (c1, d1)" unfolding fold_log_upd_views [OF views] by (rule s(4))
  from Cons.IH [OF s(2) _ this ideal] obtain c' outs where
      r: "session_run B w wt xs (c1, d1) = Some ((c', d'), outs)" "length outs = length xs"
        "session_state cont cap c' m'" "coherent (ideal_step x out ideal) (map snd xs) outs"
        "tc_stored cont (c', d') \<subseteq>\<^sub>m ideal_run (map snd xs) outs (ideal_step x out ideal)"
        "fold log_upd es2 (fold log_upd es1 lg) \<subseteq>\<^sub>m tc_stored cont (c', d')"
    using w(2) s(3) by auto
  have "coherent ideal (map snd (y # xs)) (out # outs)"
    unfolding y using read r(4) by (simp only: cache_tier.coherent_Cons [OF tier] list.map snd_conv simp_thms)
  then show ?case using r y s(1) w(3) by (intro exI [of _ c'] exI [of _ "out # outs"]) simp
qed simp

subsection \<open>The log on disk\<close>

definition logged_disk ::
    "(bytes \<Rightarrow> go_error + wal_entry) \<Rightarrow> (int \<Rightarrow> string) \<Rightarrow> wal_disk \<Rightarrow> wal_entry list \<Rightarrow> bool" where
  "logged_disk unm wt d es \<longleftrightarrow>
     (\<exists>ds. wd_wal d = Some (frames ds) \<and> map unm ds = map Inr es \<and>
       list_all (\<lambda>x. length x \<le> MaxWALEntrySize) ds \<and> list_all (verifyChecksum wt) es \<and>
       map we_Sequence es = map (\<lambda>i. 1 + of_nat i) [0..<length es])"

lemma logged_disk_empty: "wd_wal d = Some [] \<Longrightarrow> logged_disk unm wt d []"
  by (auto simp: logged_disk_def intro: exI [of _ "[]"])

lemma logged_disk_write:
  assumes "logged_disk unm wt d es" and "rm_sequence m = of_nat (length es)"
    and "write_all wt ws m d = Some (m', d', es')" and "\<forall>(env, e) \<in> set ws. codec_ok unm env"
    and "\<forall>(env, e) \<in> set ws. tm_mono (wv_now env) = None"
    and "int (length es + length ws) < 2 ^ 64 - 1"
  shows "logged_disk unm wt d' (es @ es')"
proof -
  obtain ds where ds: "wd_wal d = Some (frames ds)" "map unm ds = map Inr es"
      "list_all (\<lambda>x. length x \<le> MaxWALEntrySize) ds" "list_all (verifyChecksum wt) es"
      "map we_Sequence es = map (\<lambda>i. 1 + of_nat i) [0..<length es]"
    using assms(1) by (auto simp: logged_disk_def)
  have "uint (of_nat (length es) :: u64) = int (length es)"
    using assms(6) by (simp add: unsigned_of_nat take_bit_nat_eq_self_iff flip: of_nat_take_bit)
  then have "uint (rm_sequence m) + int (length ws) < 2 ^ 64" using assms(2,6) by simp
  from write_all_log [OF assms(3) ds(1) assms(4) this] obtain ds' where ds':
      "wd_wal d' = Some (frames ds @ frames ds')" "map unm ds' = map (Inr \<circ> json_view) es'"
      "list_all (\<lambda>x. length x \<le> MaxWALEntrySize) ds'" "list_all (verifyChecksum wt) es'"
      "map we_Sequence es' = map (\<lambda>i. rm_sequence m + 1 + of_nat i) [0..<length es']"
    by blast
  have times: "map we_Timestamp es' = map (wv_now \<circ> fst) ws" using write_all_views [OF assms(3)] by blast
  have "tm_mono (we_Timestamp e) = None" if "e \<in> set es'" for e
  proof -
    have "we_Timestamp e \<in> set (map (wv_now \<circ> fst) ws)" unfolding times [symmetric] using that by simp
    then show ?thesis using assms(5) by auto
  qed
  then have "map unm ds' = map Inr es'" using ds'(2) by (simp add: json_view_id)
  moreover have "map we_Sequence (es @ es') = map (\<lambda>i. 1 + of_nat i) [0..<length (es @ es')]"
  proof -
    have "[0..<length es + length es'] = [0..<length es] @ map (\<lambda>i. i + length es) [0..<length es']"
      unfolding map_add_upt using upt_add_eq_append [of 0 "length es" "length es'"] by (simp add: add.commute)
    then show ?thesis
      using ds(5) ds'(5) assms(2) by (simp add: o_def add.assoc add.commute add.left_commute)
  qed
  ultimately show ?thesis
    unfolding logged_disk_def using ds(1-4) ds'(1,3,4) by (intro exI [of _ "ds @ ds'"]) simp
qed

lemma logged_scan:
  assumes "logged_disk unm wt d es" and "int (length es) < 2 ^ 64 - 1"
  shows "\<exists>bs. wd_wal d = Some bs \<and>
    scan_disk unm wt 0 0 bs empty_scan = (empty_scan\<lparr>sc_entries := es\<rparr>, None)"
proof -
  obtain ds where ds: "wd_wal d = Some (frames ds)" "map unm ds = map Inr es"
      "list_all (\<lambda>x. length x \<le> MaxWALEntrySize) ds" "list_all (verifyChecksum wt) es"
      "map we_Sequence es = map (\<lambda>i. 1 + of_nat i) [0..<length es]"
    using assms(1) by (auto simp: logged_disk_def)
  have "\<forall>x \<in> set (map we_Sequence es). 0 < x"
    unfolding ds(5) using small_seq_pos [OF assms(2)] by auto
  then have "\<forall>e \<in> set es. 0 < we_Sequence e \<and> verifyChecksum wt e" using ds(4) by (auto simp: list_all_iff)
  from intact_frames [OF ds(2) this]
  have "scan_disk unm wt 0 0 (frames ds @ []) empty_scan = (empty_scan\<lparr>sc_entries := es\<rparr>, None)"
    unfolding scan_frames [OF ds(3)] by (simp add: scan_eof empty_scan_def)
  then show ?thesis using ds(1) by simp
qed

subsection \<open>The replay\<close>

definition replay_at :: "int \<Rightarrow> (string \<rightharpoonup> bytes) \<Rightarrow> 'db l1_cache \<Rightarrow> 'db replay_state \<Rightarrow> bool" where
  "replay_at limit lg l1 st \<longleftrightarrow> cache_inv (rp_l0 st) \<and> \<not> l0_closed (rp_l0 st) \<and>
     l0_maxPayload (rp_l0 st) = limit \<and> l0_stored (rp_l0 st) \<subseteq>\<^sub>m lg \<and> rp_l1 st = l1"

definition loggable :: "int \<Rightarrow> wal_entry \<Rightarrow> bool" where
  "loggable limit e \<longleftrightarrow> we_Tier e = 0 \<and> int (length (we_Value e)) \<le> limit"

lemma replay_step:
  assumes "replay_at limit lg l1 st" and "loggable limit e"
  shows "\<exists>st'. replay_exec B clk e st = Some st' \<and> replay_at limit (log_upd e lg) l1 st'"
proof -
  let ?l0 = "rp_l0 st" and ?k = "we_Key e" and ?v = "we_Value e"
  have inv: "cache_inv ?l0" and op: "\<not> l0_closed ?l0" "l0_maxPayload ?l0 = limit"
    and sub: "l0_stored ?l0 \<subseteq>\<^sub>m lg" "rp_l1 st = l1"
    using assms(1) by (simp_all add: replay_at_def)
  consider (set) "we_Operation e = OpSet" | (del) "we_Operation e = OpDelete"
    | (other) "we_Operation e \<noteq> OpSet" "we_Operation e \<noteq> OpDelete" by blast
  then show ?thesis
  proof cases
    case set
    obtain l0' err where s: "L0_Set (clk (rp_n st)) ?k ?v 0 ?l0 = Some (l0', err)"
      using l0_set_total [OF inv] by blast
    have "cache_inv l0' \<and> l0_stored l0' \<subseteq>\<^sub>m log_upd e lg"
    proof (cases err)
      case None
      with s have s': "L0_Set (clk (rp_n st)) ?k ?v 0 ?l0 = Some (l0', None)" by simp
      have "?k \<noteq> []" "?v \<noteq> []" using L0_Set_guards [OF inv s'] by simp_all
      moreover have "cache_inv l0'" "l0_stored l0' \<subseteq>\<^sub>m (l0_stored ?l0)(?k \<mapsto> ?v)"
        using l0.set_done [OF inv s'] by simp_all
      moreover have "(l0_stored ?l0)(?k \<mapsto> ?v) \<subseteq>\<^sub>m lg(?k \<mapsto> ?v)" using sub(1) by (auto simp: map_le_def)
      ultimately show ?thesis using set map_le_trans by (fastforce simp: log_upd_def)
    next
      case (Some x)
      then have "l0' = ?l0" using s l0_set_failed [OF inv] by blast
      moreover have "?k = [] \<or> ?v = []"
        using s Some op assms(2)
        by (cases rule: L0_Set_cases [OF inv, of "clk (rp_n st)" ?k ?v 0]) (auto simp: loggable_def)
      ultimately show ?thesis using inv sub(1) set by (auto simp: log_upd_def)
    qed
    then show ?thesis
      using s set sub(2) op L0_Set_frame [OF s] assms(2)
      by (simp add: replay_exec_def apply_entry_def Let_def replay_at_def loggable_def)
  next
    case del
    obtain l0' err where s: "L0_Delete ?k ?l0 = Some (l0', err)" using l0_delete_total [OF inv] by blast
    have "cache_inv l0' \<and> l0_stored l0' \<subseteq>\<^sub>m log_upd e lg"
    proof (cases err)
      case None
      with s l0_delete_done [OF inv] have "cache_inv l0'" "l0_entry l0' = (l0_entry ?l0)(?k := None)" by blast+
      then show ?thesis using sub(1) l0_stored_del [of l0' ?l0 ?k] del
        by (auto simp: map_le_def log_upd_def OpSet_def OpDelete_def)
    next
      case (Some x)
      then have l0': "l0' = ?l0" using s l0_delete_failed [OF inv] by blast
      have "?k = [] \<or> l0_entry ?l0 ?k = None"
        using s Some op(1) by (cases rule: L0_Delete_cases [OF inv, of ?k]) auto
      then have "?k = [] \<or> l0_stored ?l0 ?k = None" by (auto simp: l0_stored_def)
      then show ?thesis using sub(1) inv l0' del
        by (auto simp: map_le_def dom_def log_upd_def OpSet_def OpDelete_def)
    qed
    then show ?thesis
      using s del sub(2) op L0_Delete_frame [OF s] assms(2)
      by (simp add: replay_exec_def apply_entry_def Let_def replay_at_def loggable_def OpSet_def OpDelete_def)
  next
    case other
    then show ?thesis using assms(1)
      by (auto simp: replay_exec_def apply_entry_def Let_def replay_at_def log_upd_def)
  qed
qed

lemma replay_run:
  "replay_at limit lg l1 st \<Longrightarrow> list_all (loggable limit) es \<Longrightarrow>
   \<exists>st'. run_events (replay_exec B clk) es st = Some st' \<and> replay_at limit (fold log_upd es lg) l1 st'"
proof (induction es arbitrary: lg st)
  case (Cons e es)
  then obtain st1 where "replay_exec B clk e st = Some st1" "replay_at limit (log_upd e lg) l1 st1"
    using replay_step [OF Cons.prems(1)] by fastforce
  then show ?case using Cons by auto
qed simp

subsection \<open>Starting on a log\<close>

text \<open>
  The configurations of the sessions: the log verified at the start by one worker, no checkpoints,
  and L0 not filled from elsewhere.
\<close>

definition replay_config :: "int \<Rightarrow> Config \<Rightarrow> bool" where
  "replay_config limit cfg \<longleftrightarrow> payload_limit cfg = limit \<and> gr_VerifyOnRecovery (tc_Replay cfg) \<and>
     gr_CheckpointPath (tc_Replay cfg) = [] \<and> gr_MaxReplayWorkers (tc_Replay cfg) = 1 \<and>
     rebuild_choice cfg = ColdStart"

lemma Tiered_New_manager:
  assumes "Tiered_New sv ne (Some cfg) d = (d1, Inr c0)"
  obtains m where "NewRecoveryManager ne (gr_WALPath (tc_Replay cfg)) (gr_CheckpointPath (tc_Replay cfg))
      (gr_MaxReplayWorkers (tc_Replay cfg)) (gr_CheckpointInterval (tc_Replay cfg)) d = (d1, Inr m)"
    "tc_recovery c0 = Some m" "tc_cfg c0 = cfg" "\<not> tc_closed c0" "\<not> tc_initializing c0" "\<not> tc_cancelled c0"
  using assms by (auto simp: Tiered_New_def split: option.splits prod.splits sum.splits)

lemma init_tiers_frame:
  "init_tiers B mk oor senv sdir c0 = (c1, None) \<Longrightarrow>
   tc_recovery c1 = tc_recovery c0 \<and> tc_cfg c1 = tc_cfg c0 \<and> tc_cancelled c1 = tc_cancelled c0"
  by (auto simp: init_tiers_def split: sum.split_asm prod.split_asm)

lemma start_prepare:
  assumes "Tiered_New sv ne (Some cfg) d = (d1, Inr c0)" and "gr_CheckpointPath (tc_Replay cfg) = []"
    and "healthy unm wt env" and "logged_disk unm wt d es" and "int (length es) < 2 ^ 64 - 1"
    and "tc_recovery c0 = Some m"
  shows "\<exists>m1. recover_prepare env m d1 = (m1, Inr es) \<and> rm_sequence m1 = 0" and "logged_disk unm wt d1 es"
    and "0 < rm_maxWorkers m" and "gr_MaxReplayWorkers (tc_Replay cfg) = 1 \<Longrightarrow> rm_maxWorkers m = 1"
proof -
  obtain bs where bs: "wd_wal d = Some bs" "scan_disk unm wt 0 0 bs empty_scan = (empty_scan\<lparr>sc_entries := es\<rparr>, None)"
    using logged_scan [OF assms(4,5)] by blast
  have new: "NewRecoveryManager ne (gr_WALPath (tc_Replay cfg)) [] (gr_MaxReplayWorkers (tc_Replay cfg))
      (gr_CheckpointInterval (tc_Replay cfg)) d = (d1, Inr m)"
    using Tiered_New_manager [OF assms(1)] assms(2,6) by (metis option.inject)
  show "\<exists>m1. recover_prepare env m d1 = (m1, Inr es) \<and> rm_sequence m1 = 0"
    using prepare_clean [OF new assms(3) bs] by auto
  show "logged_disk unm wt d1 es"
    using new_manager_shape(7) [OF new] assms(4) by (auto simp: logged_disk_def)
  show "0 < rm_maxWorkers m" by (rule new_manager_shape(1) [OF new])
  show "rm_maxWorkers m = 1" if "gr_MaxReplayWorkers (tc_Replay cfg) = 1"
    using new that by (auto simp: NewRecoveryManager_def Let_def split: if_split_asm option.split_asm)
qed

lemma init_fresh_l0:
  assumes "Tiered_New sv ne (Some cfg) d0 = (d1, Inr c0)" and "init_tiers B mk oor senv sdir c0 = (c, None)"
  shows "\<exists>l0 l1. tc_l0 c = Some l0 \<and> tc_l1 c = Some l1 \<and> replay_at (payload_limit cfg) Map.empty l1
      \<lparr>rp_l0 = l0, rp_l1 = l1, rp_n = 0\<rparr> \<and> l1_inv l1 \<and> \<not> l1_closed l1 \<and> \<not> tc_closed c \<and>
    tc_promotions c = [] \<and> (\<forall>l2. tc_l2 c = Some l2 \<longrightarrow> GetSink ''default'' l2 = None)"
proof -
  obtain l1 where l1: "tc_l1 c = Some l1" using init_tiers_built [OF assms(2)] by blast
  obtain l0 where "settled (\<lambda>db. Map.empty) (l1_maxCapacity l1) (c\<lparr>tc_initialized := True\<rparr>) l0 l1"
    using init_settled [OF assms l1] by blast
  moreover have "tc_cfg c = cfg"
    using init_tiers_frame [OF assms(2)] Tiered_New_manager [OF assms(1)] by metis
  moreover have "l1_stored (\<lambda>db. Map.empty) l1 = Map.empty" by (simp add: l1_stored_def l1_entry_def fun_eq_iff)
  ultimately show ?thesis
    by (intro exI [of _ l0] exI [of _ l1]) (simp add: settled_def running_def replay_at_def payload_limit_def)
qed

lemma prepare_open: "recover_prepare env m d = (m1, Inr es) \<Longrightarrow> \<not> rm_closed m1"
  by (auto simp: recover_prepare_def replayWAL_def split: if_split_asm sum.split_asm option.split_asm prod.split_asm)

lemma Initialize_replayed:
  assumes "Tiered_New sv ne (Some cfg) d = (d1, Inr c0)"
    and "Initialize B mk oor senv sdir clk env d1 c0 c rb None" and "replay_config limit cfg"
    and "healthy unm wt env" and "logged_disk unm wt d es" and "int (length es) < 2 ^ 64 - 1"
    and "list_all (loggable limit) es" and "tc_l1 c = Some l1" and "ShouldUseWAL l1"
    and "fold log_upd es Map.empty \<subseteq>\<^sub>m l1_stored cont l1"
  shows "\<exists>m. session_state cont (l1_maxCapacity l1) c m \<and> tc_cfg c = cfg \<and> rm_sequence m = of_nat (length es) \<and>
    \<not> rm_closed m"
proof -
  note cfg = assms(3) [unfolded replay_config_def]
  obtain m where c0: "tc_recovery c0 = Some m" "tc_cfg c0 = cfg" "\<not> tc_cancelled c0"
    using Tiered_New_manager [OF assms(1)] by metis
  have path: "gr_CheckpointPath (tc_Replay cfg) = []" using cfg by blast
  obtain m1 where prep: "recover_prepare env m d1 = (m1, Inr es)" "rm_sequence m1 = 0"
    using start_prepare(1) [OF assms(1) path assms(4-6) c0(1)] by blast
  have one: "rm_maxWorkers m = 1" using start_prepare(4) [OF assms(1) path assms(4-6) c0(1)] cfg by blast
  obtain c1 c2 warning where i: "init_tiers B mk oor senv sdir c0 = (c1, None)"
      "performRecovery B clk env d1 c1 c2 warning" "c = c2\<lparr>tc_initialized := True\<rparr>"
    using assms(2) by (rule InitializeE) (use cfg c0(2) in auto)
  note fr = init_tiers_frame [OF i(1)]
  obtain l0 x1 where t: "tc_l0 c1 = Some l0" "tc_l1 c1 = Some x1"
      "replay_at (payload_limit cfg) Map.empty x1 \<lparr>rp_l0 = l0, rp_l1 = x1, rp_n = 0\<rparr>"
      "l1_inv x1" "\<not> l1_closed x1" "\<not> tc_closed c1" "tc_promotions c1 = []"
      "\<forall>l2. tc_l2 c1 = Some l2 \<longrightarrow> GetSink ''default'' l2 = None"
    using init_fresh_l0 [OF assms(1) i(1)] by blast
  obtain m' st result err where r: "c2 = c1\<lparr>tc_recovery := Some m', tc_l0 := Some (rp_l0 st), tc_l1 := Some (rp_l1 st)\<rparr>"
      "Recover (apply_entry B clk) False env m d1 (Some \<lparr>rp_l0 = l0, rp_l1 = x1, rp_n = 0\<rparr>) m' (Some st) result err"
    using i(2) by (cases rule: performRecovery.cases) (use t(1,2) fr c0 in auto)
  obtain s duration res where s: "rreach (apply_entry B clk) False 1 es (Some \<lparr>rp_l0 = l0, rp_l1 = x1, rp_n = 0\<rparr>) s"
      "rs_phase s = MDone" "recover_finish duration es s m1 = (m', res)" "Some st = rs_app s"
    using r(2) by (cases rule: Recover.cases) (use prep(1) one in auto)
  have "Some st = run_events (replay_exec B clk) es \<lparr>rp_l0 = l0, rp_l1 = x1, rp_n = 0\<rparr>"
    unfolding s(4) app_log [OF s(1)] single_worker_order [OF s(1,2)] apply_fold ..
  then have st: "replay_at limit (fold log_upd es Map.empty) x1 st"
    using replay_run [OF t(3), of es B clk] assms(7) cfg by auto
  have l1: "rp_l1 st = l1" "x1 = l1" using assms(8) i(3) r(1) st by (simp_all add: replay_at_def)
  have "l0_stored (rp_l0 st) \<subseteq>\<^sub>m l1_stored cont l1"
    using st assms(10) map_le_trans by (auto simp: replay_at_def)
  then have "settled cont (l1_maxCapacity l1) c (rp_l0 st) l1"
    using st t fr c0 cfg l1 by (simp add: i(3) r(1) settled_def running_def replay_at_def payload_limit_def)
  moreover have "logs_to c m'" using assms(9) l1 by (simp add: logs_to_def i(3) r(1))
  moreover have "rm_sequence m' = of_nat (length es)"
  proof (cases "es = []")
    case False
    obtain ds where "map we_Sequence es = map (\<lambda>i. 1 + of_nat i) [0..<length es]"
      using assms(5) by (auto simp: logged_disk_def)
    from last_sequence [OF this False] show ?thesis using s(3) False by (auto simp: recover_finish_def Let_def)
  qed (use s(3) prep(2) in \<open>auto simp: recover_finish_def Let_def\<close>)
  moreover have "\<not> rm_closed m'"
    using prepare_open [OF prep(1)] s(3) by (auto simp: recover_finish_def Let_def split: if_split_asm)
  ultimately show ?thesis using fr c0(2) i(3) r(1) by (auto simp: session_state_def)
qed

subsection \<open>Sessions\<close>

text \<open>
  A start on the disk \<open>d\<close> an earlier process left: \<open>M\<close> is what that process had committed to L1,
  and Badger opens with it again. The result is the running cache \<open>c\<close> and the disk \<open>d1\<close>.
\<close>

inductive restart ::
    "(bytes \<Rightarrow> go_error + wal_entry) \<Rightarrow> (int \<Rightarrow> string) \<Rightarrow> ('db \<Rightarrow> contents) \<Rightarrow> int \<Rightarrow> 'db badger \<Rightarrow>
     wal_disk \<Rightarrow> (string \<rightharpoonup> bytes) \<Rightarrow> ('db, 'w) tiered_cache \<Rightarrow> wal_disk \<Rightarrow> bool"
  for unm :: "bytes \<Rightarrow> go_error + wal_entry" and wt :: "int \<Rightarrow> string" and cont :: "'db \<Rightarrow> contents"
    and limit :: int and B :: "'db badger" and d :: wal_disk and M :: "string \<rightharpoonup> bytes" where
  "Tiered_New sv ne (Some cfg) d = (d1, Inr c0) \<Longrightarrow> replay_config limit cfg \<Longrightarrow> healthy unm wt env \<Longrightarrow>
   Initialize B mk oor senv sdir clk env d1 c0 c rb None \<Longrightarrow>
   tc_l1 c = Some l1 \<Longrightarrow> ShouldUseWAL l1 \<Longrightarrow> l1_stored cont l1 = M \<Longrightarrow> roomy B (l1_maxCapacity l1) \<Longrightarrow>
   restart unm wt cont limit B d M c d1"

text \<open>The log takes every entry of the calls \<open>ys\<close>: \<open>es\<close> are the entries as they are written.\<close>

definition calls_logged ::
    "(bytes \<Rightarrow> go_error + wal_entry) \<Rightarrow> (int \<Rightarrow> string) \<Rightarrow> int \<Rightarrow> ('db, 'w) tiered_cache \<Rightarrow> wal_disk \<Rightarrow>
     (write_env \<times> tier_op) list \<Rightarrow> wal_entry list \<Rightarrow> bool" where
  "calls_logged unm wt limit c d ys es \<longleftrightarrow>
     (\<forall>(env, x) \<in> set ys. codec_ok unm env \<and> tm_mono (wv_now env) = None) \<and>
     (\<exists>m m' d'. tc_recovery c = Some m \<and> write_all wt (log_of limit ys) m d = Some (m', d', es))"

text \<open>
  The processes of a cache, one after another, each ending with a crash: the disk, the contents of
  L1, the entries logged so far, and the calls so far with their results.
\<close>

inductive sessions ::
    "(bytes \<Rightarrow> go_error + wal_entry) \<Rightarrow> (int \<Rightarrow> string) \<Rightarrow> ('db \<Rightarrow> contents) \<Rightarrow> int \<Rightarrow> 'w \<Rightarrow>
     (string \<rightharpoonup> bytes) \<Rightarrow> wal_disk \<Rightarrow> (string \<rightharpoonup> bytes) \<Rightarrow> wal_entry list \<Rightarrow> tier_op list \<Rightarrow> tier_out list \<Rightarrow> bool"
  for unm :: "bytes \<Rightarrow> go_error + wal_entry" and wt :: "int \<Rightarrow> string" and cont :: "'db \<Rightarrow> contents"
    and limit :: int and w :: 'w and M0 :: "string \<rightharpoonup> bytes" where
  new_log: "wd_wal d = Some [] \<Longrightarrow> sessions unm wt cont limit w M0 d M0 [] [] []"
| session: "sessions unm wt cont limit w M0 d M es xs outs \<Longrightarrow>
    badger_ok B cont \<Longrightarrow> updates_ok B \<Longrightarrow> restart unm wt cont limit B d M c d1 \<Longrightarrow>
    calls_logged unm wt limit c d1 ys es' \<Longrightarrow> session_run B w wt ys (c, d1) = Some ((c', d'), outs') \<Longrightarrow>
    sessions unm wt cont limit w M0 d' (tc_stored cont (c', d')) (es @ es') (xs @ map snd ys) (outs @ outs')"

lemma log_of_members:
  "(env, e) \<in> set (log_of limit ys) \<Longrightarrow> (\<exists>x. (env, x) \<in> set ys) \<and> (0 \<le> limit \<longrightarrow> loggable limit e)"
proof (induction ys)
  case (Cons y ys)
  obtain wenv x where y: "y = (wenv, x)" by fastforce
  show ?case using Cons y by (cases x) (auto simp: loggable_def split: if_split_asm)
qed simp

lemma log_of_length: "length (log_of limit ys) \<le> length ys"
proof (induction ys)
  case (Cons y ys)
  obtain wenv x where y: "y = (wenv, x)" by fastforce
  show ?case using Cons y by (cases x) auto
qed simp

lemma loggable_view: "log_view e = log_view e' \<Longrightarrow> loggable limit e = loggable limit e'"
  by (simp add: log_view_def loggable_def)

lemma loggable_written:
  assumes "write_all wt (log_of limit ys) m d = Some (m', d', es)" and "0 \<le> limit"
  shows "list_all (loggable limit) es" and "length es \<le> length ys"
proof -
  have v: "map log_view es = map (log_view \<circ> snd) (log_of limit ys)" using write_all_views [OF assms(1)] by blast
  then have "length es = length (log_of limit ys)" by (metis length_map)
  then show "length es \<le> length ys" using log_of_length [of limit ys] by simp
  have "loggable limit e" if "e \<in> set es" for e
  proof -
    have "log_view e \<in> set (map (log_view \<circ> snd) (log_of limit ys))" unfolding v [symmetric] using that by simp
    then obtain env e' where "(env, e') \<in> set (log_of limit ys)" "log_view e = log_view e'" by auto
    then show ?thesis using log_of_members assms(2) loggable_view by blast
  qed
  then show "list_all (loggable limit) es" by (simp add: list_all_iff)
qed

definition sessions_inv ::
    "(bytes \<Rightarrow> go_error + wal_entry) \<Rightarrow> (int \<Rightarrow> string) \<Rightarrow> int \<Rightarrow> (string \<rightharpoonup> bytes) \<Rightarrow> wal_disk \<Rightarrow>
     (string \<rightharpoonup> bytes) \<Rightarrow> wal_entry list \<Rightarrow> tier_op list \<Rightarrow> tier_out list \<Rightarrow> bool" where
  "sessions_inv unm wt limit M0 d M es xs outs \<longleftrightarrow>
     logged_disk unm wt d es \<and> list_all (loggable limit) es \<and> fold log_upd es Map.empty \<subseteq>\<^sub>m M \<and>
     coherent M0 xs outs \<and> length outs = length xs \<and> M \<subseteq>\<^sub>m ideal_run xs outs M0 \<and> length es \<le> length xs"

lemma restart_state:
  assumes "sessions_inv unm wt limit M0 d M es xs outs" and "restart unm wt cont limit B d M c d1"
    and "int (length es) < 2 ^ 64 - 1"
  shows "\<exists>m cap. session_state cont cap c m \<and> roomy B cap \<and> payload_limit (tc_cfg c) = limit \<and> 0 \<le> limit \<and>
    tc_recovery c = Some m \<and> rm_sequence m = of_nat (length es) \<and> \<not> rm_closed m \<and>
    logged_disk unm wt d1 es \<and> tc_stored cont (c, d1) = M"
  using assms(2)
proof (cases rule: restart.cases)
  case (1 sv ne cfg c0 env mk oor senv sdir clk rb l1)
  note inv = assms(1) [unfolded sessions_inv_def]
  have limit: "0 \<le> limit" "payload_limit cfg = limit" "gr_CheckpointPath (tc_Replay cfg) = []"
    using 1(2) by (auto simp: replay_config_def payload_limit_def)
  have sub: "fold log_upd es Map.empty \<subseteq>\<^sub>m l1_stored cont l1" using inv 1(7) by simp
  have disk: "logged_disk unm wt d es" "list_all (loggable limit) es" using inv by blast+
  obtain m where m: "session_state cont (l1_maxCapacity l1) c m" "tc_cfg c = cfg"
      "rm_sequence m = of_nat (length es)" "\<not> rm_closed m"
    using Initialize_replayed [OF 1(1,4,2,3) disk(1) assms(3) disk(2) 1(5,6) sub] by blast
  have "tc_recovery c = Some m" using m(1) by (simp add: session_state_def logs_to_def)
  moreover have "logged_disk unm wt d1 es"
    using start_prepare(2) [OF 1(1) limit(3) 1(3) disk(1) assms(3)] Tiered_New_manager [OF 1(1)] by metis
  moreover have "tc_stored cont (c, d1) = M" using 1(5,7) by (simp add: tc_stored_def)
  ultimately show ?thesis using m limit 1(8) by blast
qed

lemma session_runs:
  assumes "sessions_inv unm wt limit M0 d M es xs outs" and "badger_ok B cont" and "updates_ok B"
    and "restart unm wt cont limit B d M c d1" and "calls_logged unm wt limit c d1 ys es'"
    and "int (length (xs @ map snd ys)) < 2 ^ 64 - 1"
  shows "\<exists>c' d' outs'. session_run B w wt ys (c, d1) = Some ((c', d'), outs') \<and>
    sessions_inv unm wt limit M0 d' (tc_stored cont (c', d')) (es @ es') (xs @ map snd ys) (outs @ outs')"
proof -
  note inv = assms(1) [unfolded sessions_inv_def]
  have "int (length es) < 2 ^ 64 - 1" using inv assms(6) by simp
  from restart_state [OF assms(1,4) this] obtain m cap where m: "session_state cont cap c m" "roomy B cap"
      "payload_limit (tc_cfg c) = limit" "0 \<le> limit" "tc_recovery c = Some m"
      "rm_sequence m = of_nat (length es)" "logged_disk unm wt d1 es" "tc_stored cont (c, d1) = M"
    by blast
  obtain m' d' where w: "write_all wt (log_of limit ys) m d1 = Some (m', d', es')"
    using assms(5) m(5) by (auto simp: calls_logged_def)
  obtain c' outs' where r: "session_run B w wt ys (c, d1) = Some ((c', d'), outs')" "length outs' = length ys"
      "coherent (ideal_run xs outs M0) (map snd ys) outs'"
      "tc_stored cont (c', d') \<subseteq>\<^sub>m ideal_run (map snd ys) outs' (ideal_run xs outs M0)"
      "fold log_upd es' (fold log_upd es Map.empty) \<subseteq>\<^sub>m tc_stored cont (c', d')"
    using session_coherent [OF assms(2,3) m(2,1), of wt ys d1 m' d' es' "fold log_upd es Map.empty"
        "ideal_run xs outs M0" w] w m(3,8) inv by auto
  have envs: "\<forall>(env, e) \<in> set (log_of limit ys). codec_ok unm env"
      "\<forall>(env, e) \<in> set (log_of limit ys). tm_mono (wv_now env) = None"
    using assms(5) log_of_members [of _ _ limit ys] by (fastforce simp: calls_logged_def)+
  have "int (length es + length (log_of limit ys)) < 2 ^ 64 - 1"
    using inv assms(6) log_of_length [of limit ys] by simp
  then have "logged_disk unm wt d' (es @ es')" using logged_disk_write [OF m(7,6) w envs] by blast
  moreover have "coherent M0 (xs @ map snd ys) (outs @ outs')" using inv r(3) coherent_append by blast
  moreover have "ideal_run (xs @ map snd ys) (outs @ outs') M0 = ideal_run (map snd ys) outs' (ideal_run xs outs M0)"
    using inv by (intro ideal_run_append) simp
  moreover note loggable_written [OF w m(4)]
  ultimately show ?thesis using r inv unfolding sessions_inv_def by (intro exI [of _ c'] exI [of _ d']) auto
qed

lemma sessions_kept:
  assumes "sessions unm wt cont limit w M0 d M es xs outs" and "int (length xs) < 2 ^ 64 - 1"
  shows "sessions_inv unm wt limit M0 d M es xs outs"
  using assms
proof (induction rule: sessions.induct)
  case (new_log d)
  then show ?case by (simp add: sessions_inv_def logged_disk_empty)
next
  case (session d M es xs outs B c d1 ys es' c' d' outs')
  have "sessions_inv unm wt limit M0 d M es xs outs" using session.IH session.prems by simp
  from session_runs [OF this session.hyps(2-5) session.prems, of w] show ?case using session.hyps(6) by auto
qed


subsection \<open>Starts that never end\<close>

text \<open>The calls whose logged entry fails to apply whatever was replayed before it.\<close>

fun refused_call :: "wal_entry list \<Rightarrow> tier_op \<Rightarrow> bool" where
  "refused_call es (TGet now k) \<longleftrightarrow> False"
| "refused_call es (TSet now k v ttl) \<longleftrightarrow> k = [] \<or> v = []"
| "refused_call es (TDel k) \<longleftrightarrow> k = [] \<or> (\<forall>e \<in> set es. we_Operation e = OpSet \<longrightarrow> we_Key e \<noteq> k)"

definition refused_entry :: "wal_entry list \<Rightarrow> wal_entry \<Rightarrow> bool" where
  "refused_entry es e \<longleftrightarrow> we_Tier e = 0 \<and>
     (we_Operation e = OpSet \<and> (we_Key e = [] \<or> we_Value e = []) \<or>
      we_Operation e = OpDelete \<and>
        (we_Key e = [] \<or> (\<forall>x \<in> set es. we_Operation x = OpSet \<longrightarrow> we_Key x \<noteq> we_Key e)))"

lemma fold_log_upd_absent:
  "\<forall>x \<in> set es. we_Operation x = OpSet \<longrightarrow> we_Key x \<noteq> k \<Longrightarrow> m k = None \<Longrightarrow> fold log_upd es m k = None"
  by (induction es arbitrary: m) (auto simp: log_upd_def)

lemma apply_refused:
  assumes "replay_at limit (fold log_upd ps Map.empty) l1 st" and "refused_entry es e" and "set ps \<subseteq> set es"
  shows "snd (apply_entry B clk e (Some st)) \<noteq> None"
proof -
  let ?l0 = "rp_l0 st" and ?k = "we_Key e"
  have inv: "cache_inv ?l0" and sub: "l0_stored ?l0 \<subseteq>\<^sub>m fold log_upd ps Map.empty"
    using assms(1) by (simp_all add: replay_at_def)
  have tier: "we_Tier e = 0" using assms(2) by (simp add: refused_entry_def)
  obtain l0' err where s: "L0_Set (clk (rp_n st)) ?k (we_Value e) 0 ?l0 = Some (l0', err)"
    using l0_set_total [OF inv] by blast
  obtain l0'' err' where d: "L0_Delete ?k ?l0 = Some (l0'', err')" using l0_delete_total [OF inv] by blast
  show ?thesis
  proof (cases "we_Operation e = OpSet")
    case True
    then have "?k = [] \<or> we_Value e = []" using assms(2) by (auto simp: refused_entry_def OpSet_def OpDelete_def)
    moreover have "err = None \<Longrightarrow> ?k \<noteq> [] \<and> we_Value e \<noteq> []"
      using L0_Set_guards [OF inv, of "clk (rp_n st)" ?k "we_Value e" 0 l0'] s by simp
    ultimately have "err \<noteq> None" by blast
    then show ?thesis using s True tier by (simp add: apply_entry_def Let_def)
  next
    case False
    then have del: "we_Operation e = OpDelete" and
      k: "?k = [] \<or> (\<forall>x \<in> set ps. we_Operation x = OpSet \<longrightarrow> we_Key x \<noteq> ?k)"
      using assms(2,3) by (auto simp: refused_entry_def)
    have "err' \<noteq> None"
    proof
      assume "err' = None"
      with d have "l0_entry ?l0 ?k \<noteq> None" by (cases rule: L0_Delete_cases [OF inv, of ?k]) auto
      moreover have "?k \<noteq> []" using d \<open>err' = None\<close> by (auto simp: L0_Delete_def split: if_split_asm)
      ultimately have "?k \<noteq> []" "l0_stored ?l0 ?k \<noteq> None" by (auto simp: l0_stored_def)
      then have "fold log_upd ps Map.empty ?k \<noteq> None" using sub map_le_implies_dom_le by blast
      then show False using fold_log_upd_absent [of ps ?k Map.empty] k \<open>?k \<noteq> []\<close> by auto
    qed
    then show ?thesis using d del tier by (simp add: apply_entry_def Let_def OpSet_def OpDelete_def)
  qed
qed

lemma refused_entry_blocks:
  assumes "logged_disk unm wt d es" and "int (length es) < 2 ^ 64 - 1" and "list_all (loggable limit) es"
    and "j < length es" and "9 \<le> j" and "refused_entry es (es ! j)"
    and "Tiered_New sv ne (Some cfg) d = (d1, Inr c0)" and "payload_limit cfg = limit"
    and "gr_VerifyOnRecovery (tc_Replay cfg)" and "gr_CheckpointPath (tc_Replay cfg) = []"
    and "healthy unm wt env"
  shows "\<not> Initialize B mk oor senv sdir clk env d1 c0 c rb None"
proof
  assume init: "Initialize B mk oor senv sdir clk env d1 c0 c rb None"
  obtain m where c0: "tc_recovery c0 = Some m" "tc_cfg c0 = cfg" "\<not> tc_cancelled c0"
    using Tiered_New_manager [OF assms(7)] by metis
  obtain m1 where prep: "recover_prepare env m d1 = (m1, Inr es)"
    using start_prepare(1) [OF assms(7,10,11,1,2) c0(1)] by blast
  have n: "0 < nat (rm_maxWorkers m)" using start_prepare(3) [OF assms(7,10,11,1,2) c0(1)] by simp
  obtain c1 c2 warning where i: "init_tiers B mk oor senv sdir c0 = (c1, None)"
      "performRecovery B clk env d1 c1 c2 warning"
    using init by (rule InitializeE) (use assms(9) c0(2) in auto)
  obtain l0 l1 where t: "tc_l0 c1 = Some l0" "tc_l1 c1 = Some l1"
      "replay_at limit Map.empty l1 \<lparr>rp_l0 = l0, rp_l1 = l1, rp_n = 0\<rparr>"
    using init_fresh_l0 [OF assms(7) i(1)] assms(8) by blast
  let ?st = "\<lparr>rp_l0 = l0, rp_l1 = l1, rp_n = 0\<rparr>" and ?ap = "apply_entry B clk"
  obtain s where s: "rreach ?ap False (nat (rm_maxWorkers m)) es (Some ?st) s" "rs_phase s = MDone"
    using i(2)
  proof (cases rule: performRecovery.cases)
    case (1 m' x0 x1 m'' st result err)
    have "Recover ?ap False env m d1 (Some ?st) m'' (Some st) result err"
      using 1(3-6) t(1,2) init_tiers_frame [OF i(1)] c0 by simp
    then show ?thesis by (cases rule: Recover.cases) (use prep that in auto)
  qed
  have "snd (?ap (es ! j) (fold (\<lambda>e a. fst (?ap e a)) ps (Some ?st))) \<noteq> None" if ps: "set ps \<subseteq> set es" for ps
  proof -
    have "list_all (loggable limit) ps" using assms(3) ps by (auto simp: list_all_iff)
    from replay_run [OF t(3) this] obtain st where st: "run_events (replay_exec B clk) ps ?st = Some st"
        "replay_at limit (fold log_upd ps Map.empty) l1 st" by blast
    show ?thesis unfolding apply_fold st(1) by (rule apply_refused [OF st(2) assms(6) ps])
  qed
  from jammed_recovery [where ap = ?ap and app = "Some ?st", OF n assms(4,5) this] s show False by blast
qed

lemma log_of_append: "log_of limit (us @ vs) = log_of limit us @ log_of limit vs"
  by (induction limit us rule: log_of.induct) simp_all

lemma refused_call_entry:
  assumes "refused_call es x" and "op_logs limit x = e # rest"
  shows "rest = [] \<and> refused_entry es e"
  using assms by (cases x) (auto simp: refused_entry_def split: if_split_asm)

lemma refused_entry_view: "log_view e = log_view e' \<Longrightarrow> refused_entry es e = refused_entry es e'"
  by (simp add: log_view_def refused_entry_def)


subsection \<open>A cache that starts on any short log\<close>

text \<open>A recovery of at most five entries has a run to its end, so the start succeeds.\<close>

lemma short_log_start:
  assumes "Tiered_New sv ne (Some cfg) d = (d1, Inr c0)" and "init_tiers B mk oor senv sdir c0 = (c1, None)"
    and "replay_config limit cfg" and "healthy unm wt env" and "logged_disk unm wt d es"
    and "length es \<le> 5" and "list_all (loggable limit) es" and "tc_l1 c1 = Some l1"
  shows "\<exists>c rb. Initialize B mk oor senv sdir clk env d1 c0 c rb None \<and> tc_l1 c = Some l1"
proof -
  note cfg = assms(3) [unfolded replay_config_def]
  have path: "gr_CheckpointPath (tc_Replay cfg) = []" using cfg by blast
  have bound: "int (length es) < 2 ^ 64 - 1" using assms(6) by simp
  obtain m where c0: "tc_recovery c0 = Some m" "tc_cfg c0 = cfg" "\<not> tc_cancelled c0" "\<not> tc_closed c0"
      "\<not> tc_initializing c0"
    using Tiered_New_manager [OF assms(1)] by metis
  note fr = init_tiers_frame [OF assms(2)]
  obtain m1 where prep: "recover_prepare env m d1 = (m1, Inr es)"
    using start_prepare(1) [OF assms(1) path assms(4,5) bound c0(1)] by blast
  have n: "0 < nat (rm_maxWorkers m)" using start_prepare(3) [OF assms(1) path assms(4,5) bound c0(1)] by simp
  obtain l0 where t: "tc_l0 c1 = Some l0" "replay_at limit Map.empty l1 \<lparr>rp_l0 = l0, rp_l1 = l1, rp_n = 0\<rparr>"
    using init_fresh_l0 [OF assms(1,2)] assms(8) cfg by auto
  let ?ap = "apply_entry B clk" and ?st = "\<lparr>rp_l0 = l0, rp_l1 = l1, rp_n = 0\<rparr>"
  have "(\<Sum>e\<leftarrow>es. may_fail ?ap e) \<le> length es" by (induction es) (simp_all add: may_fail_def)
  then have start: "short_run ?ap (nat (rm_maxWorkers m)) es (rinit (nat (rm_maxWorkers m)) es (Some ?st))"
    using short_init [OF n, of es ?ap] assms(6) by fastforce
  obtain s where s: "rreach ?ap False (nat (rm_maxWorkers m)) es (Some ?st) s" "rs_phase s = MDone"
    using short.ends [OF start] by blast
  have "list_all (loggable limit) (rs_applied s)"
    using assms(7) applied_set [OF s(1)] by (auto simp: list_all_iff)
  from replay_run [OF t(2) this, of B clk] obtain st where
      run: "run_events (replay_exec B clk) (rs_applied s) ?st = Some st" and "rp_l1 st = l1"
    by (auto simp: replay_at_def)
  then have st: "rs_app s = Some st" "rp_l1 st = l1"
    using app_log [OF s(1)] unfolding apply_fold by simp_all
  obtain m2 res where "recover_finish 0 es s m1 = (m2, res)" by fastforce
  then have "Recover ?ap False env m d1 (Some ?st) m2 (Some st) (Some res) None"
    using Recover.replayed [OF prep s] st(1) by metis
  then have "performRecovery B clk env d1 c1 (c1\<lparr>tc_recovery := Some m2, tc_l0 := Some (rp_l0 st),
      tc_l1 := Some (rp_l1 st)\<rparr>) (recovery_error (Some res) None)"
    using fr c0 t(1) assms(8) by (intro performRecovery.intros) simp_all
  from Initialize.recovered [OF c0(4,5) assms(2) _ this] show ?thesis using cfg c0(2) st(2) by fastforce
qed

text \<open>For the witnesses: a configuration with the log on, and a Badger that opens with given contents.\<close>

definition log_config :: Config where
  "log_config = (DefaultConfig 4)\<lparr>cfg_TieredCache := (cfg_TieredCache (DefaultConfig 4))
     \<lparr>tcc_L0 := (tc_L0cfg (DefaultConfig 4))\<lparr>g0_RebuildFrom := RebuildFromNone\<rparr>,
      tcc_L1 := (default_L1 4)\<lparr>g1_SyncMode := ''periodic''\<rparr>,
      tcc_Replay := default_Replay\<lparr>gr_MaxReplayWorkers := 1, gr_EnableCheckpoint := False,
        gr_CheckpointPath := []\<rparr>\<rparr>\<rparr>"

definition kept_badger :: "mem_db \<Rightarrow> mem_db badger" where
  "kept_badger db = light_badger\<lparr>bd_Open := \<lambda>o'. Inr db\<rparr>"

lemma log_config_valid: "Validate (\<lambda>v. []) (Some log_config) = None"
  "g1_SyncMode (tc_L1cfg log_config) \<noteq> ''disabled''" "replay_config (payload_limit log_config) log_config"
proof -
  have "config_wf (DefaultConfig 4)" using default_config_wf [of 4] by simp
  then have "config_wf log_config"
    by (simp add: config_wf_def log_config_def L0_wf_def L1_wf_def Replay_wf_def DefaultConfig_def default_L1_def
        default_Replay_def)
  then show "Validate (\<lambda>v. []) (Some log_config) = None" by (simp add: Validate_shape)
qed (simp_all add: log_config_def replay_config_def rebuild_choice_def default_Replay_def
    RebuildFromNone_def RebuildFromL1_def RebuildFromSnapshot_def)

lemma opened_with_kept_db:
  assumes "open_shards B mk cfg mode is acc = Inr shards" and "\<forall>o' x. bd_Open B o' = Inr x \<longrightarrow> x = db"
    and "\<forall>s \<in> set acc. bs_db s = db"
  shows "\<forall>s \<in> set shards. bs_db s = db"
  using assms by (induction B mk cfg mode "is" acc rule: open_shards.induct) (auto split: option.split_asm sum.split_asm)

lemma kept_badger_ok: "badger_ok (kept_badger db) map_of" "updates_ok (kept_badger db)"
  by (auto simp: badger_ok_def updates_ok_def kept_badger_def light_badger_def mem_badger_def
      split: option.splits badger_write.splits)

lemma log_config_starts:
  fixes es :: "wal_entry list"
  assumes "logged_disk unm wt d es" and "length es \<le> 5" and "list_all (loggable (payload_limit log_config)) es"
    and "healthy unm wt env"
  shows "\<exists>c d1. restart unm wt map_of (payload_limit log_config) (kept_badger db) d
    (\<lambda>k. map_option fst (map_of db k)) (c :: (mem_db, unit) tiered_cache) d1"
proof -
  let ?ne = "\<lparr>ne_mkdir_wal = None, ne_mkdir_checkpoint = None, ne_open = None\<rparr>" and ?B = "kept_badger db"
  have mem: "\<forall>o'. \<not> bo_InMemory o' \<longrightarrow> (\<exists>db. bd_Open ?B o' = Inr db)"
      "\<forall>p. \<not> bo_InMemory (bd_DefaultOptions ?B p)"
    by (simp_all add: kept_badger_def light_badger_def mem_badger_def)
  obtain d1 c0 c1 l0 l1 where b: "Tiered_New (\<lambda>v. []) ?ne (Some log_config) d = (d1, Inr (c0 :: (mem_db, unit) tiered_cache))"
      "init_tiers ?B (\<lambda>p. None) (\<lambda>x. 1) undefined [] c0 = (c1, None)"
      "running (c1\<lparr>tc_initialized := True\<rparr>) l0 l1"
      "L1_New ?B (\<lambda>p. None) (\<lambda>x. 1) (Some (l1_config_of log_config)) = Inr l1"
    using config_builds [OF log_config_valid(1,2) _ _ _ _ mem, of ?ne "\<lambda>p. None" d "\<lambda>x. 1" undefined "[]"]
    by fastforce
  have l1: "tc_l1 c1 = Some l1" using b(3) by (simp add: running_def)
  have shape: "open_shards ?B (\<lambda>p. None) (l1_config_of log_config) (l1_mode (l1_config_of log_config))
        [0..<unat (l1_count (l1_config_of log_config))] [] = Inr (l1_shards l1)"
      "l1_syncMode l1 = l1_mode (l1_config_of log_config)"
      "l1_maxCapacity l1 = f64_to_u64 (\<lambda>x. 1) (gb_bytes (c1_MaxCapacityGB (l1_config_of log_config)))"
      "l1_walEnabled l1 = c1_WALEnabled (l1_config_of log_config)"
    using b(4) by (cases rule: L1_New_cases [of ?B "\<lambda>p. None" "\<lambda>x. 1" "l1_config_of log_config"]; simp)+
  have "f64_to_u64 (\<lambda>x. 1) (gb_bytes (c1_MaxCapacityGB (l1_config_of log_config))) \<noteq> 0" by code_simp
  then have "roomy ?B (l1_maxCapacity l1)"
    by (simp add: shape(3) roomy_def DiskUsage_def kept_badger_def light_badger_def word_gt_0)
  moreover have "ShouldUseWAL l1"
    by (simp add: ShouldUseWAL_def shape(2,4) l1_mode_def l1_config_of_def log_config_def default_L1_def)
  moreover have "l1_stored map_of l1 = (\<lambda>k. map_option fst (map_of db k))"
  proof -
    have "\<forall>s \<in> set (l1_shards l1). bs_db s = db"
      by (rule opened_with_kept_db [OF shape(1)]) (simp_all add: kept_badger_def)
    moreover have "l1_index (l1_shardCount l1) k < length (l1_shards l1)" for k
      using L1_New_inv [OF b(4)] by (simp add: l1_inv_def l1_index_less)
    ultimately show ?thesis by (simp add: fun_eq_iff l1_stored_def l1_entry_def)
  qed
  moreover obtain c rb where "Initialize ?B (\<lambda>p. None) (\<lambda>x. 1) undefined [] (\<lambda>n. at_sec 0) env d1 c0 c rb None"
      "tc_l1 c = Some l1"
    using short_log_start [OF b(1,2) log_config_valid(3) assms(4,1-3) l1] by blast
  ultimately show ?thesis using restart.intros [OF b(1) log_config_valid(3) assms(4)] by blast
qed

lemma demo_healthy: "healthy demo_unmarshal demo_wt demo_env"
  by (simp add: healthy_def demo_env_def)

lemma demo_first_start:
  "\<exists>c d1. restart demo_unmarshal demo_wt map_of (payload_limit log_config) (kept_badger []) empty_disk Map.empty
    (c :: (mem_db, unit) tiered_cache) d1"
proof -
  have "logged_disk demo_unmarshal demo_wt empty_disk []"
    by (rule logged_disk_empty) (simp add: empty_disk_def)
  from log_config_starts [OF this _ _ demo_healthy, of "[]"] show ?thesis by simp
qed


text \<open>A codec that knows the deletes of one key.\<close>

definition delete_at :: "u64 \<Rightarrow> wal_entry" where
  "delete_at n = stamp_entry demo_wt demo_now n (log_entry OpDelete ''k'' [])"

definition delete_marshal :: "wal_entry \<Rightarrow> go_error + bytes" where
  "delete_marshal e =
     (if e = delete_at (we_Sequence e) \<and> we_Sequence e < 256 then Inr [ucast (we_Sequence e)]
      else Inl (Errorf ''bad'' None))"

definition delete_unmarshal :: "bytes \<Rightarrow> go_error + wal_entry" where
  "delete_unmarshal bs = Inr (delete_at (ucast (hd bs)))"

definition delete_env :: write_env where
  "delete_env = \<lparr>wv_now = demo_now, wv_marshal = delete_marshal, wv_write = None\<rparr>"

lemma delete_codec: "codec_ok delete_unmarshal delete_env" "tm_mono (wv_now delete_env) = None"
proof -
  have "ucast (ucast n :: byte) = n" if "n < 256" for n :: u64
  proof -
    have "uint n < 2 ^ 8" using that by (simp add: word_less_def)
    then have "uint (ucast (ucast n :: byte) :: u64) = uint n"
      by (simp add: unsigned_ucast_eq unsigned_take_bit_eq take_bit_int_eq_self)
    then show ?thesis by (simp only: word_uint_eq_iff)
  qed
  moreover have "json_view (delete_at n) = delete_at n" for n
    by (simp add: json_view_id delete_at_def demo_now_def)
  ultimately have "delete_unmarshal data = Inr (json_view e) \<and> length data \<le> MaxWALEntrySize"
    if "delete_marshal e = Inr data" for e data
    using that by (auto simp: delete_marshal_def delete_unmarshal_def MaxWALEntrySize_def split: if_split_asm) metis
  then show "codec_ok delete_unmarshal delete_env" by (simp add: codec_ok_def delete_env_def)
  show "tm_mono (wv_now delete_env) = None" by (simp add: delete_env_def demo_now_def)
qed

lemma delete_writes:
  "\<not> rm_closed m \<Longrightarrow> unat (rm_sequence m) + n < 256 \<Longrightarrow>
   \<exists>m' d' es. write_all demo_wt (replicate n (delete_env, log_entry OpDelete ''k'' [])) m d = Some (m', d', es)"
proof (induction n arbitrary: m d)
  case (Suc n)
  let ?m = "m\<lparr>rm_sequence := rm_sequence m + 1\<rparr>"
  have seq: "unat (rm_sequence m + 1) = Suc (unat (rm_sequence m))"
    using Suc.prems(2) by (simp add: unat_word_ariths)
  then have "rm_sequence m + 1 < 256" using Suc.prems(2) by (simp add: word_less_nat_alt)
  then obtain d1 b where "WAL_Write demo_wt delete_env (log_entry OpDelete ''k'' []) m d =
      (?m, d1, delete_at (rm_sequence m + 1), b, None)"
    using Suc.prems(1)
    by (simp add: WAL_Write_def Let_def encodeEntry_def delete_env_def delete_marshal_def delete_at_def
        stamp_entry_def)
  moreover obtain m' d' es where
      "write_all demo_wt (replicate n (delete_env, log_entry OpDelete ''k'' [])) ?m d1 = Some (m', d', es)"
    using Suc.IH [of ?m d1] Suc.prems seq by auto
  ultimately show ?case by simp
qed simp


end
