(* ===== verification/Prewarm.thy ===== *)
theory Prewarm
  imports Tiered
begin

text \<open>
  The pre-warming of L0 from L1 (\<^verbatim>\<open>preWarmL0\<close> of \<^verbatim>\<open>pkg/tieredcache/tieredcache.go\<close>): the entries
  collected from L1 are sent over a channel to worker goroutines that store them in L0 and report
  a failing store on a second channel, which is read only after every worker has ended. As in
  \<open>Recovery\<close>, a step is one channel operation or one call of L0, and a step that would block is
  not enabled. The collecting is done before the first step; in the code it overlaps with the
  stores, which do not touch L1.
\<close>

type_synonym l1Entry = "string \<times> bytes"

datatype pworker = PIdle | PHold l1Entry | PSend go_error | PDone

record prewarm =
  pw_todo :: "l1Entry list"
  pw_chan :: "l1Entry list"
  pw_closed :: bool
  pw_results :: "go_error list"
  pw_workers :: "pworker list"
  pw_l0 :: l0_cache
  pw_finished :: bool

definition pinit :: "nat \<Rightarrow> l1Entry list \<Rightarrow> l0_cache \<Rightarrow> prewarm" where
  "pinit n es l0 = \<lparr>pw_todo = es, pw_chan = [], pw_closed = False, pw_results = [],
     pw_workers = replicate n PIdle, pw_l0 = l0, pw_finished = False\<rparr>"

text \<open>
  \<open>cap\<close> is the buffer of the entry channel (\<^verbatim>\<open>batchSize\<close>), \<open>n\<close> that of the result channel (the
  number of workers). A send hands the entry to a waiting worker or puts it in the buffer.
\<close>

inductive pstep :: "nat \<Rightarrow> nat \<Rightarrow> prewarm \<Rightarrow> prewarm \<Rightarrow> bool" for cap :: nat and n :: nat where
  send: "pw_todo s = e # es \<Longrightarrow> length (pw_chan s) < cap \<Longrightarrow>
    pstep cap n s (s\<lparr>pw_todo := es, pw_chan := pw_chan s @ [e]\<rparr>)"
| hand: "pw_todo s = e # es \<Longrightarrow> pw_chan s = [] \<Longrightarrow> i < length (pw_workers s) \<Longrightarrow>
    pw_workers s ! i = PIdle \<Longrightarrow>
    pstep cap n s (s\<lparr>pw_todo := es, pw_workers := (pw_workers s)[i := PHold e]\<rparr>)"
| close: "pw_todo s = [] \<Longrightarrow> \<not> pw_closed s \<Longrightarrow> pstep cap n s (s\<lparr>pw_closed := True\<rparr>)"
| take_entry: "i < length (pw_workers s) \<Longrightarrow> pw_workers s ! i = PIdle \<Longrightarrow> pw_chan s = e # es \<Longrightarrow>
    pstep cap n s (s\<lparr>pw_chan := es, pw_workers := (pw_workers s)[i := PHold e]\<rparr>)"
| store: "i < length (pw_workers s) \<Longrightarrow> pw_workers s ! i = PHold e \<Longrightarrow>
    L0_Set now (fst e) (snd e) 0 (pw_l0 s) = Some (l0', None) \<Longrightarrow>
    pstep cap n s (s\<lparr>pw_l0 := l0', pw_workers := (pw_workers s)[i := PIdle]\<rparr>)"
| refuse: "i < length (pw_workers s) \<Longrightarrow> pw_workers s ! i = PHold e \<Longrightarrow>
    L0_Set now (fst e) (snd e) 0 (pw_l0 s) = Some (l0', Some err) \<Longrightarrow>
    pstep cap n s (s\<lparr>pw_l0 := l0', pw_workers := (pw_workers s)[i := PSend err]\<rparr>)"
| report: "i < length (pw_workers s) \<Longrightarrow> pw_workers s ! i = PSend err \<Longrightarrow> length (pw_results s) < n \<Longrightarrow>
    pstep cap n s (s\<lparr>pw_results := pw_results s @ [err], pw_workers := (pw_workers s)[i := PIdle]\<rparr>)"
| exit: "i < length (pw_workers s) \<Longrightarrow> pw_workers s ! i = PIdle \<Longrightarrow> pw_chan s = [] \<Longrightarrow> pw_closed s \<Longrightarrow>
    pstep cap n s (s\<lparr>pw_workers := (pw_workers s)[i := PDone]\<rparr>)"
| finish: "pw_closed s \<Longrightarrow> \<not> pw_finished s \<Longrightarrow> list_all (\<lambda>w. w = PDone) (pw_workers s) \<Longrightarrow>
    pstep cap n s (s\<lparr>pw_finished := True\<rparr>)"

abbreviation preach :: "nat \<Rightarrow> nat \<Rightarrow> l1Entry list \<Rightarrow> l0_cache \<Rightarrow> prewarm \<Rightarrow> bool" where
  "preach cap n es l0 s \<equiv> (pstep cap n)\<^sup>*\<^sup>* (pinit n es l0) s"

text \<open>
  \<^verbatim>\<open>preWarmL0\<close>: the results, its return value (always nil) and the printed messages apart, is the
  L0 it leaves. A negative channel size panics, so it has no run then.
\<close>

inductive preWarmL0 ::
    "'db badger \<Rightarrow> (f64 \<Rightarrow> u64) \<Rightarrow> go_time \<Rightarrow> (nat \<Rightarrow> u64) \<Rightarrow> ('db, 'w) tiered_cache \<Rightarrow>
     ('db, 'w) tiered_cache \<Rightarrow> bool"
  for B :: "'db badger" and oor :: "f64 \<Rightarrow> u64" and now :: go_time and alloc :: "nat \<Rightarrow> u64" where
  missing: "tc_l0 c = None \<or> tc_l1 c = None \<Longrightarrow> preWarmL0 B oor now alloc c c"
| filled: "tc_l0 c = Some l0 \<Longrightarrow> tc_l1 c = Some l1 \<Longrightarrow>
    0 \<le> gr_PreWarmWorkers (tc_Replay (tc_cfg c)) \<Longrightarrow> 0 \<le> gr_PreWarmBatchSize (tc_Replay (tc_cfg c)) \<Longrightarrow>
    prewarm_collect B now l1 alloc (prewarm_limit oor (tc_cfg c)) 0 NewIterator [] 0 = Some (entries, it) \<Longrightarrow>
    preach (nat (gr_PreWarmBatchSize (tc_Replay (tc_cfg c)))) (nat (gr_PreWarmWorkers (tc_Replay (tc_cfg c))))
      entries l0 s \<Longrightarrow> pw_finished s \<Longrightarrow>
    preWarmL0 B oor now alloc c (c\<lparr>tc_l0 := Some (pw_l0 s)\<rparr>)"

subsection \<open>Every run ends\<close>

fun pworker_weight :: "pworker \<Rightarrow> nat" where
  "pworker_weight PIdle = 1"
| "pworker_weight (PHold e) = 3"
| "pworker_weight (PSend err) = 2"
| "pworker_weight PDone = 0"

definition pmeasure :: "prewarm \<Rightarrow> nat" where
  "pmeasure s = 4 * length (pw_todo s) + 3 * length (pw_chan s) + (if pw_closed s then 0 else 1) +
     (if pw_finished s then 0 else 1) + (\<Sum>w\<leftarrow>pw_workers s. pworker_weight w)"

lemma pworker_sum:
  fixes ws :: "pworker list" and f :: "pworker \<Rightarrow> nat"
  assumes "i < length ws"
  shows "f (ws ! i) \<le> (\<Sum>w\<leftarrow>ws. f w)"
    and "(\<Sum>w\<leftarrow>ws[i := w']. f w) = (\<Sum>w\<leftarrow>ws. f w) + f w' - f (ws ! i)"
  using assms sum_list_update_add [OF assms, of f w'] by (auto intro: member_le_sum_list)

lemma pstep_measure: "pstep cap n s s' \<Longrightarrow> pmeasure s' < pmeasure s"
  by (induction rule: pstep.induct; (frule pworker_sum(1) [where f = pworker_weight])?;
      simp add: pmeasure_def pworker_sum(2))

end
