(* ===== verification/Prewarm_Props.thy ===== *)
theory Prewarm_Props
  imports Prewarm Tiered_Props Protocol
begin

text \<open>
  When pre-warming ends: the result channel has room for one failing store per worker, so it ends
  exactly when at most that many entries are refused by L0. An invariant accounts for every
  refused entry: still to send, in the channel, held by a worker, or reported.
\<close>

definition refused :: "int \<Rightarrow> l1Entry \<Rightarrow> bool" where
  "refused p e \<longleftrightarrow> fst e = [] \<or> snd e = [] \<or> p < int (length (snd e))"

definition refusals :: "int \<Rightarrow> l1Entry list \<Rightarrow> nat" where
  "refusals p es = length (filter (refused p) es)"

fun pworker_load :: "int \<Rightarrow> pworker \<Rightarrow> nat" where
  "pworker_load p (PHold e) = (if refused p e then 1 else 0)"
| "pworker_load p (PSend err) = 1"
| "pworker_load p w = 0"

lemma refusals_simps [simp]:
  "refusals p [] = 0" "refusals p (e # es) = (if refused p e then 1 else 0) + refusals p es"
  "refusals p (es @ fs) = refusals p es + refusals p fs"
  by (simp_all add: refusals_def)

lemma set_outcome:
  assumes "cache_inv l0" and "\<not> l0_closed l0" and "L0_Set now (fst e) (snd e) 0 l0 = Some (l0', r)"
  shows "cache_inv l0'" and "\<not> l0_closed l0'" and "l0_maxPayload l0' = l0_maxPayload l0"
    and "r = None \<longleftrightarrow> \<not> refused (l0_maxPayload l0) e"
proof -
  have "cache_inv l0' \<and> (r = None \<longleftrightarrow> \<not> refused (l0_maxPayload l0) e)"
    using assms
    by (cases rule: L0_Set_cases [OF assms(1), of now "fst e" "snd e" 0]) (auto simp: refused_def)
  then show "cache_inv l0'" "r = None \<longleftrightarrow> \<not> refused (l0_maxPayload l0) e" by blast+
  show "\<not> l0_closed l0'" "l0_maxPayload l0' = l0_maxPayload l0"
    using L0_Set_frame [OF assms(3)] assms(2) by simp_all
qed

definition pinv :: "nat \<Rightarrow> int \<Rightarrow> l1Entry list \<Rightarrow> prewarm \<Rightarrow> bool" where
  "pinv n p es s \<longleftrightarrow>
     length (pw_workers s) = n \<and> length (pw_results s) \<le> n \<and>
     cache_inv (pw_l0 s) \<and> \<not> l0_closed (pw_l0 s) \<and> l0_maxPayload (pw_l0 s) = p \<and>
     refusals p (pw_todo s) + refusals p (pw_chan s) + (\<Sum>w\<leftarrow>pw_workers s. pworker_load p w) +
       length (pw_results s) = refusals p es \<and>
     (pw_closed s \<longrightarrow> pw_todo s = []) \<and>
     (PDone \<in> set (pw_workers s) \<longrightarrow> pw_closed s \<and> pw_chan s = []) \<and>
     (pw_finished s \<longrightarrow> pw_closed s \<and> (\<forall>w \<in> set (pw_workers s). w = PDone))"

lemma pinv_init:
  assumes "cache_inv l0" and "\<not> l0_closed l0"
  shows "pinv n (l0_maxPayload l0) es (pinit n es l0)"
  using assms by (simp add: pinv_def pinit_def sum_list_replicate)

lemma done_update: "PDone \<in> set (ws[i := w]) \<Longrightarrow> w \<noteq> PDone \<Longrightarrow> PDone \<in> set ws"
  by (metis set_update_other)

lemma not_finished:
  "pinv n p es s \<Longrightarrow> i < length (pw_workers s) \<Longrightarrow> pw_workers s ! i \<noteq> PDone \<Longrightarrow> \<not> pw_finished s"
  by (auto simp: pinv_def)

lemma no_load: "\<forall>w \<in> set ws. w = PDone \<Longrightarrow> (\<Sum>w\<leftarrow>ws. pworker_load p w) = 0"
  by (induction ws) auto

lemma pinv_step:
  assumes "pstep cap n s s'" and "pinv n p es s"
  shows "pinv n p es s'"
  using assms
proof (induction rule: pstep.induct)
  case (hand s e ts i)
  then have "\<not> pw_finished s" using not_finished [of n p es s i] by simp
  with hand show ?case
    using pworker_sum [OF hand(3), of "pworker_load p"] by (auto simp: pinv_def dest: done_update)
next
  case (take_entry i s e cs)
  then have "\<not> pw_finished s" using not_finished [of n p es s i] by simp
  with take_entry show ?case
    using pworker_sum [OF take_entry(1), of "pworker_load p"] by (auto simp: pinv_def dest: done_update)
next
  case (store i s e now l0')
  then have "\<not> refused p e" using set_outcome(4) [OF _ _ store(3)] by (simp add: pinv_def)
  then show ?case
    using store not_finished [OF store(4,1)] set_outcome(1-3) [OF _ _ store(3)] pworker_sum [OF store(1), of "pworker_load p"]
    by (auto simp: pinv_def dest: done_update)
next
  case (refuse i s e now l0' err)
  then have "refused p e" using set_outcome(4) [OF _ _ refuse(3)] by (simp add: pinv_def)
  then show ?case
    using refuse not_finished [OF refuse(4,1)] set_outcome(1-3) [OF _ _ refuse(3)] pworker_sum [OF refuse(1), of "pworker_load p"]
    by (auto simp: pinv_def dest: done_update)
next
  case (report i s err)
  then have "\<not> pw_finished s" using not_finished [of n p es s i] by simp
  with report show ?case
    using pworker_sum [OF report(1), of "pworker_load p"] by (auto simp: pinv_def dest: done_update)
next
  case (exit i s)
  then show ?case
    using pworker_sum [OF exit(1), of "pworker_load p"] by (auto simp: pinv_def dest: set_update_other)
qed (auto simp: pinv_def list_all_iff)

interpretation warm: protocol "pstep cap n" "pinv n p es" pmeasure for cap n p es
  by unfold_locales (rule pinv_step, assumption+, rule pstep_measure)

lemma pinv_reach:
  assumes "preach cap n es l0 s" and "cache_inv l0" and "\<not> l0_closed l0"
  shows "pinv n (l0_maxPayload l0) es s"
  by (rule warm.inv_reach [OF assms(1) pinv_init [OF assms(2,3)]])

lemma pprogress:
  assumes "pinv n p es s" and "0 < n" and "refusals p es \<le> n" and "\<not> pw_finished s"
  shows "\<exists>s'. pstep cap n s s'"
proof -
  have n: "length (pw_workers s) = n" using assms(1) by (simp add: pinv_def)
  have busy: ?thesis if i: "i < n" "pw_workers s ! i \<noteq> PDone" "pw_workers s ! i = PIdle \<Longrightarrow>
      pw_chan s \<noteq> [] \<or> pw_todo s \<noteq> [] \<or> pw_closed s" for i
  proof (cases "pw_workers s ! i")
    case PIdle
    then show ?thesis
      using that n take_entry [of i s _ _ cap n] hand [of s _ _ i cap n] exit [of i s cap n]
      by (cases "pw_chan s"; cases "pw_todo s") blast+
  next
    case (PHold e)
    obtain l0' r where "L0_Set undefined (fst e) (snd e) 0 (pw_l0 s) = Some (l0', r)"
      using l0_set_total [of "pw_l0 s"] assms(1) unfolding pinv_def by blast
    then show ?thesis using i(1) n PHold store [of i s e] refuse [of i s e] by (cases r) blast+
  next
    case (PSend err)
    have "1 \<le> (\<Sum>w\<leftarrow>pw_workers s. pworker_load p w)"
      using pworker_sum(1) [of i "pw_workers s" "pworker_load p"] i(1) n PSend by simp
    then have "length (pw_results s) < n" using assms(1,3) by (simp add: pinv_def)
    then show ?thesis using i(1) n PSend report [of i s err] by blast
  qed (use that in simp)
  show ?thesis
  proof (cases "pw_closed s")
    case False
    then have "pw_workers s ! 0 \<noteq> PDone" using assms(1,2) n unfolding pinv_def by (metis nth_mem)
    then show ?thesis using busy [of 0] close [of s cap n] False assms(2) by blast
  next
    case True
    show ?thesis
    proof (cases "list_all (\<lambda>w. w = PDone) (pw_workers s)")
      case over: True
      then show ?thesis using finish [OF True assms(4)] by blast
    next
      case False
      then obtain i where "i < n" "pw_workers s ! i \<noteq> PDone" using n by (auto simp: list_all_length)
      then show ?thesis using busy True by blast
    qed
  qed
qed

lemma pfinished:
  assumes "pinv n p es s" and "0 < n" and "pw_finished s"
  shows "refusals p es = length (pw_results s)"
proof -
  have all: "\<forall>w \<in> set (pw_workers s). w = PDone" and len: "length (pw_workers s) = n"
    using assms(1,3) by (simp_all add: pinv_def)
  then have "PDone \<in> set (pw_workers s)" using assms(2) by (metis nth_mem)
  then have "pw_todo s = []" "pw_chan s = []" using assms(1) by (simp_all add: pinv_def)
  then show ?thesis using assms(1) no_load [OF all] by (simp add: pinv_def)
qed

interpretation warm_ok: ending_protocol "pstep cap n"
  "\<lambda>s. pinv n p es s \<and> 0 < n \<and> refusals p es \<le> n" pmeasure pw_finished for cap n p es
  by unfold_locales (auto intro: pinv_step pstep_measure pprogress)

text \<open>
  C40. Pre-warming ends exactly when L0 refuses at most as many entries as there are workers (an
  entry that \<^verbatim>\<open>SetToL1\<close> stored above L0's payload limit is one). With more, no run ever finishes:
  each worker that finds the result channel full waits for a reader that only comes after the
  workers have ended. With at most that many, every run can be completed, and one in which no
  goroutine can move is finished. A finished run has one result for each refused entry; and in
  both cases every run stops within \<open>pmeasure\<close> steps.
\<close>

theorem prewarm_ends_iff:
  assumes "cache_inv l0" and "\<not> l0_closed l0" and "0 < n" and "preach cap n es l0 s"
  shows "((\<exists>s'. (pstep cap n)\<^sup>*\<^sup>* s s' \<and> pw_finished s') \<longleftrightarrow> refusals (l0_maxPayload l0) es \<le> n) \<and>
    (refusals (l0_maxPayload l0) es \<le> n \<and> (\<nexists>s'. pstep cap n s s') \<longrightarrow> pw_finished s) \<and>
    (pw_finished s \<longrightarrow> length (pw_results s) = refusals (l0_maxPayload l0) es) \<and>
    (\<forall>run. run 0 = s \<longrightarrow> (\<exists>i \<le> pmeasure s. \<not> pstep cap n (run i) (run (Suc i))))"
proof -
  let ?p = "l0_maxPayload l0"
  note inv = pinv_reach [OF assms(4,1,2)]
  have few: "refusals ?p es \<le> n" if "(pstep cap n)\<^sup>*\<^sup>* s s'" "pw_finished s'" for s'
  proof -
    have i': "pinv n ?p es s'" by (rule warm.inv_reach [OF that(1) inv])
    then have "length (pw_results s') \<le> n" by (simp add: pinv_def)
    then show ?thesis unfolding pfinished [OF i' assms(3) that(2)] .
  qed
  have ends: "\<exists>s'. (pstep cap n)\<^sup>*\<^sup>* s s' \<and> pw_finished s'" if "refusals ?p es \<le> n"
    using warm_ok.ends [of n ?p es s] inv assms(3) that by blast
  have stops: "\<exists>i \<le> pmeasure s. \<not> pstep cap n (run i) (run (Suc i))" if "run 0 = s" for run
    using warm.runs_stop [of n ?p es run cap] inv unfolding that by blast
  show ?thesis
  proof (intro conjI iffI impI allI)
    show "pw_finished s" if "refusals ?p es \<le> n \<and> (\<nexists>s'. pstep cap n s s')"
      using that pprogress [OF inv assms(3)] by blast
    show "length (pw_results s) = refusals ?p es" if "pw_finished s"
      by (rule pfinished [OF inv assms(3) that, symmetric])
  qed (use few ends stops in blast)+
qed

theorem prewarm_ends_iff_witness:
  "\<exists>l0. L0_New (Some small_l0_config) = Inr l0 \<and>
     (\<forall>s. preach 8 1 [(''a'', replicate 17 0), (''b'', replicate 17 0)] l0 s \<longrightarrow> \<not> pw_finished s) \<and>
     (\<exists>s. preach 8 1 [(''a'', replicate 17 0), (''b'', [1])] l0 s \<and> pw_finished s)"
proof -
  obtain l0 where l0: "L0_New (Some small_l0_config) = Inr l0" "l0_maxPayload l0 = 16" "\<not> l0_closed l0"
      "cache_inv l0" by (rule small_l0)
  have "\<not> pw_finished s" if "preach 8 1 [(''a'', replicate 17 0), (''b'', replicate 17 0)] l0 s" for s
    using prewarm_ends_iff [OF l0(4,3) _ that] by (auto simp: refused_def l0(2))
  moreover have "\<exists>s. preach 8 1 [(''a'', replicate 17 0), (''b'', [1])] l0 s \<and> pw_finished s"
    using prewarm_ends_iff [OF l0(4,3), of 1 8 "[(''a'', replicate 17 0), (''b'', [1])]"]
    by (auto simp: refused_def l0(2))
  ultimately show ?thesis using l0(1) by blast
qed

end
