(* ===== verification/Server.thy ===== *)
theory Server
  imports Tiered
begin

text \<open>
  The server program (\<^verbatim>\<open>cmd/tieredcache/main.go\<close>): how it chooses a configuration and builds its
  cache, the example operations it runs, its end, and what its signal handler does meanwhile. What
  it prints is a list of outputs (the headings of the example are left out).
\<close>

subsection \<open>Starting\<close>

definition DefaultConfigPath :: string where "DefaultConfigPath = ''configs/config.yaml''"

text \<open>\<open>args\<close> are the program's arguments, its name first.\<close>

definition load_config ::
    "int \<Rightarrow> (gval \<Rightarrow> string) \<Rightarrow> 'fs config_env \<Rightarrow> string list \<Rightarrow> 'fs \<Rightarrow> Config" where
  "load_config NumCPU show_v env args fs =
     (let configPath = (case args of (prog # path # more') \<Rightarrow> path | _ \<Rightarrow> DefaultConfigPath)
      in (case LoadOrDefault NumCPU show_v env configPath fs of
            Inl err \<Rightarrow> DefaultConfig NumCPU
          | Inr cfg \<Rightarrow> cfg))"

text \<open>The message and error of a fatal end, or the cache.\<close>

definition create_cache ::
    "int \<Rightarrow> (gval \<Rightarrow> string) \<Rightarrow> 'fs config_env \<Rightarrow> string list \<Rightarrow> 'fs \<Rightarrow> new_env \<Rightarrow> wal_disk \<Rightarrow>
     wal_disk \<times> ((string \<times> go_error) + ('db, 'w) tiered_cache)" where
  "create_cache NumCPU show_v env args fs ne d =
     (let cfg = load_config NumCPU show_v env args fs
      in (case Validate show_v (Some cfg) of
            Some err \<Rightarrow> (d, Inl (''Invalid configuration: '', err))
          | None \<Rightarrow>
         (case Tiered_New show_v ne (Some cfg) d of
            (d1, Inl err) \<Rightarrow> (d1, Inl (''Failed to create cache: '', err))
          | (d1, Inr c) \<Rightarrow> (d1, Inr c))))"

inductive start_server ::
    "int \<Rightarrow> (gval \<Rightarrow> string) \<Rightarrow> 'fs config_env \<Rightarrow> string list \<Rightarrow> 'fs \<Rightarrow> new_env \<Rightarrow> wal_disk \<Rightarrow>
     'db badger \<Rightarrow> mkdir_env \<Rightarrow> (f64 \<Rightarrow> u64) \<Rightarrow> snap_env \<Rightarrow> dir \<Rightarrow> (nat \<Rightarrow> go_time) \<Rightarrow> recover_env \<Rightarrow>
     wal_disk \<Rightarrow> (string \<times> go_error) + ('db, 'w) tiered_cache \<Rightarrow> bool" where
  no_cache: "create_cache NumCPU show_v env args fs ne d =
      (d1, Inl failure :: (string \<times> go_error) + ('db, 'w) tiered_cache) \<Longrightarrow>
    start_server NumCPU show_v env args fs ne d B mk oor senv sdir clk rv d1 (Inl failure)"
| no_init: "create_cache NumCPU show_v env args fs ne d = (d1, Inr (c :: ('db, 'w) tiered_cache)) \<Longrightarrow>
    Initialize B mk oor senv sdir clk rv d1 c c1 rb (Some err) \<Longrightarrow>
    start_server NumCPU show_v env args fs ne d B mk oor senv sdir clk rv d1
      (Inl (''Failed to initialize cache: '', err))"
| ready: "create_cache NumCPU show_v env args fs ne d = (d1, Inr c) \<Longrightarrow>
    Initialize B mk oor senv sdir clk rv d1 c c1 rb None \<Longrightarrow>
    start_server NumCPU show_v env args fs ne d B mk oor senv sdir clk rv d1 (Inr c1)"

subsection \<open>The example\<close>

datatype example_out =
    SetFailed string go_error | SetDone string
  | ReadMissing string | ReadValue string bytes
  | DeleteFailed go_error | Confirmed go_error | Unexpected bytes

definition example_keys :: "string list" where
  "example_keys = [''user:1001'', ''session:abc123'', ''product:500'', ''cache:key1'', ''cache:key2'']"

text \<open>The calls read the clock in turn: \<open>n\<close> counts the readings.\<close>

fun example_sets ::
    "'db badger \<Rightarrow> (int \<Rightarrow> string) \<Rightarrow> write_env \<Rightarrow> (nat \<Rightarrow> go_time) \<Rightarrow> nat \<Rightarrow> string list \<Rightarrow>
     ('db, 'w) tiered_cache \<Rightarrow> wal_disk \<Rightarrow> (('db, 'w) tiered_cache \<times> wal_disk \<times> example_out list) option" where
  "example_sets B wt wenv clk n [] c d = Some (c, d, [])"
| "example_sets B wt wenv clk n (key # keys) c d =
     (case Tiered_Set B wt wenv (clk n) (clk (Suc n)) key (bytes_of (''value_for_'' @ key)) 3600000000000 c d of
        None \<Rightarrow> None
      | Some (c1, d1, err) \<Rightarrow>
     (case example_sets B wt wenv clk (n + 2) keys c1 d1 of
        None \<Rightarrow> None
      | Some (c2, d2, outs) \<Rightarrow>
          Some (c2, d2, (case err of Some e \<Rightarrow> SetFailed key e | None \<Rightarrow> SetDone key) # outs)))"

fun example_reads ::
    "'db badger \<Rightarrow> (nat \<Rightarrow> go_time) \<Rightarrow> nat \<Rightarrow> 'w \<Rightarrow> string list \<Rightarrow> ('db, 'w) tiered_cache \<Rightarrow>
     (('db, 'w) tiered_cache \<times> example_out list) option" where
  "example_reads B clk n w [] c = Some (c, [])"
| "example_reads B clk n w (key # keys) c =
     (case Tiered_Get B (clk n) (clk (Suc n)) w key c of
        None \<Rightarrow> None
      | Some (c1, r) \<Rightarrow>
     (case example_reads B clk (n + 2) w keys c1 of
        None \<Rightarrow> None
      | Some (c2, outs) \<Rightarrow>
          Some (c2, (case r of Inl e \<Rightarrow> ReadMissing key | Inr v \<Rightarrow> ReadValue key v) # outs)))"

definition runExample ::
    "'db badger \<Rightarrow> (int \<Rightarrow> string) \<Rightarrow> write_env \<Rightarrow> (nat \<Rightarrow> go_time) \<Rightarrow> 'w \<Rightarrow> ('db, 'w) tiered_cache \<Rightarrow>
     wal_disk \<Rightarrow> (('db, 'w) tiered_cache \<times> wal_disk \<times> example_out list) option" where
  "runExample B wt wenv clk w c d = do {
     (c1, d1, sets) \<leftarrow> example_sets B wt wenv clk 0 example_keys c d;
     (c2, reads) \<leftarrow> example_reads B clk 10 w example_keys c1;
     (c3, d3, err) \<leftarrow> Tiered_Delete B wt wenv ''session:abc123'' c2 d1;
     (c4, r) \<leftarrow> Tiered_Get B (clk 20) (clk 21) w ''session:abc123'' c3;
     Some (c4, d3, sets @ reads @
       (case err of Some e \<Rightarrow> [DeleteFailed e] | None \<Rightarrow> []) @
       [case r of Inl e \<Rightarrow> Confirmed e | Inr v \<Rightarrow> Unexpected v])
   }"

subsection \<open>Signals\<close>

text \<open>The signals the program asks for, and any other with the text the system gives it.\<close>

datatype os_signal = SIGINT | SIGTERM | OtherSignal string

fun signal_text :: "os_signal \<Rightarrow> string" where
  "signal_text SIGINT = ''interrupt''"
| "signal_text SIGTERM = ''terminated''"
| "signal_text (OtherSignal t) = t"

definition signalNames :: "os_signal \<rightharpoonup> string" where
  "signalNames = [SIGINT \<mapsto> ''SIGINT (Ctrl+C)'', SIGTERM \<mapsto> ''SIGTERM (kill)'']"

definition getSignalName :: "os_signal \<Rightarrow> string" where
  "getSignalName sig =
     (case signalNames sig of Some name \<Rightarrow> name | None \<Rightarrow> ''Signal: '' @ signal_text sig)"

datatype server_out =
    Line string | Example example_out | StatsFailed go_error | CloseFailed go_error
  | L0Line u64 u64 int u64 | L1Line u64 u64 u64

text \<open>
  The handler takes one signal: it prints two lines and cancels a context that the operations of the
  cache are given but do not read.
\<close>

definition handler_outs :: "os_signal \<Rightarrow> server_out list" where
  "handler_outs sig =
     [Line (''Received signal: '' @ signal_text sig),
      Line (getSignalName sig @ '' - Initiating graceful shutdown...'')]"

subsection \<open>The end\<close>

definition stats_outs :: "'db badger \<Rightarrow> ('db, 'w) tiered_cache \<Rightarrow> server_out list" where
  "stats_outs B c =
     (case Tiered_Stats B c of
        Inl err \<Rightarrow> [StatsFailed err]
      | Inr st \<Rightarrow>
          [Line ''Final Cache Stats:'',
           L0Line (s0_Hits (cs_L0 st)) (s0_Misses (cs_L0 st)) (s0_Entries (cs_L0 st)) (s0_MemoryUsed (cs_L0 st)),
           L1Line (s1_Reads (cs_L1 st)) (s1_Writes (cs_L1 st)) (s1_DiskUsage (cs_L1 st))])"

definition server_end ::
    "'db badger \<Rightarrow> close_env \<Rightarrow> 'w \<Rightarrow> ('db, 'w) tiered_cache \<Rightarrow> ('db, 'w) tiered_cache \<times> 'w \<times> server_out list" where
  "server_end B env w c =
     (case Tiered_Close B env w c of
        (c1, w1, err) \<Rightarrow>
          (c1, w1, [Line ''Waiting for background operations to complete...''] @ stats_outs B c @
             [Line ''Closing cache...'',
              case err of Some e \<Rightarrow> CloseFailed e | None \<Rightarrow> Line ''Cache closed successfully'',
              Line ''Shutdown complete - Goodbye!'']))"

text \<open>
  \<^verbatim>\<open>main\<close> after the start; what happens in the background while it waits (\<open>bg\<close>) changes the cache
  only. A signal adds the handler's lines, or a part of them, among those of \<^verbatim>\<open>main\<close>.
\<close>

definition server_main ::
    "'db badger \<Rightarrow> (int \<Rightarrow> string) \<Rightarrow> write_env \<Rightarrow> (nat \<Rightarrow> go_time) \<Rightarrow> close_env \<Rightarrow>
     (('db, 'w) tiered_cache \<Rightarrow> ('db, 'w) tiered_cache) \<Rightarrow> 'w \<Rightarrow> ('db, 'w) tiered_cache \<Rightarrow> wal_disk \<Rightarrow>
     (('db, 'w) tiered_cache \<times> wal_disk \<times> 'w \<times> server_out list) option" where
  "server_main B wt wenv clk env bg w c d = do {
     (c1, d1, outs) \<leftarrow> runExample B wt wenv clk w c d;
     let (c2, w2, ends) = server_end B env w (bg c1);
     Some (c2, d1, w2, map Example outs @ ends)
   }"

definition printed_with :: "os_signal option \<Rightarrow> server_out list \<Rightarrow> server_out list set" where
  "printed_with sig outs =
     (case sig of None \<Rightarrow> {outs} | Some s \<Rightarrow> (\<Union>k. shuffles outs (take k (handler_outs s))))"

end
