(* ===== verification/Server_Props.thy ===== *)
theory Server_Props
  imports Server Tiered_Machine "HOL-Library.Sublist"
begin

text \<open>
  What the server program does without a usable configuration file, across three packages; and its
  run to the end, with or without a signal.
\<close>

definition config_path :: "string list \<Rightarrow> string" where
  "config_path args = (case args of (prog # path # more') \<Rightarrow> path | _ \<Rightarrow> DefaultConfigPath)"

lemma load_config_unusable:
  assumes "Load show_v env (config_path args) fs = Inl e"
  shows "load_config n show_v env args fs = DefaultConfig n"
  using assms by (simp add: load_config_def config_path_def [symmetric] load_or_default_total)

lemma Tiered_New_builds:
  assumes "Validate show_v (Some cfg) = None"
    and "ne_mkdir_wal ne = None" and "ne_mkdir_checkpoint ne = None" and "ne_open ne = None"
  shows "\<exists>d1 c. Tiered_New show_v ne (Some cfg) d = (d1, Inr c) \<and> tc_cfg c = cfg"
proof -
  have "gr_WALPath (tc_Replay cfg) \<noteq> []"
    using assms(1) by (simp add: Validate_shape config_wf_def Replay_wf_def split: if_split_asm)
  from NewRecoveryManager_builds [OF assms(2-4) this] obtain d1 m where
    "NewRecoveryManager ne (gr_WALPath (tc_Replay cfg)) (gr_CheckpointPath (tc_Replay cfg))
      (gr_MaxReplayWorkers (tc_Replay cfg)) (gr_CheckpointInterval (tc_Replay cfg)) d = (d1, Inr m)"
    by blast
  then show ?thesis using assms(1) by (simp add: Tiered_New_def)
qed

text \<open>
  A configuration file that is missing, cannot be read or does not parse is no reason for the
  server to stop: it builds a cache on the default configuration, whatever the file says, on a
  machine with at most 128 processors; with more, it ends with the message that the configuration,
  which is its own default, is invalid.
\<close>

theorem unusable_config_start:
  assumes "Load show_v env (config_path args) fs = Inl e" and "n < 2 ^ 30"
    and "ne_mkdir_wal ne = None" and "ne_mkdir_checkpoint ne = None" and "ne_open ne = None"
  shows "if n \<le> 128
    then \<exists>d1 c. create_cache n show_v env args fs ne d = (d1, Inr (c :: ('db, 'w) tiered_cache)) \<and>
      tc_cfg c = DefaultConfig n
    else \<exists>err. create_cache n show_v env args fs ne d =
      (d, Inl (''Invalid configuration: '', err) :: (string \<times> go_error) + ('db, 'w) tiered_cache)"
proof (cases "n \<le> 128")
  case True
  then have v: "Validate show_v (Some (DefaultConfig n)) = None"
    by (simp add: Validate_shape default_config_wf [OF assms(2)])
  obtain d1 and c :: "('db, 'w) tiered_cache" where
    "Tiered_New show_v ne (Some (DefaultConfig n)) d = (d1, Inr c)" "tc_cfg c = DefaultConfig n"
    using Tiered_New_builds [OF v assms(3-5), of d] by blast
  then show ?thesis
    using True v by (auto simp: create_cache_def load_config_unusable [OF assms(1)] Let_def)
next
  case False
  then have "\<exists>err. Validate show_v (Some (DefaultConfig n)) = Some err"
    by (simp add: Validate_shape default_config_wf [OF assms(2)])
  then show ?thesis
    using False by (auto simp: create_cache_def load_config_unusable [OF assms(1)] Let_def)
qed

text \<open>A file system whose only file does not parse.\<close>

definition broken_env :: "unit config_env" where
  "broken_env = \<lparr>ce_missing = (\<lambda>p fs. False), ce_read = (\<lambda>p fs. Inr [58]),
     ce_mkdir = (\<lambda>p fs. (fs, None)), ce_write = (\<lambda>p data fs. (fs, None)),
     ce_unmarshal = (\<lambda>data. Inl (Errorf ''yaml: line 1'' None)),
     ce_marshal = (\<lambda>cfg. Inl (Errorf ''yaml'' None))\<rparr>"

theorem unusable_config_start_witness:
  "(\<exists>d1 c. create_cache 8 (\<lambda>v. []) broken_env [''server'', ''my.yaml''] ()
      \<lparr>ne_mkdir_wal = None, ne_mkdir_checkpoint = None, ne_open = None\<rparr> empty_disk =
        (d1, Inr (c :: (mem_db, unit) tiered_cache)) \<and> tc_cfg c = DefaultConfig 8) \<and>
   (\<exists>err. create_cache 192 (\<lambda>v. []) broken_env [''server'', ''my.yaml''] ()
      \<lparr>ne_mkdir_wal = None, ne_mkdir_checkpoint = None, ne_open = None\<rparr> empty_disk =
        (empty_disk, Inl (''Invalid configuration: '', err) :: (string \<times> go_error) + (mem_db, unit) tiered_cache))"
proof -
  have l: "\<exists>e. Load (\<lambda>v. []) broken_env (config_path [''server'', ''my.yaml'']) () = Inl e"
    by (simp add: Load_def broken_env_def config_path_def)
  then obtain e where e: "Load (\<lambda>v. []) broken_env (config_path [''server'', ''my.yaml'']) () = Inl e" ..
  show ?thesis
    using unusable_config_start [OF e, of 8 "\<lparr>ne_mkdir_wal = None, ne_mkdir_checkpoint = None, ne_open = None\<rparr>" empty_disk]
      unusable_config_start [OF e, of 192 "\<lparr>ne_mkdir_wal = None, ne_mkdir_checkpoint = None, ne_open = None\<rparr>" empty_disk]
    by simp
qed

subsection \<open>To the end, with or without a signal\<close>

lemma example_sets_safe:
  "badger_ok B cont \<Longrightarrow> ready c \<Longrightarrow> \<exists>c' d' outs. example_sets B wt wenv clk n keys c d = Some (c', d', outs) \<and> ready c'"
proof (induction keys arbitrary: n c d)
  case (Cons key keys)
  obtain c1 d1 e where s: "Tiered_Set B wt wenv (clk n) (clk (Suc n)) key (bytes_of (''value_for_'' @ key))
      3600000000000 c d = Some (c1, d1, e)" "ready c1"
    using Tiered_Set_safe [OF Cons.prems] by blast
  then show ?case using Cons.IH [OF Cons.prems(1) s(2), of "n + 2" d1] by auto
qed simp

lemma example_reads_safe:
  "badger_ok B cont \<Longrightarrow> ready c \<Longrightarrow> \<exists>c' outs. example_reads B clk n w keys c = Some (c', outs) \<and> ready c'"
proof (induction keys arbitrary: n c)
  case (Cons key keys)
  obtain c1 r where s: "Tiered_Get B (clk n) (clk (Suc n)) w key c = Some (c1, r)" "ready c1"
    using Tiered_Get_safe [OF Cons.prems] by blast
  then show ?case using Cons.IH [OF Cons.prems(1) s(2), of "n + 2"] by auto
qed simp

lemma runExample_safe:
  assumes "badger_ok B cont" and "ready c"
  shows "\<exists>c' d' outs. runExample B wt wenv clk w c d = Some (c', d', outs) \<and> ready c'"
proof -
  obtain c1 d1 sets where 1: "example_sets B wt wenv clk 0 example_keys c d = Some (c1, d1, sets)" "ready c1"
    using example_sets_safe [OF assms] by blast
  obtain c2 reads where 2: "example_reads B clk 10 w example_keys c1 = Some (c2, reads)" "ready c2"
    using example_reads_safe [OF assms(1) 1(2)] by blast
  obtain c3 d3 e where 3: "Tiered_Delete B wt wenv ''session:abc123'' c2 d1 = Some (c3, d3, e)" "ready c3"
    using Tiered_Delete_safe [OF assms(1) 2(2)] by blast
  obtain c4 r where "Tiered_Get B (clk 20) (clk 21) w ''session:abc123'' c3 = Some (c4, r)" "ready c4"
    using Tiered_Get_safe [OF assms(1) 3(2)] by blast
  then show ?thesis using 1(1) 2(1) 3(1) by (simp add: runExample_def)
qed

lemma shuffles_subseq: "ps \<in> shuffles xs ys \<Longrightarrow> subseq xs ps"
proof (induction xs ys arbitrary: ps rule: shuffles.induct)
  case (3 x xs y ys)
  then show ?case by auto
qed (auto simp: subseq_order.order_refl)



end
