(* ===== verification/LoadTest.thy ===== *)
theory LoadTest
  imports Tiered
begin

text \<open>
  The load test (\<^verbatim>\<open>cmd/loadtest/main.go\<close>): its latency recorders and statistics, the keys and
  payloads it makes, and one round of each kind of worker against the tiered cache. The random
  choices of a round (a payload size, a key index), the clock readings and the measured
  latencies are arguments; the printing of the statistics is in \<open>LoadTest_Report\<close>. The atomic counters and
  the recorders' locks make each operation one step.
\<close>

subsection \<open>Latency recorders\<close>

type_synonym i64 = "64 word"

record LatencyRecorder =
  lr_values :: "i64 list"
  lr_maxSize :: nat

definition NewLatencyRecorder :: "nat \<Rightarrow> LatencyRecorder" where
  "NewLatencyRecorder maxSize = \<lparr>lr_values = [], lr_maxSize = maxSize\<rparr>"

text \<open>The overlapping \<^verbatim>\<open>copy\<close> and the truncation drop the oldest tenth.\<close>

definition Record :: "i64 \<Rightarrow> LatencyRecorder \<Rightarrow> LatencyRecorder" where
  "Record latency r =
     (let kept = (if lr_maxSize r \<le> length (lr_values r)
                  then drop (lr_maxSize r div 10) (lr_values r) else lr_values r)
      in r\<lparr>lr_values := kept @ [latency]\<rparr>)"

text \<open>\<^verbatim>\<open>int(float64(n) * p)\<close>, kept inside the slice.\<close>

definition percentile_index :: "nat \<Rightarrow> rat \<Rightarrow> nat" where
  "percentile_index n p =
     (case f64_trunc (f64_mul (f64_of_int (int n)) (f64_lit p)) of
        Some i \<Rightarrow> if int n \<le> i then n - 1 else nat i
      | None \<Rightarrow> 0)"

text \<open>The sum wraps; the quotient truncates toward zero.\<close>

definition go_div :: "int \<Rightarrow> int \<Rightarrow> int" where
  "go_div a b = sgn a * sgn b * (\<bar>a\<bar> div \<bar>b\<bar>)"

definition GetPercentiles :: "LatencyRecorder \<Rightarrow> i64 \<times> i64 \<times> i64 \<times> i64" where
  "GetPercentiles r =
     (if lr_values r = [] then (0, 0, 0, 0)
      else
        let sorted = sort_key sint (lr_values r);
            n = length sorted;
            total = sum_list sorted;
            avg = word_of_int (go_div (sint total) (int n))
        in (sorted ! percentile_index n (50 / 100), sorted ! percentile_index n (90 / 100),
            sorted ! percentile_index n (99 / 100), avg))"

subsection \<open>Statistics\<close>

record SizeStats =
  ss_WriteCount :: u64
  ss_WriteLatency :: LatencyRecorder
  ss_ReadCount :: u64
  ss_ReadLatency :: LatencyRecorder

definition newSizeStats :: SizeStats where
  "newSizeStats = \<lparr>ss_WriteCount = 0, ss_WriteLatency = NewLatencyRecorder 10000,
     ss_ReadCount = 0, ss_ReadLatency = NewLatencyRecorder 10000\<rparr>"

definition RecordWrite :: "i64 \<Rightarrow> SizeStats \<Rightarrow> SizeStats" where
  "RecordWrite latency s = s\<lparr>ss_WriteCount := ss_WriteCount s + 1,
     ss_WriteLatency := Record latency (ss_WriteLatency s)\<rparr>"

definition RecordRead :: "i64 \<Rightarrow> SizeStats \<Rightarrow> SizeStats" where
  "RecordRead latency s = s\<lparr>ss_ReadCount := ss_ReadCount s + 1,
     ss_ReadLatency := Record latency (ss_ReadLatency s)\<rparr>"

definition GetWriteStats :: "SizeStats \<Rightarrow> u64 \<times> i64 \<times> i64 \<times> i64 \<times> i64" where
  "GetWriteStats s = (ss_WriteCount s, GetPercentiles (ss_WriteLatency s))"

definition GetReadStats :: "SizeStats \<Rightarrow> u64 \<times> i64 \<times> i64 \<times> i64 \<times> i64" where
  "GetReadStats s = (ss_ReadCount s, GetPercentiles (ss_ReadLatency s))"

record LoadTestStats =
  lt_TotalWrites :: u64
  lt_TotalReads :: u64
  lt_TotalMisses :: u64
  lt_WriteErrors :: u64
  lt_ReadErrors :: u64
  lt_MissErrors :: u64
  lt_VerificationSuccess :: u64
  lt_VerificationFailure :: u64
  lt_L1DirectVerifySuccess :: u64
  lt_L1DirectVerifyFailure :: u64
  lt_SizeStats :: "int \<rightharpoonup> SizeStats"

definition newLoadTestStats :: "int list \<Rightarrow> LoadTestStats" where
  "newLoadTestStats payloadSizes = \<lparr>lt_TotalWrites = 0, lt_TotalReads = 0, lt_TotalMisses = 0,
     lt_WriteErrors = 0, lt_ReadErrors = 0, lt_MissErrors = 0, lt_VerificationSuccess = 0,
     lt_VerificationFailure = 0, lt_L1DirectVerifySuccess = 0, lt_L1DirectVerifyFailure = 0,
     lt_SizeStats = map_of (map (\<lambda>n. (n, newSizeStats)) payloadSizes)\<rparr>"

definition on_size :: "int \<Rightarrow> (SizeStats \<Rightarrow> SizeStats) \<Rightarrow> LoadTestStats \<Rightarrow> LoadTestStats" where
  "on_size n f s =
     (case lt_SizeStats s n of
        None \<Rightarrow> s
      | Some st \<Rightarrow> s\<lparr>lt_SizeStats := (lt_SizeStats s)(n \<mapsto> f st)\<rparr>)"

definition recordWrite :: "i64 \<Rightarrow> int \<Rightarrow> LoadTestStats \<Rightarrow> LoadTestStats" where
  "recordWrite latency n s =
     on_size n (RecordWrite latency) (s\<lparr>lt_TotalWrites := lt_TotalWrites s + 1\<rparr>)"

definition recordRead :: "i64 \<Rightarrow> int \<Rightarrow> bool \<Rightarrow> LoadTestStats \<Rightarrow> LoadTestStats" where
  "recordRead latency n found s =
     (let s1 = (if found then s\<lparr>lt_TotalReads := lt_TotalReads s + 1\<rparr>
                else s\<lparr>lt_TotalMisses := lt_TotalMisses s + 1\<rparr>)
      in if found then on_size n (RecordRead latency) s1 else on_size 1 (RecordRead latency) s1)"

definition recordWriteError :: "LoadTestStats \<Rightarrow> LoadTestStats" where
  "recordWriteError s = s\<lparr>lt_WriteErrors := lt_WriteErrors s + 1\<rparr>"

definition recordReadError :: "LoadTestStats \<Rightarrow> LoadTestStats" where
  "recordReadError s = s\<lparr>lt_ReadErrors := lt_ReadErrors s + 1\<rparr>"

definition recordMissError :: "LoadTestStats \<Rightarrow> LoadTestStats" where
  "recordMissError s = s\<lparr>lt_MissErrors := lt_MissErrors s + 1\<rparr>"

subsection \<open>Keys and payloads\<close>

text \<open>
  \<open>rnd n\<close> are \<open>n\<close> random bytes. A negative size panics.
\<close>

definition GeneratePayload :: "(nat \<Rightarrow> bytes) \<Rightarrow> int \<Rightarrow> bytes option" where
  "GeneratePayload rnd sizeKB =
     (let n = (if 16 * 1024 < sizeKB * 1024 then 16 * 1024 else sizeKB * 1024)
      in if n < 0 then None else Some (rnd (nat n)))"

text \<open>The verb \<^verbatim>\<open>%08d\<close>: zeros up to eight characters, the sign counted.\<close>

definition fmt_08d :: "int \<Rightarrow> string" where
  "fmt_08d i =
     (let ds = nat_digits (nat \<bar>i\<bar>); sign = (if i < 0 then ''-'' else [])
      in sign @ replicate (8 - length sign - length ds) (CHR ''0'') @ ds)"

definition GenerateKey :: "int \<Rightarrow> string" where
  "GenerateKey index = ''loadtest_key_'' @ fmt_08d index"

definition miss_key :: "int \<Rightarrow> string" where
  "miss_key index = ''miss_key_'' @ fmt_08d index"

definition verify_key :: "string \<Rightarrow> int \<Rightarrow> int \<Rightarrow> int \<Rightarrow> string" where
  "verify_key tag nano index worker =
     tag @ ''_'' @ fmt_d nano @ ''_'' @ fmt_08d index @ ''_'' @ fmt_d worker"

subsection \<open>Workers\<close>

text \<open>
  One tick of each worker, with the cache, its log on disk and the statistics. The size bucket of
  a value read is its length in whole kilobytes, at least one.
\<close>

definition value_size :: "bytes \<Rightarrow> int" where
  "value_size v =
     (let actualSize = int (length v) div 1024
      in if actualSize = 0 \<and> 0 < length v then 1 else actualSize)"

definition write_tick ::
    "'db badger \<Rightarrow> (int \<Rightarrow> string) \<Rightarrow> write_env \<Rightarrow> go_time \<Rightarrow> go_time \<Rightarrow> (nat \<Rightarrow> bytes) \<Rightarrow> int \<Rightarrow> int \<Rightarrow> i64 \<Rightarrow>
     ('db, 'w) tiered_cache \<times> wal_disk \<times> LoadTestStats \<Rightarrow>
     (('db, 'w) tiered_cache \<times> wal_disk \<times> LoadTestStats) option" where
  "write_tick B wt wenv now0 now1 rnd n keyIndex latency s =
     (case s of (c, d, st) \<Rightarrow> do {
        payload \<leftarrow> GeneratePayload rnd n;
        (c1, d1, err) \<leftarrow> Tiered_Set B wt wenv now0 now1 (GenerateKey keyIndex) payload 0 c d;
        Some (c1, d1, if err \<noteq> None then recordWriteError st else recordWrite latency n st)
      })"

definition read_tick ::
    "'db badger \<Rightarrow> go_time \<Rightarrow> go_time \<Rightarrow> 'w \<Rightarrow> int \<Rightarrow> int \<Rightarrow> i64 \<Rightarrow> ('db, 'w) tiered_cache \<times> LoadTestStats \<Rightarrow>
     (('db, 'w) tiered_cache \<times> LoadTestStats) option" where
  "read_tick B now0 now1 w n keyIndex latency s =
     (case s of (c, st) \<Rightarrow> do {
        (c1, r) \<leftarrow> Tiered_Get B now0 now1 w (GenerateKey keyIndex) c;
        Some (c1, case r of
            Inl err \<Rightarrow> if err = ErrCode ErrCodeNotFound then recordRead latency n False st
                       else recordReadError st
          | Inr v \<Rightarrow> recordRead latency (value_size v) True st)
      })"

definition miss_tick ::
    "'db badger \<Rightarrow> go_time \<Rightarrow> go_time \<Rightarrow> 'w \<Rightarrow> int \<Rightarrow> int \<Rightarrow> int \<Rightarrow> int \<Rightarrow> i64 \<Rightarrow>
     ('db, 'w) tiered_cache \<times> LoadTestStats \<Rightarrow> (('db, 'w) tiered_cache \<times> LoadTestStats) option" where
  "miss_tick B now0 now1 w keyRange missPercentage percent keyIndex latency s =
     (case s of (c, st) \<Rightarrow> do {
        let shouldMiss = (percent < missPercentage);
        let key = (if shouldMiss then miss_key (keyRange + keyIndex) else GenerateKey keyIndex);
        (c1, r) \<leftarrow> Tiered_Get B now0 now1 w key c;
        Some (c1, case r of
            Inl err \<Rightarrow> if err = ErrCode ErrCodeNotFound then recordRead latency 1 False st
                       else recordMissError st
          | Inr v \<Rightarrow> recordRead latency (value_size v) True st)
      })"

text \<open>The byte by byte comparison of two values whose lengths agree.\<close>

fun bytes_match :: "bytes \<Rightarrow> bytes \<Rightarrow> bool" where
  "bytes_match (v # vs) (p # ps) = (if v \<noteq> p then False else bytes_match vs ps)"
| "bytes_match _ _ = True"

definition verified :: "bytes \<Rightarrow> bytes \<Rightarrow> bool" where
  "verified got payload \<longleftrightarrow>
     (if length got \<noteq> length payload then False else bytes_match got payload)"

definition verify_tick ::
    "'db badger \<Rightarrow> (int \<Rightarrow> string) \<Rightarrow> write_env \<Rightarrow> go_time \<Rightarrow> go_time \<Rightarrow> go_time \<Rightarrow> int \<Rightarrow> int \<Rightarrow> int \<Rightarrow> (nat \<Rightarrow> bytes) \<Rightarrow> int \<Rightarrow>
     ('db, 'w) tiered_cache \<times> wal_disk \<times> LoadTestStats \<Rightarrow>
     (('db, 'w) tiered_cache \<times> wal_disk \<times> LoadTestStats) option" where
  "verify_tick B wt wenv now0 now1 now2 nano keyIndex worker rnd n s =
     (case s of (c, d, st) \<Rightarrow>
        let failure = st\<lparr>lt_VerificationFailure := lt_VerificationFailure st + 1\<rparr>;
            success = st\<lparr>lt_VerificationSuccess := lt_VerificationSuccess st + 1\<rparr>
        in do {
          payload \<leftarrow> GeneratePayload rnd n;
          let key = verify_key ''verify'' nano keyIndex worker;
          (c1, d1, err) \<leftarrow> Tiered_Set B wt wenv now0 now1 key payload 0 c d;
          if err \<noteq> None then Some (c1, d1, failure)
          else do {
            (c2, r) \<leftarrow> GetFromL1 B now2 key c1;
            Some (c2, d1, case r of
                Inl e \<Rightarrow> failure
              | Inr l1Value \<Rightarrow> if verified l1Value payload then success else failure)
          }
        })"

definition l1_direct_tick ::
    "'db badger \<Rightarrow> go_time \<Rightarrow> go_time \<Rightarrow> go_time \<Rightarrow> 'w \<Rightarrow> int \<Rightarrow> int \<Rightarrow> int \<Rightarrow> (nat \<Rightarrow> bytes) \<Rightarrow> int \<Rightarrow>
     ('db, 'w) tiered_cache \<times> LoadTestStats \<Rightarrow> (('db, 'w) tiered_cache \<times> LoadTestStats) option" where
  "l1_direct_tick B now0 now1 now2 w nano keyIndex worker rnd n s =
     (case s of (c, st) \<Rightarrow>
        let failure = st\<lparr>lt_L1DirectVerifyFailure := lt_L1DirectVerifyFailure st + 1\<rparr>;
            success = st\<lparr>lt_L1DirectVerifySuccess := lt_L1DirectVerifySuccess st + 1\<rparr>
        in do {
          payload \<leftarrow> GeneratePayload rnd n;
          let key = verify_key ''l1direct'' nano keyIndex worker;
          (c1, err) \<leftarrow> SetToL1 B now0 key payload 0 c;
          if err \<noteq> None then Some (c1, failure)
          else do {
            (c2, r) \<leftarrow> Tiered_Get B now1 now2 w key c1;
            Some (c2, case r of
                Inl e \<Rightarrow> failure
              | Inr v \<Rightarrow> if verified v payload then success else failure)
          }
        })"

end
