(* ===== verification/LoadTest_Props.thy ===== *)
theory LoadTest_Props
  imports LoadTest Tiered_Props
begin

text \<open>
  The load test's own arithmetic (the percentiles it reports, the latencies it keeps) and what its
  verification workers conclude about the cache.
\<close>

subsection \<open>Percentiles\<close>

text \<open>Products of rounded factors stay within a percent.\<close>

lemma f64_product_close:
  assumes "0 \<le> x" and "0 \<le> y"
  shows "99 / 100 * (x * y) \<le> f64_round (f64_round x * f64_round y)"
    and "f64_round (f64_round x * f64_round y) \<le> 101 / 100 * (x * y)"
proof -
  define a b c where "a = f64_round x" and "b = f64_round y" and "c = f64_round (a * b)"
  have a: "x * (999 / 1000) \<le> a" "a \<le> x * (1001 / 1000)"
    using f64_round_bounds [OF assms(1)] by (simp_all only: a_def)
  have b: "y * (999 / 1000) \<le> b" "b \<le> y * (1001 / 1000)"
    using f64_round_bounds [OF assms(2)] by (simp_all only: b_def)
  have ab: "0 \<le> a" "0 \<le> b" using f64_round_nonneg assms by (simp_all add: a_def b_def)
  have low: "x * (999 / 1000) * (y * (999 / 1000)) \<le> a * b"
    using a b ab assms by (intro mult_mono) auto
  have high: "a * b \<le> x * (1001 / 1000) * (y * (1001 / 1000))"
    using a b ab assms by (intro mult_mono) auto
  have "0 \<le> x * y" using assms by simp
  moreover have "a * b * (999 / 1000) \<le> c" "c \<le> a * b * (1001 / 1000)"
    using f64_round_bounds [of "a * b"] ab by (simp_all only: c_def mult_nonneg_nonneg)
  ultimately have "99 / 100 * (x * y) \<le> c" "c \<le> 101 / 100 * (x * y)"
    using low high by linarith+
  then show "99 / 100 * (x * y) \<le> f64_round (f64_round x * f64_round y)"
    "f64_round (f64_round x * f64_round y) \<le> 101 / 100 * (x * y)"
    by (simp_all add: a_def b_def c_def)
qed

lemma percentile_index_floor:
  "0 \<le> p \<Longrightarrow> percentile_index n p =
    (let i = \<lfloor>f64_round (f64_round (of_nat n) * f64_round p)\<rfloor> in if int n \<le> i then n - 1 else nat i)"
  by (simp add: percentile_index_def f64_of_int_def f64_lit_def Let_def f64_round_nonneg)

lemma percentile_index_less: "0 < n \<Longrightarrow> 0 \<le> p \<Longrightarrow> percentile_index n p < n"
  by (simp add: percentile_index_floor Let_def nat_less_iff f64_round_nonneg)

lemma percentile_index_mono:
  assumes "0 \<le> p" and "101 / 100 * p \<le> 99 / 100 * q"
  shows "percentile_index n p \<le> percentile_index n q"
proof -
  have q: "0 \<le> q" using assms by linarith
  have "f64_round (f64_round (of_nat n) * f64_round p) \<le> 101 / 100 * (of_nat n * p)"
    by (rule f64_product_close) (simp_all add: assms)
  also have "\<dots> = of_nat n * (101 / 100 * p)" by simp
  also have "\<dots> \<le> of_nat n * (99 / 100 * q)" using assms(2) by (rule mult_left_mono) simp
  also have "\<dots> = 99 / 100 * (of_nat n * q)" by simp
  also have "\<dots> \<le> f64_round (f64_round (of_nat n) * f64_round q)"
    by (rule f64_product_close) (simp_all add: q)
  finally have "\<lfloor>f64_round (f64_round (of_nat n) * f64_round p)\<rfloor> \<le>
      \<lfloor>f64_round (f64_round (of_nat n) * f64_round q)\<rfloor>" by (rule floor_mono)
  then show ?thesis
    by (simp add: percentile_index_floor assms(1) q Let_def) linarith
qed

text \<open>
  The percentiles reported are recorded latencies in increasing order, at every number of
  samples: the indices, which are computed in floating point, never leave the sorted slice and
  keep the order of the three quantiles in spite of the rounding.
\<close>

theorem percentiles_ordered:
  assumes "lr_values r \<noteq> []" and "GetPercentiles r = (p50, p90, p99, avg)"
  shows "sint p50 \<le> sint p90 \<and> sint p90 \<le> sint p99 \<and> {p50, p90, p99} \<subseteq> set (lr_values r)"
proof -
  let ?s = "sort_key sint (lr_values r)" and ?n = "length (lr_values r)"
  have n: "0 < ?n" using assms(1) by simp
  note less = percentile_index_less [OF n]
  have p: "p50 = ?s ! percentile_index ?n (50 / 100)" "p90 = ?s ! percentile_index ?n (90 / 100)"
      "p99 = ?s ! percentile_index ?n (99 / 100)"
    using assms by (simp_all add: GetPercentiles_def Let_def)
  have mono: "sint (?s ! i) \<le> sint (?s ! j)" if "i \<le> j" "j < ?n" for i j
    using sorted_nth_mono [OF sorted_sort_key [of sint "lr_values r"], of i j] that by simp
  have "sint p50 \<le> sint p90" "sint p90 \<le> sint p99"
    unfolding p by (intro mono percentile_index_mono less; simp)+
  moreover have "?s ! percentile_index ?n q \<in> set (lr_values r)" if "0 \<le> q" for q
    using nth_mem [of "percentile_index ?n q" ?s] less [OF that] by simp
  ultimately show ?thesis unfolding p by simp
qed

theorem percentiles_ordered_witness:
  "\<exists>p50 p90 p99 avg. GetPercentiles \<lparr>lr_values = [3, - 1, 7, 5], lr_maxSize = 10000\<rparr> = (p50, p90, p99, avg) \<and>
     sint p50 \<le> sint p90 \<and> sint p90 \<le> sint p99 \<and> {p50, p90, p99} \<subseteq> {3, - 1, 7, 5}"
proof -
  obtain p50 p90 p99 avg where
    g: "GetPercentiles \<lparr>lr_values = [3, - 1, 7, 5], lr_maxSize = 10000\<rparr> = (p50, p90, p99, avg)"
    by (metis prod_cases4)
  then show ?thesis using percentiles_ordered [OF _ g] by fastforce
qed

subsection \<open>Verification\<close>

lemma verified_iff: "verified got payload \<longleftrightarrow> got = payload"
proof -
  have "length got = length payload \<Longrightarrow> bytes_match got payload \<longleftrightarrow> got = payload"
    by (induction got payload rule: bytes_match.induct) auto
  then show ?thesis by (auto simp: verified_def)
qed

text \<open>The random source gives as many bytes as asked for.\<close>

definition rnd_ok :: "(nat \<Rightarrow> bytes) \<Rightarrow> bool" where
  "rnd_ok rnd \<longleftrightarrow> (\<forall>n. length (rnd n) = n)"

lemma GeneratePayload_ok:
  assumes "rnd_ok rnd" and "0 < n"
  obtains v where "GeneratePayload rnd n = Some v" "v \<noteq> []" "length v \<le> 16384"
proof -
  define m where "m = (if 16384 < n * 1024 then 16384 else n * 1024)"
  have m: "0 < m" "m \<le> 16384" using assms(2) by (simp_all add: m_def)
  have "GeneratePayload rnd n = Some (rnd (nat m))"
    using assms(2) by (simp add: GeneratePayload_def Let_def m_def)
  moreover have "length (rnd (nat m)) = nat m" using assms(1) by (simp add: rnd_ok_def)
  ultimately show thesis using that [of "rnd (nat m)"] m by (cases "rnd (nat m)") auto
qed

text \<open>A write to L1 without time to live, when Badger's updates commit.\<close>

lemma L1_Set_outcome:
  assumes "badger_ok B cont" and "updates_ok B" and "l1_inv l1" and "\<not> l1_closed l1"
    and "key \<noteq> []" and "v \<noteq> []"
  obtains (full) e where "l1_maxCapacity l1 \<le> DiskUsage B l1" "L1_Set B now key v 0 l1 = Some (l1, Some e)"
  | (stored) l1' where "DiskUsage B l1 < l1_maxCapacity l1" "L1_Set B now key v 0 l1 = Some (l1', None)"
      "l1_inv l1'" "\<not> l1_closed l1'" "l1_entry cont l1' = (l1_entry cont l1)(key \<mapsto> (v, 0))"
proof (cases "l1_maxCapacity l1 \<le> DiskUsage B l1")
  case True
  then show thesis using full assms(4-6) by (simp add: L1_Set_def)
next
  case False
  obtain l1' e where a: "L1_Set B now key v 0 l1 = Some (l1', e)"
      "wrote cont (SetEntry key v (expires_at now 0)) l1 l1' e"
    using L1_Set_wrote [OF assms(1,3)] by blast
  have u: "snd (bd_Update B w db) = None" for w db using assms(2) by (simp add: updates_ok_def)
  have "e = None" "\<not> l1_closed l1'"
    using a(1) assms(4-6) False u
    by (auto simp: L1_Set_def l1_getShard_inv [OF assms(3)] Let_def case_prod_unfold count_l1_def set_db_def)
  then show thesis using stored [of l1'] a False by (simp add: wrote_def expires_at_def not_le)
qed

lemma verify_key_nonempty: "verify_key tag nano i worker \<noteq> []"
  by (simp add: verify_key_def)

text \<open>
  What a verification round reports. For a fresh key and payloads within the limits, the
  round counts a success when L1 has room, so the bytes read back from L1 are the payload's; when
  L1 is at its capacity it counts a failure, although the \<^verbatim>\<open>Set\<close> it started with returned nil:
  the value is in L0 only. Nothing else is counted, and the round never panics.
\<close>

theorem verify_tick_outcome:
  assumes "running c l0 l1" and "badger_ok B cont" and "reads_ok B" and "updates_ok B" and "rnd_ok rnd"
    and "\<not> l0_closed l0" and "\<not> l1_closed l1" and "0 < n" and "16384 \<le> l0_maxPayload l0"
    and "16384 \<le> uint (g0_MaxPayloadBytes (tc_L0cfg (tc_cfg c)))"
    and "l1_entry cont l1 (verify_key ''verify'' nano i worker) = None"
  shows "\<exists>c' d'. verify_tick B wt wenv now0 now1 now2 nano i worker rnd n (c, d, st) = Some (c', d',
    if DiskUsage B l1 < l1_maxCapacity l1
    then st\<lparr>lt_VerificationSuccess := lt_VerificationSuccess st + 1\<rparr>
    else st\<lparr>lt_VerificationFailure := lt_VerificationFailure st + 1\<rparr>)"
proof -
  define k where "k = verify_key ''verify'' nano i worker"
  have k: "k \<noteq> []" "l1_entry cont l1 k = None" using assms(11) verify_key_nonempty by (simp_all add: k_def)
  have inv: "cache_inv l0" "l1_inv l1" using assms(1) by (simp_all add: running_def)
  obtain v where v: "GeneratePayload rnd n = Some v" "v \<noteq> []" "length v \<le> 16384"
    using GeneratePayload_ok [OF assms(5,8)] .
  obtain l0' where s0: "L0_Set now0 k v 0 l0 = Some (l0', None)" "cache_inv l0'"
    using L0_Set_ok [OF inv(1) assms(6) k(1) v(2), of now0 0] v(3)
      assms(9) l0_set_done [OF inv(1)] by fastforce
  have len: "int (length v) \<le> uint (g0_MaxPayloadBytes (tc_L0cfg (tc_cfg c)))" using v(3) assms(10) by simp
  have tick: "\<exists>c' d'. verify_tick B wt wenv now0 now1 now2 nano i worker rnd n (c, d, st) = Some (c', d',
      case r of Inl e \<Rightarrow> st\<lparr>lt_VerificationFailure := lt_VerificationFailure st + 1\<rparr>
      | Inr x \<Rightarrow> if x = v then st\<lparr>lt_VerificationSuccess := lt_VerificationSuccess st + 1\<rparr>
          else st\<lparr>lt_VerificationFailure := lt_VerificationFailure st + 1\<rparr>)"
    if w: "L1_Set B now1 k v 0 l1 = Some (l1', e1)" "l1_inv l1'" and g: "L1_Get B now2 k l1' = Some (l1'', r)"
    for l1' e1 l1'' r
  proof -
    obtain m d1 where s: "Tiered_Set B wt wenv now0 now1 k v 0 c d =
        Some (c\<lparr>tc_l0 := Some l0', tc_l1 := Some l1', tc_recovery := m\<rparr>, d1, None)"
      using Tiered_Set_shape [OF assms(1) len s0(1) w(1), of wt wenv d] by blast
    have "GetFromL1 B now2 k (c\<lparr>tc_l0 := Some l0', tc_l1 := Some l1', tc_recovery := m\<rparr>) =
        Some (c\<lparr>tc_l0 := Some l0', tc_l1 := Some l1'', tc_recovery := m\<rparr>, r)"
      using g assms(1) by (simp add: GetFromL1_def tc_guard_def running_def)
    then show ?thesis using v(1) s by (simp add: verify_tick_def Let_def verified_iff k_def cong: sum.case_cong)
  qed
  show ?thesis
  proof (cases rule: L1_Set_outcome [OF assms(2,4) inv(2) assms(7) k(1) v(2), of now1])
    case (1 e)
    obtain l1'' where "L1_Get B now2 k l1 = Some (l1'', Inl (Errorf ''key not found'' None))"
      using L1_Get_reads [OF assms(2,3) inv(2) assms(7) k(1), of now2] k(2) by fastforce
    from tick [OF 1(2) inv(2) this] show ?thesis using 1(1) by (simp add: not_le [symmetric])
  next
    case (2 l1')
    obtain l1'' where "L1_Get B now2 k l1' = Some (l1'', Inr v)"
      using L1_Get_reads [OF assms(2,3) 2(3,4) k(1), of now2] 2(5)
      by auto
    from tick [OF 2(2,3) this] show ?thesis using 2(1) by simp
  qed
qed

definition roomy_l0_config :: l0_config where
  "roomy_l0_config = small_l0_config\<lparr>c0_MaxPayloadBytes := 32768\<rparr>"

lemma roomy_l0:
  obtains l0 where "L0_New (Some roomy_l0_config) = Inr l0" "l0_maxPayload l0 = 32768" "\<not> l0_closed l0"
    "cache_inv l0"
proof -
  obtain l0 where "L0_New (Some roomy_l0_config) = Inr l0"
    by (auto simp: L0_New_def roomy_l0_config_def small_l0_config_def Let_def)
  then show thesis using that [of l0] L0_New_shape [of "Some roomy_l0_config" l0] L0_New_Inr(1,2) [of _ l0]
    by (auto simp: roomy_l0_config_def)
qed

theorem verify_tick_outcome_witness:
  "\<exists>l0 c c' d d' st st'. L0_New (Some roomy_l0_config) = Inr l0 \<and>
     verify_tick mem_badger (\<lambda>i. []) demo_wenv (at_sec 0) (at_sec 0) (at_sec 0) 1 2 3 (\<lambda>k. replicate k 7) 4
       (small_tiered l0 two_shards, empty_disk, newLoadTestStats [2, 4]) = Some (c, d, st) \<and>
     lt_VerificationSuccess st = 1 \<and> lt_VerificationFailure st = 0 \<and>
     verify_tick mem_badger (\<lambda>i. []) demo_wenv (at_sec 0) (at_sec 0) (at_sec 0) 1 2 3 (\<lambda>k. replicate k 7) 4
       (small_tiered l0 full_l1, empty_disk, newLoadTestStats [2, 4]) = Some (c', d', st') \<and>
     lt_VerificationSuccess st' = 0 \<and> lt_VerificationFailure st' = 1"
proof -
  obtain l0 where l0: "L0_New (Some roomy_l0_config) = Inr l0" "l0_maxPayload l0 = 32768" "\<not> l0_closed l0"
      "cache_inv l0"
    by (rule roomy_l0)
  have rnd: "rnd_ok (\<lambda>k. replicate k 7)" by (simp add: rnd_ok_def)
  have l1: "DiskUsage mem_badger two_shards < l1_maxCapacity two_shards"
      "\<not> DiskUsage mem_badger full_l1 < l1_maxCapacity full_l1" "\<not> l1_closed full_l1"
      "l1_entry map_of two_shards (verify_key ''verify'' 1 2 3) = None"
      "l1_entry map_of full_l1 (verify_key ''verify'' 1 2 3) = None"
    by code_simp+
  have inv: "l1_inv full_l1" using two_shards_inv(1) by (simp add: full_l1_def l1_inv_def)
  note run = small_running2 [OF l0(4) two_shards_inv(1)] small_running2 [OF l0(4) inv]
  note outcome = verify_tick_outcome [where ?now0.0 = "at_sec 0" and ?now1.0 = "at_sec 0" and ?now2.0 = "at_sec 0" and
      wt = "\<lambda>i. []" and wenv = demo_wenv and d = empty_disk and st = "newLoadTestStats [2, 4]" and n = 4]
  show ?thesis
    using outcome [OF run(1) mem_badger_ok mem_reads_ok mem_updates_ok rnd l0(3) two_shards_inv(2) _ _ _ l1(4)]
      outcome [OF run(2) mem_badger_ok mem_reads_ok mem_updates_ok rnd l0(3) l1(3) _ _ _ l1(5)]
      l0(1,2) l1(1,2) small_limit
    by (auto simp: newLoadTestStats_def)
qed

subsection \<open>The latencies kept\<close>

text \<open>
  A recorder keeps the latest latencies in order: a suffix of everything recorded, at least
  its size less a tenth once that many have come. It stays within its size only when that is ten
  or more; a smaller recorder drops a tenth of nothing and keeps everything for ever.
\<close>

theorem recorder_window:
  assumes "r = fold Record xs (NewLatencyRecorder m)"
  shows "(\<exists>k. lr_values r = drop k xs) \<and> min (length xs) (m - m div 10) \<le> length (lr_values r) \<and>
    (10 \<le> m \<longrightarrow> length (lr_values r) \<le> m) \<and> (m < 10 \<longrightarrow> lr_values r = xs)"
proof -
  have "(\<exists>k \<le> length xs. lr_values r = drop k xs) \<and> min (length xs) (m - m div 10) \<le> length (lr_values r) \<and>
      (10 \<le> m \<longrightarrow> length (lr_values r) \<le> m) \<and> (m < 10 \<longrightarrow> lr_values r = xs) \<and> lr_maxSize r = m"
    using assms
  proof (induction xs arbitrary: r rule: rev_induct)
    case Nil
    then show ?case by (simp add: NewLatencyRecorder_def)
  next
    case (snoc x xs)
    define q where "q = fold Record xs (NewLatencyRecorder m)"
    note ih = snoc.IH [OF q_def]
    have step: "r = Record x q" using snoc.prems by (simp add: q_def)
    obtain k where k: "k \<le> length xs" "lr_values q = drop k xs" using ih by blast
    define j where "j = (if m \<le> length (lr_values q) then m div 10 else 0)"
    have j: "j \<le> length (lr_values q)" by (auto simp: j_def)
    have r: "lr_values r = drop j (lr_values q) @ [x]" "lr_maxSize r = m"
      using ih by (simp_all add: step Record_def Let_def j_def)
    have suffix: "lr_values r = drop (j + k) (xs @ [x])" "j + k \<le> length (xs @ [x])" using r(1) k j by simp_all
    have len: "length (lr_values r) = length (lr_values q) - j + 1" using r(1) by simp
    have low: "min (length (xs @ [x])) (m - m div 10) \<le> length (lr_values r)"
    proof -
      have "min (length xs) (m - m div 10) \<le> length (lr_values q)" using ih by blast
      moreover have "m - m div 10 \<le> length (lr_values q) - m div 10" if "m \<le> length (lr_values q)"
        using that by (rule diff_le_mono)
      ultimately show ?thesis unfolding len j_def by (auto simp: min_def split: if_splits)
    qed
    have high: "length (lr_values r) \<le> m" if "10 \<le> m"
    proof -
      have "1 \<le> m div 10" using that by linarith
      moreover have "length (lr_values q) \<le> m" using ih that by blast
      ultimately show ?thesis using len j by (simp add: j_def split: if_split_asm)
    qed
    have all: "lr_values r = xs @ [x]" if "m < 10"
      using r(1) ih that by (simp add: j_def)
    show ?case using suffix low high all r(2) by blast
  qed
  then show ?thesis by blast
qed

theorem recorder_window_witness:
  "length (lr_values (fold Record (replicate 25 1) (NewLatencyRecorder 10))) \<le> 10 \<and>
   lr_values (fold Record (replicate 25 1) (NewLatencyRecorder 9)) = replicate 25 1"
  using recorder_window [OF refl, of "replicate 25 1" 10] recorder_window [OF refl, of "replicate 25 1" 9] by simp

end
