(* ===== verification/LoadTest_Report.thy ===== *)
theory LoadTest_Report
  imports LoadTest
begin

text \<open>
  What the load test prints (\<^verbatim>\<open>cmd/loadtest/main.go\<close>): the header, the periodic statistics and the
  final results, as the sequence of the calls of \<^verbatim>\<open>Printf\<close> with the values they are given. How a
  verb turns a value into text is left to the library, and line breaks are left out; the counters read, the rates and the
  divisions, with their wrap-around and their NaN, are computed as the code computes them.
\<close>

subsection \<open>Printed values\<close>

datatype print_arg = PInt int | PFloat f64 | PStr string | PDuration int | PInts "int list"

type_synonym print_call = "string \<times> print_arg list"

abbreviation PU :: "u64 \<Rightarrow> print_arg" where "PU n \<equiv> PInt (uint n)"

text \<open>\<^verbatim>\<open>float64(n) / 1024 / 1024\<close>.\<close>

definition megabytes :: "u64 \<Rightarrow> f64" where
  "megabytes n = f64_div (f64_div (f64_of_int (uint n)) (f64_of_int 1024)) (f64_of_int 1024)"

text \<open>\<^verbatim>\<open>float64(a) / float64(b) * 100\<close>, and the same when nothing was counted before it.\<close>

definition percent_of :: "u64 \<Rightarrow> u64 \<Rightarrow> f64" where
  "percent_of a b = f64_mul (f64_div (f64_of_int (uint a)) (f64_of_int (uint b))) (f64_of_int 100)"

definition success_rate :: "u64 \<Rightarrow> u64 \<Rightarrow> f64" where
  "success_rate good bad = (if 0 < good + bad then percent_of good (good + bad) else F64 0)"

text \<open>Sums of floats, rounded; opposite infinities give NaN.\<close>

fun f64_add :: "f64 \<Rightarrow> f64 \<Rightarrow> f64" where
  "f64_add (F64 x) (F64 y) = F64 (f64_round (x + y))"
| "f64_add F64_NaN _ = F64_NaN"
| "f64_add _ F64_NaN = F64_NaN"
| "f64_add (F64_Inf p) (F64 y) = F64_Inf p"
| "f64_add (F64 x) (F64_Inf q) = F64_Inf q"
| "f64_add (F64_Inf p) (F64_Inf q) = (if p = q then F64_Inf p else F64_NaN)"

text \<open>\<^verbatim>\<open>Duration.Seconds\<close> and \<^verbatim>\<open>Duration.Round\<close> for a duration that is not negative.\<close>

definition duration_Seconds :: "int \<Rightarrow> f64" where
  "duration_Seconds d =
     f64_add (f64_of_int (go_div d 1000000000))
       (f64_div (f64_of_int (d - go_div d 1000000000 * 1000000000)) (f64_of_int 1000000000))"

definition duration_Round :: "int \<Rightarrow> int \<Rightarrow> int" where
  "duration_Round d m = (let r = d mod m in if 2 * r < m then d - r else d + m - r)"

definition per_second :: "u64 \<Rightarrow> int \<Rightarrow> f64" where
  "per_second n elapsed = f64_div (f64_of_int (uint n)) (duration_Seconds elapsed)"

text \<open>The statistics of the cache, zero when it gives an error.\<close>

definition cache_stats_of :: "'db badger \<Rightarrow> ('db, 'w) tiered_cache \<Rightarrow> cache_stats" where
  "cache_stats_of B c =
     (case Tiered_Stats B c of
        Inl err \<Rightarrow> \<lparr>cs_L0 = zero_l0_stats, cs_L1 = zero_l1_stats, cs_L2 = []\<rparr>
      | Inr st \<Rightarrow> st)"

text \<open>The header printed at the start.\<close>

record LoadTestConfig =
  lc_Duration :: int
  lc_WriteWorkers :: int
  lc_ReadWorkers :: int
  lc_MissWorkers :: int
  lc_VerifyWorkers :: int
  lc_L1DirectWorkers :: int
  lc_PayloadSizes :: "int list"
  lc_StatsInterval :: int
  lc_KeyRange :: int
  lc_MissPercentage :: int

definition start_lines :: "LoadTestConfig \<Rightarrow> print_call list" where
  "start_lines cfg =
     [(''Starting load test with configuration:'', []),
      (''  Duration: %v'', [PDuration (lc_Duration cfg)]),
      (''  Write Workers: %d'', [PInt (lc_WriteWorkers cfg)]),
      (''  Read Workers: %d'', [PInt (lc_ReadWorkers cfg)]),
      (''  Miss Workers: %d'', [PInt (lc_MissWorkers cfg)]),
      (''  Verify Workers: %d (Set -> L1.Get)'', [PInt (lc_VerifyWorkers cfg)]),
      (''  L1 Direct Workers: %d (L1.Set -> Get)'', [PInt (lc_L1DirectWorkers cfg)]),
      (''  Payload Sizes: %v KB'', [PInts (lc_PayloadSizes cfg)]),
      (''  Stats Interval: %v'', [PDuration (lc_StatsInterval cfg)]),
      (''  Key Range: %d'', [PInt (lc_KeyRange cfg)]),
      (''  Miss Percentage: %d%%'', [PInt (lc_MissPercentage cfg)])]"

subsection \<open>Periodic statistics\<close>

text \<open>\<open>clock\<close> is the time of day as text, \<open>elapsed\<close> the time since the start in nanoseconds.\<close>

definition printPeriodicStats ::
    "string \<Rightarrow> int \<Rightarrow> 'db badger \<Rightarrow> LoadTestStats \<Rightarrow> ('db, 'w) tiered_cache \<Rightarrow> print_call list" where
  "printPeriodicStats clock elapsed B stats cache =
     (let cacheStats = cache_stats_of B cache; s0 = cs_L0 cacheStats; s1 = cs_L1 cacheStats;
          reads = lt_TotalReads stats; misses = lt_TotalMisses stats; writes = lt_TotalWrites stats;
          writeErrors = lt_WriteErrors stats; readErrors = lt_ReadErrors stats;
          totalOps = reads + misses + writes;
          hitRate = success_rate reads misses;
          writeTPS = per_second writes elapsed; readTPS = per_second reads elapsed
      in [(''=== Periodic Stats (L0 & L1) ==='', []),
          (''Time: %v | Elapsed: %v'', [PStr clock, PDuration (duration_Round elapsed 1000000000)]),
          (''L0 Stats:'', []),
          (''  Entries: %d'', [PInt (s0_Entries s0)]),
          (''  Memory Used: %d bytes (%.2f MB)'', [PU (s0_MemoryUsed s0), PFloat (megabytes (s0_MemoryUsed s0))]),
          (''  Memory Limit: %d bytes (%.2f MB)'', [PU (s0_MemoryLimit s0), PFloat (megabytes (s0_MemoryLimit s0))]),
          (''  Hit Rate: %.2f%%'', [PFloat (f64_mul (s0_HitRate s0) (f64_of_int 100))]),
          (''  Hits: %d, Misses: %d'', [PU (s0_Hits s0), PU (s0_Misses s0)]),
          (''  Sets: %d, Evictions: %d'', [PU (s0_Sets s0), PU (s0_Evictions s0)]),
          (''L1 Stats:'', []),
          (''  Disk Usage: %d bytes (%.2f MB)'', [PU (s1_DiskUsage s1), PFloat (megabytes (s1_DiskUsage s1))]),
          (''  Hits: %d, Misses: %d'', [PU (s1_Hits s1), PU (s1_Misses s1)]),
          (''  Reads: %d, Writes: %d'', [PU (s1_Reads s1), PU (s1_Writes s1)]),
          (''Load Test Progress:'', []),
          (''  Total Writes: %d (errors: %d)'', [PU writes, PU writeErrors]),
          (''  Total Reads: %d (errors: %d)'', [PU reads, PU readErrors]),
          (''  Total Misses: %d'', [PU misses]),
          (''  Total Ops: %d'', [PU totalOps]),
          (''  Hit Rate: %.2f%%'', [PFloat hitRate]),
          (''Throughput:'', []),
          (''  Write TPS: %.2f'', [PFloat writeTPS]),
          (''  Read TPS: %.2f'', [PFloat readTPS])])"

subsection \<open>Final results\<close>

definition final_cache_lines :: "cache_stats \<Rightarrow> print_call list" where
  "final_cache_lines cacheStats =
     (let s0 = cs_L0 cacheStats; s1 = cs_L1 cacheStats
      in [(''--- L0 Cache Statistics ---'', []),
          (''  Entries: %d'', [PInt (s0_Entries s0)]),
          (''  Memory Used: %d bytes (%.2f MB / %.2f%%)'',
            [PU (s0_MemoryUsed s0), PFloat (megabytes (s0_MemoryUsed s0)),
             PFloat (percent_of (s0_MemoryUsed s0) (s0_MemoryLimit s0))]),
          (''  Hit Rate: %.2f%%'', [PFloat (f64_mul (s0_HitRate s0) (f64_of_int 100))]),
          (''  Hits: %d'', [PU (s0_Hits s0)]), (''  Misses: %d'', [PU (s0_Misses s0)]),
          (''  Sets: %d'', [PU (s0_Sets s0)]), (''  Evictions: %d'', [PU (s0_Evictions s0)]),
          (''  Deletes: %d'', [PU (s0_Deletes s0)]),
          (''--- L1 Cache Statistics ---'', []),
          (''  Disk Usage: %d bytes (%.2f MB)'', [PU (s1_DiskUsage s1), PFloat (megabytes (s1_DiskUsage s1))]),
          (''  Hit Rate: %.2f%%'', [PFloat (percent_of (s1_Hits s1) (s1_Hits s1 + s1_Misses s1))]),
          (''  Hits: %d'', [PU (s1_Hits s1)]), (''  Misses: %d'', [PU (s1_Misses s1)]),
          (''  Reads: %d'', [PU (s1_Reads s1)]), (''  Writes: %d'', [PU (s1_Writes s1)]),
          (''  Deletes: %d'', [PU (s1_Deletes s1)])])"

text \<open>A verification block is left out when nothing was verified.\<close>

definition verification_lines :: "string \<Rightarrow> u64 \<Rightarrow> u64 \<Rightarrow> print_call list" where
  "verification_lines title verifies failures =
     (if 0 < verifies \<or> 0 < failures then
        [(title, []), (''  Successful Verifications: %d'', [PU verifies]),
         (''  Failed Verifications: %d'', [PU failures]),
         (''  Verification Rate: %.2f%%'', [PFloat (success_rate verifies failures)])]
      else [])"

text \<open>One line for each payload size with a count above zero, in the order of the sizes.\<close>

definition size_line ::
    "int \<Rightarrow> (SizeStats \<Rightarrow> u64 \<times> i64 \<times> i64 \<times> i64 \<times> i64) \<Rightarrow> LoadTestStats \<Rightarrow> int \<Rightarrow> print_call list" where
  "size_line elapsed get stats kb =
     (case lt_SizeStats stats kb of
        None \<Rightarrow> []
      | Some st \<Rightarrow>
          (case get st of (cnt, p50, p90, p99, avg) \<Rightarrow>
             if 0 < cnt then
               [(''%-8d | %-10d | %-12d | %-12d | %-12d | %-12d | %-10.2f'',
                 [PInt kb, PU cnt, PInt (sint p50), PInt (sint p90), PInt (sint p99), PInt (sint avg),
                  PFloat (per_second cnt elapsed)])]
             else []))"

definition size_header :: "print_call list" where
  "size_header =
     [(''%-8s | %-10s | %-12s | %-12s | %-12s | %-12s | %-10s'',
       map PStr [''Size'', ''Count'', ''P50 (ns)'', ''P90 (ns)'', ''P99 (ns)'', ''Avg (ns)'', ''TPS'']),
      (''%-8s-+-%-10s-+-%-12s-+-%-12s-+-%-12s-+-%-12s-+-%-10s'',
       map PStr [''--------'', ''----------'', ''------------'', ''------------'', ''------------'',
         ''------------'', ''----------''])]"

definition printFinalStats ::
    "int \<Rightarrow> 'db badger \<Rightarrow> LoadTestStats \<Rightarrow> ('db, 'w) tiered_cache \<Rightarrow> int list \<Rightarrow> print_call list" where
  "printFinalStats elapsed B stats cache payloadSizes =
     (let writes = lt_TotalWrites stats; reads = lt_TotalReads stats; misses = lt_TotalMisses stats;
          totalOps = writes + reads + misses
      in [(''========================================'', []), (''       FINAL LOAD TEST RESULTS        '', []),
          (''========================================'', [])] @
         final_cache_lines (cache_stats_of B cache) @
         [(''--- Load Test Operations ---'', []),
          (''  Total Writes: %d (errors: %d)'', [PU writes, PU (lt_WriteErrors stats)]),
          (''  Total Reads: %d (errors: %d)'', [PU reads, PU (lt_ReadErrors stats)]),
          (''  Total Misses: %d'', [PU misses]), (''  Total Operations: %d'', [PU totalOps]),
          (''  Elapsed Time: %v'', [PDuration (duration_Round elapsed 1000000)])] @
         verification_lines ''--- L1 Verification (L0.Set -> L1.Get) ---''
           (lt_VerificationSuccess stats) (lt_VerificationFailure stats) @
         verification_lines ''--- L1 Direct Verification (L1.Set -> L0.Get) ---''
           (lt_L1DirectVerifySuccess stats) (lt_L1DirectVerifyFailure stats) @
         [(''--- Hit Rate ---'', []), (''  Read Hit Rate: %.2f%%'', [PFloat (success_rate reads misses)]),
          (''--- Overall Throughput ---'', []),
          (''  Write TPS: %.2f'', [PFloat (per_second writes elapsed)]),
          (''  Read TPS: %.2f'', [PFloat (per_second reads elapsed)]),
          (''--- Write Latency & TPS by Payload Size ---'', [])] @ size_header @
         concat (map (size_line elapsed GetWriteStats stats) payloadSizes) @ [('''', [])] @
         [(''--- Read Latency & TPS by Payload Size ---'', [])] @ size_header @
         concat (map (size_line elapsed GetReadStats stats) payloadSizes) @ [('''', [])] @
         [(''========================================'', [])])"

end
