(* ===== verification/LoadTest_Run.thy ===== *)
theory LoadTest_Run
  imports LoadTest_Report Tiered_Machine
begin

text \<open>
  The load test as a program (\<^verbatim>\<open>cmd/loadtest/main.go\<close>): its configuration and flags, the start of
  the cache, and its worker goroutines, which run against one cache until the context is cancelled.
  An event is one step of one goroutine: a round of a worker (two events for the workers that
  verify, which pause between their two calls of the cache), a worker that sees the cancelled
  context, the end of the duration or a signal, or background work of the cache itself.
\<close>

subsection \<open>Configuration\<close>

definition default_load_config :: LoadTestConfig where
  "default_load_config =
     \<lparr>lc_Duration = 30 * 1000000000, lc_WriteWorkers = 10, lc_ReadWorkers = 10, lc_MissWorkers = 5,
      lc_VerifyWorkers = 2, lc_L1DirectWorkers = 2, lc_PayloadSizes = [2, 4],
      lc_StatsInterval = 5 * 1000000000, lc_KeyRange = 100000, lc_MissPercentage = 30\<rparr>"

text \<open>The flags, as the flag package has parsed them, in the order given.\<close>

datatype load_flag =
    FConfig string | FDuration int | FWriteWorkers int | FReadWorkers int | FMissWorkers int
  | FVerifyWorkers int | FL1DirectWorkers int | FStatsInterval int | FKeyRange int | FMissPercentage int

fun set_flag :: "load_flag \<Rightarrow> string \<times> LoadTestConfig \<Rightarrow> string \<times> LoadTestConfig" where
  "set_flag (FConfig p) (path, cfg) = (p, cfg)"
| "set_flag (FDuration d) (path, cfg) = (path, cfg\<lparr>lc_Duration := d\<rparr>)"
| "set_flag (FWriteWorkers n) (path, cfg) = (path, cfg\<lparr>lc_WriteWorkers := n\<rparr>)"
| "set_flag (FReadWorkers n) (path, cfg) = (path, cfg\<lparr>lc_ReadWorkers := n\<rparr>)"
| "set_flag (FMissWorkers n) (path, cfg) = (path, cfg\<lparr>lc_MissWorkers := n\<rparr>)"
| "set_flag (FVerifyWorkers n) (path, cfg) = (path, cfg\<lparr>lc_VerifyWorkers := n\<rparr>)"
| "set_flag (FL1DirectWorkers n) (path, cfg) = (path, cfg\<lparr>lc_L1DirectWorkers := n\<rparr>)"
| "set_flag (FStatsInterval d) (path, cfg) = (path, cfg\<lparr>lc_StatsInterval := d\<rparr>)"
| "set_flag (FKeyRange n) (path, cfg) = (path, cfg\<lparr>lc_KeyRange := n\<rparr>)"
| "set_flag (FMissPercentage n) (path, cfg) = (path, cfg\<lparr>lc_MissPercentage := n\<rparr>)"

definition parsed_flags :: "load_flag list \<Rightarrow> string \<times> LoadTestConfig" where
  "parsed_flags fs = fold set_flag fs (''configs/config.yaml'', default_load_config)"

subsection \<open>Random choices\<close>

text \<open>\<^verbatim>\<open>r.Intn(n)\<close> panics unless \<open>n\<close> is positive; \<open>x\<close> is what the source drew.\<close>

definition Intn :: "nat \<Rightarrow> int \<Rightarrow> int option" where
  "Intn x n = (if n \<le> 0 then None else Some (int x mod n))"

record draws =
  dr_size :: nat
  dr_key :: nat
  dr_percent :: nat
  dr_bytes :: "nat \<Rightarrow> bytes"
  dr_wenv :: write_env
  dr_now :: "nat \<Rightarrow> go_time"
  dr_nano :: int
  dr_latency :: i64

definition pick_size :: "draws \<Rightarrow> LoadTestConfig \<Rightarrow> int option" where
  "pick_size r cfg = do {
     i \<leftarrow> Intn (dr_size r) (int (length (lc_PayloadSizes cfg)));
     Some (lc_PayloadSizes cfg ! nat i)
   }"

subsection \<open>Workers\<close>

datatype worker_kind = WriteWorker | ReadWorker | MissWorker | VerifyWorker | L1DirectWorker

text \<open>
  At the \<^verbatim>\<open>select\<close>; between the two calls of a verification, with the key and the payload; and
  returned.
\<close>

datatype worker_at = AtSelect | AfterSet string bytes | Returned

record load_worker =
  lw_kind :: worker_kind
  lw_id :: int
  lw_at :: worker_at

record ('db, 'w) load_state =
  ls_cache :: "('db, 'w) tiered_cache"
  ls_disk :: wal_disk
  ls_world :: 'w
  ls_stats :: LoadTestStats
  ls_workers :: "load_worker list"
  ls_cancelled :: bool

definition spawn :: "worker_kind \<Rightarrow> int \<Rightarrow> load_worker list" where
  "spawn kind n = map (\<lambda>i. \<lparr>lw_kind = kind, lw_id = int i, lw_at = AtSelect\<rparr>) [0..<nat n]"

definition load_init ::
    "LoadTestConfig \<Rightarrow> ('db, 'w) tiered_cache \<Rightarrow> wal_disk \<Rightarrow> 'w \<Rightarrow> ('db, 'w) load_state" where
  "load_init cfg c d w =
     \<lparr>ls_cache = c, ls_disk = d, ls_world = w, ls_stats = newLoadTestStats (lc_PayloadSizes cfg),
      ls_workers = spawn WriteWorker (lc_WriteWorkers cfg) @ spawn ReadWorker (lc_ReadWorkers cfg) @
        spawn MissWorker (lc_MissWorkers cfg) @ spawn VerifyWorker (lc_VerifyWorkers cfg) @
        spawn L1DirectWorker (lc_L1DirectWorkers cfg),
      ls_cancelled = False\<rparr>"

text \<open>The verification rounds in two halves; \<open>verify_tick_halves\<close> joins them.\<close>

definition verify_failed :: "LoadTestStats \<Rightarrow> LoadTestStats" where
  "verify_failed st = st\<lparr>lt_VerificationFailure := lt_VerificationFailure st + 1\<rparr>"

definition l1_direct_failed :: "LoadTestStats \<Rightarrow> LoadTestStats" where
  "l1_direct_failed st = st\<lparr>lt_L1DirectVerifyFailure := lt_L1DirectVerifyFailure st + 1\<rparr>"

definition verify_set ::
    "'db badger \<Rightarrow> (int \<Rightarrow> string) \<Rightarrow> write_env \<Rightarrow> go_time \<Rightarrow> go_time \<Rightarrow> string \<Rightarrow> bytes \<Rightarrow>
     ('db, 'w) tiered_cache \<times> wal_disk \<times> LoadTestStats \<Rightarrow>
     (('db, 'w) tiered_cache \<times> wal_disk \<times> LoadTestStats \<times> worker_at) option" where
  "verify_set B wt wenv now0 now1 key payload s =
     (case s of (c, d, st) \<Rightarrow> do {
        (c1, d1, err) \<leftarrow> Tiered_Set B wt wenv now0 now1 key payload 0 c d;
        Some (if err \<noteq> None then (c1, d1, verify_failed st, AtSelect)
              else (c1, d1, st, AfterSet key payload))
      })"

definition verify_get ::
    "'db badger \<Rightarrow> go_time \<Rightarrow> string \<Rightarrow> bytes \<Rightarrow> ('db, 'w) tiered_cache \<times> LoadTestStats \<Rightarrow>
     (('db, 'w) tiered_cache \<times> LoadTestStats) option" where
  "verify_get B now key payload s =
     (case s of (c, st) \<Rightarrow> do {
        (c1, r) \<leftarrow> GetFromL1 B now key c;
        Some (c1, case r of
            Inl e \<Rightarrow> verify_failed st
          | Inr l1Value \<Rightarrow> if verified l1Value payload
              then st\<lparr>lt_VerificationSuccess := lt_VerificationSuccess st + 1\<rparr> else verify_failed st)
      })"

definition l1_direct_set ::
    "'db badger \<Rightarrow> go_time \<Rightarrow> string \<Rightarrow> bytes \<Rightarrow> ('db, 'w) tiered_cache \<times> LoadTestStats \<Rightarrow>
     (('db, 'w) tiered_cache \<times> LoadTestStats \<times> worker_at) option" where
  "l1_direct_set B now key payload s =
     (case s of (c, st) \<Rightarrow> do {
        (c1, err) \<leftarrow> SetToL1 B now key payload 0 c;
        Some (if err \<noteq> None then (c1, l1_direct_failed st, AtSelect) else (c1, st, AfterSet key payload))
      })"

definition l1_direct_get ::
    "'db badger \<Rightarrow> go_time \<Rightarrow> go_time \<Rightarrow> 'w \<Rightarrow> string \<Rightarrow> bytes \<Rightarrow> ('db, 'w) tiered_cache \<times> LoadTestStats \<Rightarrow>
     (('db, 'w) tiered_cache \<times> LoadTestStats) option" where
  "l1_direct_get B now0 now1 w key payload s =
     (case s of (c, st) \<Rightarrow> do {
        (c1, r) \<leftarrow> Tiered_Get B now0 now1 w key c;
        Some (c1, case r of
            Inl e \<Rightarrow> l1_direct_failed st
          | Inr value \<Rightarrow> if verified value payload
              then st\<lparr>lt_L1DirectVerifySuccess := lt_L1DirectVerifySuccess st + 1\<rparr> else l1_direct_failed st)
      })"

text \<open>
  What each kind of worker does at its tick: the effect on cache, log and statistics, and where it
  is then.
\<close>

definition write_round ::
    "'db badger \<Rightarrow> (int \<Rightarrow> string) \<Rightarrow> LoadTestConfig \<Rightarrow> 'w \<Rightarrow> load_worker \<Rightarrow> draws \<Rightarrow>
     ('db, 'w) tiered_cache \<times> wal_disk \<times> LoadTestStats \<Rightarrow>
     (('db, 'w) tiered_cache \<times> wal_disk \<times> LoadTestStats \<times> worker_at) option" where
  [simp]: "write_round B wt cfg w wk r s =
     (case s of (c, d, st) \<Rightarrow> do {
        n \<leftarrow> pick_size r cfg;
        keyIndex \<leftarrow> Intn (dr_key r) (lc_KeyRange cfg);
        (c1, d1, st1) \<leftarrow> write_tick B wt (dr_wenv r) (dr_now r 0) (dr_now r 1) (dr_bytes r) n keyIndex
          (dr_latency r) (c, d, st);
        Some (c1, d1, st1, AtSelect)
      })"

definition read_round ::
    "'db badger \<Rightarrow> (int \<Rightarrow> string) \<Rightarrow> LoadTestConfig \<Rightarrow> 'w \<Rightarrow> load_worker \<Rightarrow> draws \<Rightarrow>
     ('db, 'w) tiered_cache \<times> wal_disk \<times> LoadTestStats \<Rightarrow>
     (('db, 'w) tiered_cache \<times> wal_disk \<times> LoadTestStats \<times> worker_at) option" where
  [simp]: "read_round B wt cfg w wk r s =
     (case s of (c, d, st) \<Rightarrow> do {
        n \<leftarrow> pick_size r cfg;
        keyIndex \<leftarrow> Intn (dr_key r) (lc_KeyRange cfg);
        (c1, st1) \<leftarrow> read_tick B (dr_now r 0) (dr_now r 1) w n keyIndex (dr_latency r) (c, st);
        Some (c1, d, st1, AtSelect)
      })"

definition miss_round ::
    "'db badger \<Rightarrow> (int \<Rightarrow> string) \<Rightarrow> LoadTestConfig \<Rightarrow> 'w \<Rightarrow> load_worker \<Rightarrow> draws \<Rightarrow>
     ('db, 'w) tiered_cache \<times> wal_disk \<times> LoadTestStats \<Rightarrow>
     (('db, 'w) tiered_cache \<times> wal_disk \<times> LoadTestStats \<times> worker_at) option" where
  [simp]: "miss_round B wt cfg w wk r s =
     (case s of (c, d, st) \<Rightarrow> do {
        percent \<leftarrow> Intn (dr_percent r) 100;
        keyIndex \<leftarrow> Intn (dr_key r) (lc_KeyRange cfg);
        n \<leftarrow> pick_size r cfg;
        (c1, st1) \<leftarrow> miss_tick B (dr_now r 0) (dr_now r 1) w (lc_KeyRange cfg) (lc_MissPercentage cfg)
          percent keyIndex (dr_latency r) (c, st);
        Some (c1, d, st1, AtSelect)
      })"

definition verify_round ::
    "'db badger \<Rightarrow> (int \<Rightarrow> string) \<Rightarrow> LoadTestConfig \<Rightarrow> 'w \<Rightarrow> load_worker \<Rightarrow> draws \<Rightarrow>
     ('db, 'w) tiered_cache \<times> wal_disk \<times> LoadTestStats \<Rightarrow>
     (('db, 'w) tiered_cache \<times> wal_disk \<times> LoadTestStats \<times> worker_at) option" where
  [simp]: "verify_round B wt cfg w wk r s =
     (case s of (c, d, st) \<Rightarrow>
       (case lw_at wk of
          AfterSet key payload \<Rightarrow> do {
            (c1, st1) \<leftarrow> verify_get B (dr_now r 2) key payload (c, st);
            Some (c1, d, st1, AtSelect)
          }
        | _ \<Rightarrow> do {
            n \<leftarrow> pick_size r cfg;
            payload \<leftarrow> GeneratePayload (dr_bytes r) n;
            keyIndex \<leftarrow> Intn (dr_key r) (lc_KeyRange cfg);
            verify_set B wt (dr_wenv r) (dr_now r 0) (dr_now r 1)
              (verify_key ''verify'' (dr_nano r) keyIndex (lw_id wk)) payload (c, d, st)
          }))"

definition l1_direct_round ::
    "'db badger \<Rightarrow> (int \<Rightarrow> string) \<Rightarrow> LoadTestConfig \<Rightarrow> 'w \<Rightarrow> load_worker \<Rightarrow> draws \<Rightarrow>
     ('db, 'w) tiered_cache \<times> wal_disk \<times> LoadTestStats \<Rightarrow>
     (('db, 'w) tiered_cache \<times> wal_disk \<times> LoadTestStats \<times> worker_at) option" where
  [simp]: "l1_direct_round B wt cfg w wk r s =
     (case s of (c, d, st) \<Rightarrow>
       (case lw_at wk of
          AfterSet key payload \<Rightarrow> do {
            (c1, st1) \<leftarrow> l1_direct_get B (dr_now r 1) (dr_now r 2) w key payload (c, st);
            Some (c1, d, st1, AtSelect)
          }
        | _ \<Rightarrow> do {
            n \<leftarrow> pick_size r cfg;
            payload \<leftarrow> GeneratePayload (dr_bytes r) n;
            keyIndex \<leftarrow> Intn (dr_key r) (lc_KeyRange cfg);
            (c1, st1, p) \<leftarrow> l1_direct_set B (dr_now r 0)
              (verify_key ''l1direct'' (dr_nano r) keyIndex (lw_id wk)) payload (c, st);
            Some (c1, d, st1, p)
          }))"

definition worker_tick ::
    "'db badger \<Rightarrow> (int \<Rightarrow> string) \<Rightarrow> LoadTestConfig \<Rightarrow> 'w \<Rightarrow> load_worker \<Rightarrow> draws \<Rightarrow>
     ('db, 'w) tiered_cache \<times> wal_disk \<times> LoadTestStats \<Rightarrow>
     (('db, 'w) tiered_cache \<times> wal_disk \<times> LoadTestStats \<times> worker_at) option" where
  "worker_tick B wt cfg w wk r s =
     (case lw_kind wk of
        WriteWorker \<Rightarrow> write_round B wt cfg w wk r s
      | ReadWorker \<Rightarrow> read_round B wt cfg w wk r s
      | MissWorker \<Rightarrow> miss_round B wt cfg w wk r s
      | VerifyWorker \<Rightarrow> verify_round B wt cfg w wk r s
      | L1DirectWorker \<Rightarrow> l1_direct_round B wt cfg w wk r s)"

subsection \<open>Runs\<close>

text \<open>
  \<open>Tick i r\<close>: worker \<open>i\<close> takes its next step with the draws \<open>r\<close>, also after the cancellation, as the
  \<^verbatim>\<open>select\<close> may choose the ticker; \<open>Leave i\<close>: it chooses the cancelled context. \<open>Stop\<close>: the duration
  has passed or a signal came. \<open>Background\<close>: the promotions and the tiering of the cache, and the
  filling of L0 from a snapshot. An event that is not enabled changes nothing.
\<close>

datatype load_event = Tick nat draws | Leave nat | Stop | Background tiered_event

text \<open>What of the cache's events can come while the load test runs.\<close>

fun load_event_ok :: "load_event \<Rightarrow> bool" where
  "load_event_ok (Background ev) \<longleftrightarrow>
     event_ok ev \<and> (case ev of EvPromote i now \<Rightarrow> True | EvTiering iter clk \<Rightarrow> True
       | EvRestore stat globbed unmh unm clk opened \<Rightarrow> True | _ \<Rightarrow> False)"
| "load_event_ok _ \<longleftrightarrow> True"

definition put_worker :: "nat \<Rightarrow> worker_at \<Rightarrow> load_worker list \<Rightarrow> load_worker list" where
  "put_worker i p ws = ws[i := (ws ! i)\<lparr>lw_at := p\<rparr>]"

fun load_exec ::
    "'db badger \<Rightarrow> (int \<Rightarrow> string) \<Rightarrow> LoadTestConfig \<Rightarrow> load_event \<Rightarrow> ('db, 'w) load_state \<Rightarrow>
     ('db, 'w) load_state option" where
  "load_exec B wt cfg (Tick i r) s =
     (if i < length (ls_workers s) \<and> lw_at (ls_workers s ! i) \<noteq> Returned then
        map_option (\<lambda>(c, d, st, p). s\<lparr>ls_cache := c, ls_disk := d, ls_stats := st,
            ls_workers := put_worker i p (ls_workers s)\<rparr>)
          (worker_tick B wt cfg (ls_world s) (ls_workers s ! i) r (ls_cache s, ls_disk s, ls_stats s))
      else Some s)"
| "load_exec B wt cfg (Leave i) s =
     Some (if i < length (ls_workers s) \<and> ls_cancelled s \<and> lw_at (ls_workers s ! i) = AtSelect
           then s\<lparr>ls_workers := put_worker i Returned (ls_workers s)\<rparr> else s)"
| "load_exec B wt cfg Stop s = Some (s\<lparr>ls_cancelled := True\<rparr>)"
| "load_exec B wt cfg (Background ev) s =
     map_option (\<lambda>(c, d, w). s\<lparr>ls_cache := c, ls_disk := d, ls_world := w\<rparr>)
       (tiered_exec B wt ev (ls_cache s, ls_disk s, ls_world s))"

text \<open>\<^verbatim>\<open>wg.Wait\<close> returns when all workers have.\<close>

definition all_returned :: "('db, 'w) load_state \<Rightarrow> bool" where
  "all_returned s \<longleftrightarrow> list_all (\<lambda>wk. lw_at wk = Returned) (ls_workers s)"

text \<open>
  \<^verbatim>\<open>runLoadTest\<close>: an error of the start, with its text; the panic of \<^verbatim>\<open>NewTicker\<close> on an interval that
  is not positive, before any worker is started; a panic of a worker; or a run to the end, with what
  the start and the end print and the cache after its closing. The periodic statistics only read.
\<close>

datatype ('db, 'w) load_result =
    LoadError go_error
  | LoadPanic
  | LoadDone "print_call list" "('db, 'w) tiered_cache"

inductive runLoadTest ::
    "(gval \<Rightarrow> string) \<Rightarrow> 'fs config_env \<Rightarrow> 'fs \<Rightarrow> new_env \<Rightarrow> wal_disk \<Rightarrow> 'db badger \<Rightarrow> mkdir_env \<Rightarrow>
     (f64 \<Rightarrow> u64) \<Rightarrow> snap_env \<Rightarrow> dir \<Rightarrow> (nat \<Rightarrow> go_time) \<Rightarrow> recover_env \<Rightarrow> close_env \<Rightarrow> 'w \<Rightarrow> (int \<Rightarrow> string) \<Rightarrow>
     LoadTestConfig \<Rightarrow> string \<Rightarrow> ('db, 'w) load_result \<Rightarrow> bool"
  for show_v and env :: "'fs config_env" and fs and ne and d and B :: "'db badger" and mk and oor and senv and
    sdir and clk and rv and cenv and w :: 'w and wt and cfg and configPath where
  no_config: "Load show_v env configPath fs = Inl err \<Longrightarrow>
    runLoadTest show_v env fs ne d B mk oor senv sdir clk rv cenv w wt cfg configPath
      (LoadError (Errorf (''failed to load config from '' @ configPath @ '': '') (Some err)))"
| no_cache: "Load show_v env configPath fs = Inr tcfg \<Longrightarrow>
    Tiered_New show_v ne (Some tcfg) d = (d1, Inl err :: go_error + ('db, 'w) tiered_cache) \<Longrightarrow>
    runLoadTest show_v env fs ne d B mk oor senv sdir clk rv cenv w wt cfg configPath
      (LoadError (Errorf ''failed to create tiered cache: '' (Some err)))"
| no_init: "Load show_v env configPath fs = Inr tcfg \<Longrightarrow> Tiered_New show_v ne (Some tcfg) d = (d1, Inr (c0 :: ('db, 'w) tiered_cache)) \<Longrightarrow>
    Initialize B mk oor senv sdir clk rv d1 c0 c rb (Some err) \<Longrightarrow>
    runLoadTest show_v env fs ne d B mk oor senv sdir clk rv cenv w wt cfg configPath
      (LoadError (Errorf ''failed to initialize tiered cache: '' (Some err)))"
| no_ticker: "Load show_v env configPath fs = Inr tcfg \<Longrightarrow> Tiered_New show_v ne (Some tcfg) d = (d1, Inr (c0 :: ('db, 'w) tiered_cache)) \<Longrightarrow>
    Initialize B mk oor senv sdir clk rv d1 c0 c rb None \<Longrightarrow> lc_StatsInterval cfg \<le> 0 \<Longrightarrow>
    runLoadTest show_v env fs ne d B mk oor senv sdir clk rv cenv w wt cfg configPath LoadPanic"
| panicked: "Load show_v env configPath fs = Inr tcfg \<Longrightarrow> Tiered_New show_v ne (Some tcfg) d = (d1, Inr c0) \<Longrightarrow>
    Initialize B mk oor senv sdir clk rv d1 c0 c rb None \<Longrightarrow> 0 < lc_StatsInterval cfg \<Longrightarrow>
    list_all load_event_ok evs \<Longrightarrow> run_events (load_exec B wt cfg) evs (load_init cfg c d1 w) = None \<Longrightarrow>
    runLoadTest show_v env fs ne d B mk oor senv sdir clk rv cenv w wt cfg configPath LoadPanic"
| finished: "Load show_v env configPath fs = Inr tcfg \<Longrightarrow> Tiered_New show_v ne (Some tcfg) d = (d1, Inr c0) \<Longrightarrow>
    Initialize B mk oor senv sdir clk rv d1 c0 c rb None \<Longrightarrow> 0 < lc_StatsInterval cfg \<Longrightarrow>
    list_all load_event_ok evs \<Longrightarrow> run_events (load_exec B wt cfg) evs (load_init cfg c d1 w) = Some s \<Longrightarrow>
    all_returned s \<Longrightarrow> Tiered_Close B cenv (ls_world s) (ls_cache s) = (c1, w1, cerr) \<Longrightarrow>
    runLoadTest show_v env fs ne d B mk oor senv sdir clk rv cenv w wt cfg configPath
      (LoadDone (start_lines cfg @ printFinalStats elapsed B (ls_stats s) (ls_cache s) (lc_PayloadSizes cfg)) c1)"

text \<open>The exit status of \<^verbatim>\<open>main\<close>: a panic exits with 2.\<close>

fun exit_status :: "('db, 'w) load_result \<Rightarrow> int" where
  "exit_status (LoadError e) = 1"
| "exit_status LoadPanic = 2"
| "exit_status (LoadDone ps c) = 0"

end
