(* ===== verification/LoadTest_Run_Props.thy ===== *)
theory LoadTest_Run_Props
  imports LoadTest_Run LoadTest_Props
begin

text \<open>
  The load test as a program: no interleaving of its workers with the background work of the cache
  panics unless its flags ask for it, its counters account for every round, and once stopped it can
  always come to its end.
\<close>

subsection \<open>The rounds\<close>

lemma verify_tick_halves:
  "verify_tick B wt wenv now0 now1 now2 nano keyIndex worker rnd n (c, d, st) = do {
     payload \<leftarrow> GeneratePayload rnd n;
     (c1, d1, st1, p) \<leftarrow> verify_set B wt wenv now0 now1 (verify_key ''verify'' nano keyIndex worker) payload (c, d, st);
     (case p of
        AfterSet key payload \<Rightarrow> map_option (\<lambda>(c2, st2). (c2, d1, st2)) (verify_get B now2 key payload (c1, st1))
      | _ \<Rightarrow> Some (c1, d1, st1))
   }"
  by (auto simp: verify_tick_def verify_set_def verify_get_def verify_failed_def Let_def bind_eq_Some_conv
      split: Option.bind_split option.split prod.split sum.split)

lemma l1_direct_tick_halves:
  "l1_direct_tick B now0 now1 now2 w nano keyIndex worker rnd n (c, st) = do {
     payload \<leftarrow> GeneratePayload rnd n;
     (c1, st1, p) \<leftarrow> l1_direct_set B now0 (verify_key ''l1direct'' nano keyIndex worker) payload (c, st);
     (case p of
        AfterSet key payload \<Rightarrow> l1_direct_get B now1 now2 w key payload (c1, st1)
      | _ \<Rightarrow> Some (c1, st1))
   }"
  by (auto simp: l1_direct_tick_def l1_direct_set_def l1_direct_get_def l1_direct_failed_def Let_def
      split: Option.bind_split option.split prod.split sum.split)

text \<open>What of the statistics counts the rounds of a kind; readers and miss testers share counters.\<close>

fun rounds_counted :: "worker_kind \<Rightarrow> LoadTestStats \<Rightarrow> u64" where
  "rounds_counted WriteWorker st = lt_TotalWrites st + lt_WriteErrors st"
| "rounds_counted ReadWorker st = lt_TotalReads st + lt_TotalMisses st + lt_ReadErrors st + lt_MissErrors st"
| "rounds_counted MissWorker st = lt_TotalReads st + lt_TotalMisses st + lt_ReadErrors st + lt_MissErrors st"
| "rounds_counted VerifyWorker st = lt_VerificationSuccess st + lt_VerificationFailure st"
| "rounds_counted L1DirectWorker st = lt_L1DirectVerifySuccess st + lt_L1DirectVerifyFailure st"

fun counted_together :: "worker_kind \<Rightarrow> worker_kind \<Rightarrow> bool" where
  "counted_together ReadWorker k \<longleftrightarrow> k = ReadWorker \<or> k = MissWorker"
| "counted_together MissWorker k \<longleftrightarrow> k = ReadWorker \<or> k = MissWorker"
| "counted_together k k' \<longleftrightarrow> k = k'"

lemma on_size_counters [simp]:
  "lt_TotalWrites (on_size n f st) = lt_TotalWrites st" "lt_WriteErrors (on_size n f st) = lt_WriteErrors st"
  "lt_TotalReads (on_size n f st) = lt_TotalReads st" "lt_TotalMisses (on_size n f st) = lt_TotalMisses st"
  "lt_ReadErrors (on_size n f st) = lt_ReadErrors st" "lt_MissErrors (on_size n f st) = lt_MissErrors st"
  "lt_VerificationSuccess (on_size n f st) = lt_VerificationSuccess st"
  "lt_VerificationFailure (on_size n f st) = lt_VerificationFailure st"
  "lt_L1DirectVerifySuccess (on_size n f st) = lt_L1DirectVerifySuccess st"
  "lt_L1DirectVerifyFailure (on_size n f st) = lt_L1DirectVerifyFailure st"
  by (simp_all add: on_size_def split: option.split)

lemma recorders_count:
  "rounds_counted k (recordWrite l n st) = rounds_counted k st + (if k = WriteWorker then 1 else 0)"
  "rounds_counted k (recordWriteError st) = rounds_counted k st + (if k = WriteWorker then 1 else 0)"
  "rounds_counted k (recordRead l n found st) =
     rounds_counted k st + (if counted_together k ReadWorker then 1 else 0)"
  "rounds_counted k (recordReadError st) = rounds_counted k st + (if counted_together k ReadWorker then 1 else 0)"
  "rounds_counted k (recordMissError st) = rounds_counted k st + (if counted_together k ReadWorker then 1 else 0)"
  "rounds_counted k (verify_failed st) = rounds_counted k st + (if k = VerifyWorker then 1 else 0)"
  "rounds_counted k (l1_direct_failed st) = rounds_counted k st + (if k = L1DirectWorker then 1 else 0)"
  "rounds_counted k (st\<lparr>lt_VerificationSuccess := lt_VerificationSuccess st + 1\<rparr>) =
     rounds_counted k st + (if k = VerifyWorker then 1 else 0)"
  "rounds_counted k (st\<lparr>lt_L1DirectVerifySuccess := lt_L1DirectVerifySuccess st + 1\<rparr>) =
     rounds_counted k st + (if k = L1DirectWorker then 1 else 0)"
  by (cases k; simp add: recordWrite_def recordWriteError_def recordRead_def recordReadError_def
      recordMissError_def verify_failed_def l1_direct_failed_def Let_def)+

declare rounds_counted.simps [simp del]

lemma counted_with:
  "counted_together k WriteWorker \<longleftrightarrow> k = WriteWorker" "counted_together k VerifyWorker \<longleftrightarrow> k = VerifyWorker"
  "counted_together k L1DirectWorker \<longleftrightarrow> k = L1DirectWorker"
  "counted_together k MissWorker \<longleftrightarrow> counted_together k ReadWorker"
  by (cases k; simp)+

text \<open>Each step of a worker that ends a round counts it, once.\<close>

lemma worker_tick_counts:
  assumes "worker_tick B wt cfg w wk r (c, d, st) = Some (c', d', st', p)"
  shows "p \<noteq> Returned" and "rounds_counted k st' =
    rounds_counted k st + (if p = AtSelect \<and> counted_together k (lw_kind wk) then 1 else 0)"
proof -
  note defs = write_tick_def read_tick_def miss_tick_def verify_set_def verify_get_def l1_direct_set_def
    l1_direct_get_def Let_def
  have "p \<noteq> Returned \<and> rounds_counted k st' =
    rounds_counted k st + (if p = AtSelect \<and> counted_together k (lw_kind wk) then 1 else 0)"
  proof (cases "lw_kind wk")
    case WriteWorker
    then show ?thesis using assms
      by (auto simp: worker_tick_def defs recorders_count counted_with bind_eq_Some_conv split: if_split_asm)
  next
    case ReadWorker
    then show ?thesis using assms
      by (auto simp: worker_tick_def defs recorders_count counted_with bind_eq_Some_conv split: sum.split)
  next
    case MissWorker
    then show ?thesis using assms
      by (auto simp: worker_tick_def defs recorders_count counted_with bind_eq_Some_conv split: sum.split)
  next
    case VerifyWorker
    then show ?thesis using assms
      by (cases "lw_at wk") (auto simp: worker_tick_def defs recorders_count counted_with bind_eq_Some_conv
        split: if_split_asm sum.split)
  next
    case L1DirectWorker
    then show ?thesis using assms
      by (cases "lw_at wk") (auto simp: worker_tick_def defs recorders_count counted_with bind_eq_Some_conv
        split: if_split_asm sum.split)
  qed
  then show "p \<noteq> Returned" "rounds_counted k st' =
    rounds_counted k st + (if p = AtSelect \<and> counted_together k (lw_kind wk) then 1 else 0)"
    by blast+
qed

subsection \<open>What every run keeps\<close>

definition load_cfg_ok :: "LoadTestConfig \<Rightarrow> bool" where
  "load_cfg_ok cfg \<longleftrightarrow> lc_PayloadSizes cfg \<noteq> [] \<and> (\<forall>n \<in> set (lc_PayloadSizes cfg). 0 \<le> n) \<and> 0 < lc_KeyRange cfg"

text \<open>The counts by payload size add up to the writes counted.\<close>

definition sizes_add_up :: "LoadTestConfig \<Rightarrow> LoadTestStats \<Rightarrow> bool" where
  "sizes_add_up cfg st \<longleftrightarrow> dom (lt_SizeStats st) = set (lc_PayloadSizes cfg) \<and>
     lt_TotalWrites st = (\<Sum>n \<in> set (lc_PayloadSizes cfg). ss_WriteCount (the (lt_SizeStats st n)))"

definition load_inv :: "'db badger \<Rightarrow> ('db \<Rightarrow> contents) \<Rightarrow> LoadTestConfig \<Rightarrow> ('db, 'w) load_state \<Rightarrow> bool" where
  "load_inv B cont cfg s \<longleftrightarrow>
     badger_ok B cont \<and> load_cfg_ok cfg \<and> ready (ls_cache s) \<and> sizes_add_up cfg (ls_stats s)"

lemma sizes_write:
  assumes "sizes_add_up cfg st" and "n \<in> set (lc_PayloadSizes cfg)"
  shows "sizes_add_up cfg (recordWrite l n st)"
proof -
  let ?S = "set (lc_PayloadSizes cfg)"
  obtain x where x: "lt_SizeStats st n = Some x" using assms by (auto simp: sizes_add_up_def)
  have st': "lt_SizeStats (recordWrite l n st) = (lt_SizeStats st)(n \<mapsto> RecordWrite l x)"
      "lt_TotalWrites (recordWrite l n st) = lt_TotalWrites st + 1"
    using x by (simp_all add: recordWrite_def on_size_def)
  have "(\<Sum>k \<in> ?S. ss_WriteCount (the (((lt_SizeStats st)(n \<mapsto> RecordWrite l x)) k))) =
      ss_WriteCount x + 1 + (\<Sum>k \<in> ?S - {n}. ss_WriteCount (the (lt_SizeStats st k)))"
    by (simp add: sum.remove [OF _ assms(2)] RecordWrite_def)
  also have "\<dots> = (\<Sum>k \<in> ?S. ss_WriteCount (the (lt_SizeStats st k))) + 1"
    by (simp add: sum.remove [OF _ assms(2)] x)
  finally show ?thesis using assms by (auto simp: sizes_add_up_def st')
qed

lemma sizes_read: "sizes_add_up cfg st \<Longrightarrow> sizes_add_up cfg (recordRead l n found st)"
proof -
  have upd: "sizes_add_up cfg (on_size k (RecordRead l) st)" if "sizes_add_up cfg st" for k st
  proof (cases "lt_SizeStats st k")
    case (Some x)
    then have k: "k \<in> set (lc_PayloadSizes cfg)" using that by (auto simp: sizes_add_up_def)
    have "(\<Sum>n \<in> set (lc_PayloadSizes cfg). ss_WriteCount (the (((lt_SizeStats st)(k \<mapsto> RecordRead l x)) n))) =
        (\<Sum>n \<in> set (lc_PayloadSizes cfg). ss_WriteCount (the (lt_SizeStats st n)))"
      by (rule sum.cong) (simp_all add: Some RecordRead_def)
    then show ?thesis using that Some k by (auto simp: on_size_def sizes_add_up_def)
  qed (use that in \<open>simp add: on_size_def\<close>)
  show "sizes_add_up cfg st \<Longrightarrow> sizes_add_up cfg (recordRead l n found st)"
    using upd [of st n] upd [of "st\<lparr>lt_TotalReads := lt_TotalReads st + 1\<rparr>" n]
      upd [of "st\<lparr>lt_TotalMisses := lt_TotalMisses st + 1\<rparr>" 1]
    by (simp add: recordRead_def Let_def sizes_add_up_def)
qed

lemma sizes_other:
  "sizes_add_up cfg (recordWriteError st) = sizes_add_up cfg st"
  "sizes_add_up cfg (recordReadError st) = sizes_add_up cfg st"
  "sizes_add_up cfg (recordMissError st) = sizes_add_up cfg st"
  "sizes_add_up cfg (verify_failed st) = sizes_add_up cfg st"
  "sizes_add_up cfg (l1_direct_failed st) = sizes_add_up cfg st"
  "sizes_add_up cfg (st\<lparr>lt_VerificationSuccess := a\<rparr>) = sizes_add_up cfg st"
  "sizes_add_up cfg (st\<lparr>lt_L1DirectVerifySuccess := a\<rparr>) = sizes_add_up cfg st"
  by (simp_all add: sizes_add_up_def recordWriteError_def recordReadError_def recordMissError_def
      verify_failed_def l1_direct_failed_def)

lemma pick_size_ok:
  assumes "lc_PayloadSizes cfg \<noteq> []"
  obtains n where "pick_size r cfg = Some n" "n \<in> set (lc_PayloadSizes cfg)"
proof -
  let ?m = "int (length (lc_PayloadSizes cfg))"
  have "pick_size r cfg = Some (lc_PayloadSizes cfg ! nat (int (dr_size r) mod ?m))"
    using assms by (simp add: pick_size_def Intn_def)
  moreover have "nat (int (dr_size r) mod ?m) < length (lc_PayloadSizes cfg)"
    using assms by (simp add: nat_less_iff)
  ultimately show thesis using that nth_mem by blast
qed

text \<open>Each step of a worker, on a configuration without its pitfalls.\<close>

lemma worker_tick_safe:
  assumes "badger_ok B cont" and "load_cfg_ok cfg" and "ready c" and "sizes_add_up cfg st"
  shows "\<exists>c' d' st' p. worker_tick B wt cfg w wk r (c, d, st) = Some (c', d', st', p) \<and> ready c' \<and>
    sizes_add_up cfg st'"
proof -
  obtain n where n: "pick_size r cfg = Some n" "n \<in> set (lc_PayloadSizes cfg)"
    using pick_size_ok assms(2) by (auto simp: load_cfg_ok_def)
  obtain i where i: "Intn (dr_key r) (lc_KeyRange cfg) = Some i"
    using assms(2) by (simp add: load_cfg_ok_def Intn_def)
  obtain q where q: "Intn (dr_percent r) 100 = Some q" by (simp add: Intn_def)
  have "0 \<le> n" using n(2) assms(2) by (simp add: load_cfg_ok_def)
  then obtain v where v: "GeneratePayload (dr_bytes r) n = Some v"
    by (cases "16 < n") (auto simp: GeneratePayload_def Let_def)
  note set = Tiered_Set_safe [OF assms(1,3)] and get = Tiered_Get_safe [OF assms(1,3)]
    and l1 = L1_calls_safe [OF assms(1,3)]
  show ?thesis
  proof (cases "lw_kind wk")
    case WriteWorker
    obtain c1 d1 e where "Tiered_Set B wt (dr_wenv r) (dr_now r 0) (dr_now r 1) (GenerateKey i) v 0 c d =
        Some (c1, d1, e)" "ready c1"
      using set by blast
    then show ?thesis
      using WriteWorker n i v assms(4) sizes_write by (simp add: worker_tick_def write_tick_def sizes_other)
  next
    case ReadWorker
    obtain c1 x where "Tiered_Get B (dr_now r 0) (dr_now r 1) w (GenerateKey i) c = Some (c1, x)" "ready c1"
      using get by blast
    then show ?thesis
      using ReadWorker n i assms(4) sizes_read
      by (simp add: worker_tick_def read_tick_def sizes_other split: sum.split)
  next
    case MissWorker
    obtain c1 x where "Tiered_Get B (dr_now r 0) (dr_now r 1) w
        (if q < lc_MissPercentage cfg then miss_key (lc_KeyRange cfg + i) else GenerateKey i) c = Some (c1, x)"
        "ready c1"
      using get by blast
    then show ?thesis
      using MissWorker n i q assms(4) sizes_read
      by (simp add: worker_tick_def miss_tick_def sizes_other Let_def split: sum.split)
  next
    case VerifyWorker
    show ?thesis
    proof (cases "lw_at wk")
      case (AfterSet key payload)
      obtain c1 x where "GetFromL1 B (dr_now r 2) key c = Some (c1, x)" "ready c1" using l1(2) by blast
      then show ?thesis
        using VerifyWorker AfterSet assms(4)
        by (simp add: worker_tick_def verify_get_def sizes_other split: sum.split)
    qed (use VerifyWorker n i v assms(4)
        set [of wt "dr_wenv r" "dr_now r 0" "dr_now r 1" "verify_key ''verify'' (dr_nano r) i (lw_id wk)" v 0 d]
        in \<open>auto simp: worker_tick_def verify_set_def sizes_other\<close>)
  next
    case L1DirectWorker
    show ?thesis
    proof (cases "lw_at wk")
      case (AfterSet key payload)
      obtain c1 x where "Tiered_Get B (dr_now r 1) (dr_now r 2) w key c = Some (c1, x)" "ready c1"
        using get by blast
      then show ?thesis
        using L1DirectWorker AfterSet assms(4)
        by (simp add: worker_tick_def l1_direct_get_def sizes_other split: sum.split)
    qed (use L1DirectWorker n i v assms(4)
        l1(1) [of "dr_now r 0" "verify_key ''l1direct'' (dr_nano r) i (lw_id wk)" v 0]
        in \<open>auto simp: worker_tick_def l1_direct_set_def sizes_other\<close>)
  qed
qed

lemma load_exec_safe:
  assumes "load_inv B cont cfg s" and "load_event_ok ev"
  shows "\<exists>s'. load_exec B wt cfg ev s = Some s' \<and> load_inv B cont cfg s'"
proof -
  have inv: "badger_ok B cont" "load_cfg_ok cfg" "ready (ls_cache s)" "sizes_add_up cfg (ls_stats s)"
    using assms(1) by (simp_all add: load_inv_def)
  show ?thesis
  proof (cases ev)
    case (Tick i r)
    show ?thesis
      using worker_tick_safe [OF inv, of wt "ls_world s" "ls_workers s ! i" r "ls_disk s"] Tick assms(1)
      by (auto simp: load_inv_def)
  next
    case (Background e)
    show ?thesis
      using tiered_exec_safe [OF inv(1,3), of e wt "ls_disk s" "ls_world s"] Background assms
      by (auto simp: load_inv_def)
  qed (use assms(1) in \<open>auto simp: load_inv_def\<close>)
qed

interpretation lt: safe_machine "load_exec B wt cfg" "load_inv B cont cfg" load_event_ok for B wt cfg cont
  by unfold_locales (rule load_exec_safe)

subsection \<open>Whole runs\<close>

text \<open>The rounds of a kind that end in a run: a step of such a worker that leaves it at its \<^verbatim>\<open>select\<close>.\<close>

fun ends_round :: "worker_kind \<Rightarrow> load_event \<Rightarrow> ('db, 'w) load_state \<Rightarrow> ('db, 'w) load_state \<Rightarrow> bool" where
  "ends_round k (Tick i r) s s' \<longleftrightarrow> i < length (ls_workers s) \<and> lw_at (ls_workers s ! i) \<noteq> Returned \<and>
     counted_together k (lw_kind (ls_workers s ! i)) \<and> lw_at (ls_workers s' ! i) = AtSelect"
| "ends_round k _ s s' \<longleftrightarrow> False"

fun rounds_ended ::
    "'db badger \<Rightarrow> (int \<Rightarrow> string) \<Rightarrow> LoadTestConfig \<Rightarrow> worker_kind \<Rightarrow> load_event list \<Rightarrow>
     ('db, 'w) load_state \<Rightarrow> nat" where
  "rounds_ended B wt cfg k [] s = 0"
| "rounds_ended B wt cfg k (e # es) s =
     (case load_exec B wt cfg e s of
        None \<Rightarrow> 0
      | Some s' \<Rightarrow> (if ends_round k e s s' then 1 else 0) + rounds_ended B wt cfg k es s')"

lemma load_exec_counts:
  assumes "load_exec B wt cfg e s = Some s'"
  shows "rounds_counted k (ls_stats s') = rounds_counted k (ls_stats s) + (if ends_round k e s s' then 1 else 0)"
proof (cases e)
  case (Tick i r)
  show ?thesis
  proof (cases "i < length (ls_workers s) \<and> lw_at (ls_workers s ! i) \<noteq> Returned")
    case True
    then obtain c d st p where t: "worker_tick B wt cfg (ls_world s) (ls_workers s ! i) r
          (ls_cache s, ls_disk s, ls_stats s) = Some (c, d, st, p)"
        "s' = s\<lparr>ls_cache := c, ls_disk := d, ls_stats := st, ls_workers := put_worker i p (ls_workers s)\<rparr>"
      using assms Tick by auto
    show ?thesis using worker_tick_counts(2) [OF t(1), of k] t(2) Tick True by (simp add: put_worker_def)
  qed (use assms Tick in auto)
qed (use assms in auto)

lemma run_counts:
  "run_events (load_exec B wt cfg) es s = Some s' \<Longrightarrow>
   rounds_counted k (ls_stats s') = rounds_counted k (ls_stats s) + of_nat (rounds_ended B wt cfg k es s)"
proof (induction es arbitrary: s)
  case (Cons e es)
  then obtain s1 where s1: "load_exec B wt cfg e s = Some s1" "run_events (load_exec B wt cfg) es s1 = Some s'"
    by (auto split: option.split_asm)
  show ?case using Cons.IH [OF s1(2)] load_exec_counts [OF s1(1), of k] s1(1) by (simp add: algebra_simps)
qed simp

lemma run_events_append:
  "run_events exec (es @ fs) s = Option.bind (run_events exec es s) (run_events exec fs)"
  by (induction es arbitrary: s) (simp_all split: option.split)

lemma load_inv_init:
  assumes "badger_ok B cont" and "load_cfg_ok cfg" and "ready c"
  shows "load_inv B cont cfg (load_init cfg c d w)"
proof -
  have "map_of (map (\<lambda>n. (n, newSizeStats)) xs) n = (if n \<in> set xs then Some newSizeStats else None)"
    for xs and n :: int by (induction xs) auto
  then show ?thesis
    using assms
    by (auto simp: load_inv_def load_init_def sizes_add_up_def newLoadTestStats_def
        split: if_split_asm) (simp add: newSizeStats_def)
qed

definition worker_pending :: "load_worker \<Rightarrow> nat" where
  "worker_pending wk = (case lw_at wk of AtSelect \<Rightarrow> 1 | AfterSet key payload \<Rightarrow> 2 | Returned \<Rightarrow> 0)"

lemma worker_tick_resumed:
  assumes "worker_tick B wt cfg w wk r (c, d, st) = Some (c', d', st', p)"
    and "lw_at wk = AfterSet key payload"
  shows "p = AtSelect"
  using assms by (cases "lw_kind wk") (simp_all add: worker_tick_def bind_eq_Some_conv case_prod_unfold, blast+)

lemma pending_update:
  assumes "i < length ws" and "worker_pending ((ws ! i)\<lparr>lw_at := p\<rparr>) < worker_pending (ws ! i)"
  shows "(\<Sum>wk\<leftarrow>put_worker i p ws. worker_pending wk) < (\<Sum>wk\<leftarrow>ws. worker_pending wk)"
  using sum_list_update_add [OF assms(1), of worker_pending "(ws ! i)\<lparr>lw_at := p\<rparr>"] assms(2)
  by (simp add: put_worker_def)

lemma stopped_run_ends:
  "load_inv B cont cfg s \<Longrightarrow> ls_cancelled s \<Longrightarrow>
   \<exists>es s'. list_all load_event_ok es \<and> run_events (load_exec B wt cfg) es s = Some s' \<and> all_returned s'"
proof (induction "\<Sum>wk\<leftarrow>ls_workers s. worker_pending wk" arbitrary: s rule: less_induct)
  case less
  show ?case
  proof (cases "all_returned s")
    case True
    then show ?thesis by (intro exI [of _ "[]"]) simp
  next
    case False
    then obtain i where i: "i < length (ls_workers s)" "lw_at (ls_workers s ! i) \<noteq> Returned"
      by (auto simp: all_returned_def list_all_length)
    have "\<exists>e s1. load_event_ok e \<and> load_exec B wt cfg e s = Some s1 \<and> ls_cancelled s1 \<and>
        (\<Sum>wk\<leftarrow>ls_workers s1. worker_pending wk) < (\<Sum>wk\<leftarrow>ls_workers s. worker_pending wk)"
    proof (cases "lw_at (ls_workers s ! i)")
      case AtSelect
      then show ?thesis
        using i less.prems(2) pending_update [OF i(1), of Returned]
        by (intro exI [of _ "Leave i"]) (simp add: worker_pending_def)
    next
      case (AfterSet key payload)
      define r :: draws where "r = undefined"
      obtain s1 where s1: "load_exec B wt cfg (Tick i r) s = Some s1"
        using lt.exec_safe [OF less.prems(1), of "Tick i r"] by auto
      then obtain c d st p where t: "worker_tick B wt cfg (ls_world s) (ls_workers s ! i) r
            (ls_cache s, ls_disk s, ls_stats s) = Some (c, d, st, p)"
          "s1 = s\<lparr>ls_cache := c, ls_disk := d, ls_stats := st, ls_workers := put_worker i p (ls_workers s)\<rparr>"
        using i by auto
      have "p = AtSelect" by (rule worker_tick_resumed [OF t(1) AfterSet])
      then show ?thesis
        using s1 t(2) less.prems(2) pending_update [OF i(1), of AtSelect] AfterSet
        by (intro exI [of _ "Tick i r"]) (simp add: worker_pending_def)
    qed (use i in simp)
    then obtain e s1 where e: "load_event_ok e" "load_exec B wt cfg e s = Some s1" "ls_cancelled s1"
        "(\<Sum>wk\<leftarrow>ls_workers s1. worker_pending wk) < (\<Sum>wk\<leftarrow>ls_workers s. worker_pending wk)"
      by blast
    have "load_inv B cont cfg s1" using lt.exec_safe [OF less.prems(1) e(1), of wt] e(2) by auto
    from less.hyps [OF e(4) this e(3)] obtain es s' where
        "list_all load_event_ok es" "run_events (load_exec B wt cfg) es s1 = Some s'" "all_returned s'"
      by blast
    then show ?thesis using e(1,2) by (intro exI [of _ "e # es"]) auto
  qed
qed


text \<open>
  The load test can always end: whatever has happened, once the duration is over or a signal
  has come there is a way for all workers to return, in which the rounds that were interrupted are
  completed; so \<^verbatim>\<open>wg.Wait\<close> never waits for a worker that cannot go on.
\<close>

theorem load_test_can_end:
  assumes "Initialize B mk oor senv sdir clk rv d0 c0 c rb None" and "badger_ok B cont" and "load_cfg_ok cfg"
    and "list_all load_event_ok evs"
  shows "\<exists>es s. list_all load_event_ok es \<and>
    run_events (load_exec B wt cfg) (evs @ Stop # es) (load_init cfg c d w) = Some s \<and> all_returned s"
proof -
  have "load_inv B cont cfg (load_init cfg c d w)"
    by (rule load_inv_init [OF assms(2,3)]) (use Initialize_ready [OF assms(1,2)] in blast)
  from lt.run_safe [OF this assms(4)] obtain s where
      s: "run_events (load_exec B wt cfg) evs (load_init cfg c d w) = Some s" "load_inv B cont cfg s"
    by blast
  have "load_inv B cont cfg (s\<lparr>ls_cancelled := True\<rparr>)" using s(2) by (simp add: load_inv_def)
  from stopped_run_ends [OF this, of wt] show ?thesis using s(1) by (auto simp: run_events_append)
qed

lemma parsed_sizes: "snd (parsed_flags fs) = cfg \<Longrightarrow> lc_PayloadSizes cfg = [2, 4]"
proof -
  have "lc_PayloadSizes (snd (set_flag f x)) = lc_PayloadSizes (snd x)" for f x
    by (cases x; cases f) simp_all
  then have "lc_PayloadSizes (snd (fold set_flag fs x)) = lc_PayloadSizes (snd x)" for x
    by (induction fs arbitrary: x) simp_all
  then show "snd (parsed_flags fs) = cfg \<Longrightarrow> lc_PayloadSizes cfg = [2, 4]"
    by (auto simp: parsed_flags_def default_load_config_def)
qed

lemma tick_without_keys:
  assumes "lc_KeyRange cfg \<le> 0" and "lw_at wk = AtSelect"
  shows "worker_tick B wt cfg w wk r s = None"
  using assms by (cases s; cases "lw_kind wk") (simp_all add: worker_tick_def Intn_def split: Option.bind_split)

text \<open>
  When the workers can panic: exactly if there is a worker and the range of keys is not positive. (A
  negative number of workers starts none, and a percentage of misses outside 0 to 100 is harmless.)
\<close>

lemma workers_panic_iff:
  assumes "Initialize B mk oor senv sdir clk rv d0 c0 c rb None" and "badger_ok B cont"
    and "parsed_flags fs = (path, cfg)"
  shows "(\<exists>evs. list_all load_event_ok evs \<and>
      run_events (load_exec B wt cfg) evs (load_init cfg c d w) = None) \<longleftrightarrow>
    lc_KeyRange cfg \<le> 0 \<and> ls_workers (load_init cfg c d w) \<noteq> []"
proof (intro iffI conjI)
  assume "\<exists>evs. list_all load_event_ok evs \<and> run_events (load_exec B wt cfg) evs (load_init cfg c d w) = None"
  then obtain evs where evs: "list_all load_event_ok evs"
      "run_events (load_exec B wt cfg) evs (load_init cfg c d w) = None" by blast
  have ready: "ready c" using Initialize_ready [OF assms(1,2)] by blast
  have sizes: "lc_PayloadSizes cfg = [2, 4]" using parsed_sizes [of fs cfg] assms(3) by simp
  show "lc_KeyRange cfg \<le> 0"
  proof (rule ccontr)
    assume "\<not> lc_KeyRange cfg \<le> 0"
    then have "load_cfg_ok cfg" using sizes by (simp add: load_cfg_ok_def)
    from lt.run_safe [OF load_inv_init [OF assms(2) this ready, of d w] evs(1), of wt] evs(2) show False by auto
  qed
  show "ls_workers (load_init cfg c d w) \<noteq> []"
  proof
    assume none: "ls_workers (load_init cfg c d w) = []"
    have "\<exists>s'. run_events (load_exec B wt cfg) evs s = Some s'"
      if "list_all load_event_ok evs" "ready (ls_cache s)" "ls_workers s = []" for evs and s :: "('a, 'e) load_state"
      using that
    proof (induction evs arbitrary: s)
      case (Cons e evs)
      have "\<exists>s1. load_exec B wt cfg e s = Some s1 \<and> ready (ls_cache s1) \<and> ls_workers s1 = []"
      proof (cases e)
        case (Background ev)
        then show ?thesis
          using tiered_exec_safe [OF assms(2) Cons.prems(2), of ev wt "ls_disk s" "ls_world s"] Cons.prems by auto
      qed (use Cons.prems in auto)
      then show ?case using Cons by auto
    qed simp
    from this [OF evs(1), of "load_init cfg c d w"] none evs(2) ready show False by (simp add: load_init_def)
  qed
next
  assume bad: "lc_KeyRange cfg \<le> 0 \<and> ls_workers (load_init cfg c d w) \<noteq> []"
  have "lw_at wk = AtSelect" if "wk \<in> set (ls_workers (load_init cfg c d w))" for wk
    using that by (auto simp: load_init_def spawn_def)
  then have "lw_at (ls_workers (load_init cfg c d w) ! 0) = AtSelect" using bad by (simp add: nth_mem)
  then have "run_events (load_exec B wt cfg) [Tick 0 undefined] (load_init cfg c d w) = None"
    using bad by (simp add: tick_without_keys)
  then show "\<exists>evs. list_all load_event_ok evs \<and>
      run_events (load_exec B wt cfg) evs (load_init cfg c d w) = None"
    by (intro exI [of _ "[Tick 0 undefined]"]) simp
qed

lemma no_workers:
  "ls_workers (load_init cfg c d w) = [] \<longleftrightarrow> lc_WriteWorkers cfg \<le> 0 \<and> lc_ReadWorkers cfg \<le> 0 \<and>
    lc_MissWorkers cfg \<le> 0 \<and> lc_VerifyWorkers cfg \<le> 0 \<and> lc_L1DirectWorkers cfg \<le> 0"
  by (simp add: load_init_def spawn_def)

lemma exit_2: "exit_status res = 2 \<longleftrightarrow> res = LoadPanic"
  by (cases res) simp_all


text \<open>A cache that was initialised, and draws, for the witnesses.\<close>

definition demo_started :: "(mem_db, unit) tiered_cache \<Rightarrow> wal_disk \<Rightarrow> bool" where
  "demo_started c d \<longleftrightarrow> (\<exists>c0 rb. Initialize mem_badger (\<lambda>p. None) (\<lambda>x. 0) undefined [] (\<lambda>n. at_sec 0) demo_env d c0
     c rb None)"

lemma demo_starts: "\<exists>c d. demo_started c d"
proof -
  obtain d and c0 c :: "(mem_db, unit) tiered_cache" and rb
    where "Initialize mem_badger (\<lambda>p. None) (\<lambda>x. 0) undefined [] (\<lambda>n. at_sec 0) demo_env d c0 c rb None"
    by (rule demo_installation)
  then show ?thesis by (auto simp: demo_started_def)
qed

definition demo_draws :: draws where
  "demo_draws = \<lparr>dr_size = 1, dr_key = 7, dr_percent = 50, dr_bytes = (\<lambda>n. replicate n 1), dr_wenv = demo_wenv,
     dr_now = (\<lambda>n. at_sec 0), dr_nano = 1, dr_latency = 5\<rparr>"

lemma default_cfg_ok: "load_cfg_ok default_load_config"
  by (simp add: load_cfg_ok_def default_load_config_def)


theorem load_test_can_end_witness:
  "\<exists>c d es s. demo_started c d \<and>
    run_events (load_exec mem_badger demo_wt default_load_config) ([Tick 25 demo_draws] @ Stop # es)
      (load_init default_load_config c d ()) = Some s \<and> all_returned s"
proof -
  obtain c d where c: "demo_started c d" using demo_starts by blast
  then obtain c0 rb where "Initialize mem_badger (\<lambda>p. None) (\<lambda>x. 0) undefined [] (\<lambda>n. at_sec 0) demo_env d c0
     c rb None" by (auto simp: demo_started_def)
  note start = this
  have "list_all load_event_ok [Tick 25 demo_draws]" by simp
  from load_test_can_end [OF start mem_badger_ok default_cfg_ok this, where wt = demo_wt and d = d and w = "()"]
  show ?thesis using c by blast
qed

text \<open>A file system whose only file holds the default configuration.\<close>

definition demo_file :: "unit config_env" where
  "demo_file = \<lparr>ce_missing = (\<lambda>p fs. False), ce_read = (\<lambda>p fs. Inr []), ce_mkdir = (\<lambda>p fs. (fs, None)),
     ce_write = (\<lambda>p data fs. (fs, None)), ce_unmarshal = (\<lambda>data. Inr (DefaultConfig 4)),
     ce_marshal = (\<lambda>cfg. Inr [])\<rparr>"


end
