(* ===== verification/LoadTest_Report_Props.thy ===== *)
theory LoadTest_Report_Props
  imports LoadTest_Run_Props
begin

text \<open>
  The rates the load test prints: rounding to a float is monotone, so a rate computed from two
  counters stays between 0 and 100 per cent; where the code divides without a test, it prints NaN.
\<close>

subsection \<open>Rounding is monotone\<close>

lemma rat_exponent_less:
  assumes "0 < x"
  shows "x < 2 powi (rat_exponent x + 1)"
proof -
  obtain a b where q: "quotient_of x = (a, b)" by fastforce
  have b: "0 < b" using quotient_of_denom_pos [OF q] .
  have x: "x = of_int a / of_int b" using quotient_of_div [OF q] .
  have a: "0 < a" using assms b x by (simp add: zero_less_divide_iff)
  have "x < 2 powi bitlen a / 2 powi (bitlen b - 1)"
    unfolding x using pow2_bitlen [OF a] pow2_bitlen [OF b] a b by (intro frac_less) auto
  also have "\<dots> = 2 powi (bitlen a - bitlen b + 1)" by (simp add: power_int_diff power_int_add)
  finally show ?thesis by (auto simp: rat_exponent_def q Let_def)
qed

lemma rat_exponent_mono:
  assumes "0 < x" and "x \<le> y"
  shows "rat_exponent x \<le> rat_exponent y"
proof -
  have "2 powi rat_exponent x < (2 powi (rat_exponent y + 1) :: rat)"
    using rat_exponent_le [OF assms(1)] rat_exponent_less [of y] assms by linarith
  moreover have "2 powi (rat_exponent y + 1) \<le> (2 powi rat_exponent x :: rat)"
    if "rat_exponent y + 1 \<le> rat_exponent x" using that by (intro power_int_increasing) simp_all
  ultimately show ?thesis by (meson not_le zle_add1_eq_le)
qed

lemma round_half_even_mono:
  assumes "x \<le> y"
  shows "round_half_even x \<le> round_half_even y"
proof -
  have near: "\<lfloor>z\<rfloor> \<le> round_half_even z" "round_half_even z \<le> \<lfloor>z\<rfloor> + 1" for z
    by (simp_all add: round_half_even_def Let_def)
  consider "\<lfloor>x\<rfloor> = \<lfloor>y\<rfloor>" | "\<lfloor>x\<rfloor> + 1 \<le> \<lfloor>y\<rfloor>" using floor_mono [OF assms] by linarith
  then show ?thesis
  proof cases
    case 1
    then show ?thesis using assms by (auto simp: round_half_even_def Let_def)
  next
    case 2
    then show ?thesis using near(2) [of x] near(1) [of y] by linarith
  qed
qed

lemma round_half_even_int [simp]: "round_half_even (of_int i) = i"
  by (simp add: round_half_even_def)

lemma f64_round_mono:
  assumes "0 \<le> x" and "x \<le> y"
  shows "f64_round x \<le> f64_round y"
proof (cases "x = 0")
  case True
  then show ?thesis using f64_round_nonneg [of y] assms by (simp add: f64_round_def)
next
  case False
  define e f where "e = rat_exponent x" and "f = rat_exponent y"
  have pos: "0 < x" "0 < y" using False assms by simp_all
  have rx: "f64_round x = of_int (round_half_even (x * 2 powi (52 - e))) * 2 powi (e - 52)"
    and ry: "f64_round y = of_int (round_half_even (y * 2 powi (52 - f))) * 2 powi (f - 52)"
    using pos by (simp_all add: f64_round_def Let_def e_def f_def)
  have "e \<le> f" unfolding e_def f_def using rat_exponent_mono [OF pos(1) assms(2)] .
  then consider "e = f" | "e + 1 \<le> f" by linarith
  then show ?thesis
  proof cases
    case 1
    have "x * 2 powi (52 - f) \<le> y * 2 powi (52 - f)" using assms(2) by (rule mult_right_mono) simp
    from round_half_even_mono [OF this] show ?thesis unfolding rx ry 1 by (simp add: mult_right_mono)
  next
    case 2
    have "x * 2 powi (52 - e) \<le> 2 powi (e + 1) * 2 powi (52 - e)"
      using rat_exponent_less [OF pos(1)] by (simp add: e_def mult_right_mono less_imp_le)
    also have "\<dots> = of_int (2 ^ 53)" by (simp flip: power_int_add)
    finally have "round_half_even (x * 2 powi (52 - e)) \<le> 2 ^ 53"
      using round_half_even_mono round_half_even_int by metis
    then have "f64_round x \<le> of_int (2 ^ 53) * 2 powi (e - 52)"
      unfolding rx by (intro mult_right_mono) (simp_all only: of_int_le_iff, simp)
    also have "\<dots> = 2 powi (e + 1)" by (simp add: power_int_diff power_int_add)
    also have "\<dots> \<le> 2 powi f" using 2 by (intro power_int_increasing) simp_all
    also have "\<dots> = of_int (2 ^ 52) * 2 powi (f - 52)" by (simp add: power_int_diff)
    also have "\<dots> \<le> f64_round y"
    proof -
      have "of_int (2 ^ 52) = (2 powi f * 2 powi (52 - f) :: rat)" by (simp flip: power_int_add)
      also have "\<dots> \<le> y * 2 powi (52 - f)"
        using rat_exponent_le [OF pos(2)] by (simp add: f_def mult_right_mono)
      finally have "2 ^ 52 \<le> round_half_even (y * 2 powi (52 - f))"
        using round_half_even_mono round_half_even_int by metis
      then show ?thesis unfolding ry by (intro mult_right_mono) (simp_all only: of_int_le_iff, simp)
    qed
    finally show ?thesis .
  qed
qed

lemma f64_round_small: "f64_round 1 = 1" "f64_round 100 = 100"
  by code_simp+

subsection \<open>Percentages\<close>

definition percentage :: "f64 \<Rightarrow> bool" where
  "percentage v \<longleftrightarrow> (\<exists>x. v = F64 x \<and> 0 \<le> x \<and> x \<le> 100)"

lemma success_rate_percentage:
  assumes "uint good + uint bad < 2 ^ 64"
  shows "percentage (success_rate good bad)"
proof (cases "0 < good + bad")
  case True
  define a b where "a = f64_round (of_int (uint good))" and "b = f64_round (of_int (uint (good + bad)))"
  have total: "uint (good + bad) = uint good + uint bad" using assms by (simp add: uint_plus_if')
  have nonneg: "0 \<le> (of_int (uint good) :: rat)" "(of_int (uint good) :: rat) \<le> of_int (uint good + uint bad)"
    by (simp_all only: of_int_0_le_iff of_int_le_iff uint_nonnegative) simp
  have ab: "0 \<le> a" "a \<le> b"
    unfolding a_def b_def total by (rule f64_round_nonneg [OF nonneg(1)], rule f64_round_mono [OF nonneg])
  have "1 \<le> uint (good + bad)" using True by (simp add: word_less_def)
  then have "of_int 1 \<le> (of_int (uint (good + bad)) :: rat)" by (simp only: of_int_le_iff)
  then have "f64_round (of_int 1) \<le> b" unfolding b_def by (intro f64_round_mono) simp_all
  then have b: "1 \<le> b" by (simp add: f64_round_small)
  define q where "q = f64_round (a / b)"
  have "0 \<le> a / b" "a / b \<le> 1" using ab b by simp_all
  then have q: "0 \<le> q" "q \<le> 1"
    unfolding q_def using f64_round_nonneg f64_round_mono [of "a / b" 1] by (simp_all add: f64_round_small)
  have "0 \<le> f64_round (q * 100)" "f64_round (q * 100) \<le> 100"
    using q f64_round_nonneg [of "q * 100"] f64_round_mono [of "q * 100" 100] by (simp_all add: f64_round_small)
  moreover have "success_rate good bad = F64 (f64_round (q * 100))"
  proof -
    have "f64_of_int (uint good) = F64 a" "f64_of_int (uint (good + bad)) = F64 b" "f64_of_int 100 = F64 100"
      by (simp_all only: f64_of_int_def a_def b_def) (simp add: f64_round_small)
    then show ?thesis using True b by (simp add: success_rate_def percent_of_def q_def)
  qed
  ultimately show ?thesis by (auto simp: percentage_def)
qed (simp add: success_rate_def percentage_def)

text \<open>
  The rates in the final results: the read hit rate and the verification rates are percentages,
  always between 0 and 100 and never NaN, as long as the counters do not wrap; but the hit rate of
  L1 is printed as NaN when L1 was never asked, which the code does not test for.
\<close>

theorem printed_rates:
  assumes "uint (lt_TotalReads stats) + uint (lt_TotalMisses stats) < 2 ^ 64"
    and "uint (lt_VerificationSuccess stats) + uint (lt_VerificationFailure stats) < 2 ^ 64"
    and "uint (lt_L1DirectVerifySuccess stats) + uint (lt_L1DirectVerifyFailure stats) < 2 ^ 64"
  shows "(\<forall>v. (''  Read Hit Rate: %.2f%%'', [v]) \<in> set (printFinalStats elapsed B stats c sizes) \<or>
        (''  Verification Rate: %.2f%%'', [v]) \<in> set (printFinalStats elapsed B stats c sizes) \<longrightarrow>
      (\<exists>x. v = PFloat x \<and> percentage x)) \<and>
    (s1_Hits (cs_L1 (cache_stats_of B c)) = 0 \<and> s1_Misses (cs_L1 (cache_stats_of B c)) = 0 \<longrightarrow>
      (''  Hit Rate: %.2f%%'', [PFloat F64_NaN]) \<in> set (printFinalStats elapsed B stats c sizes))"
proof -
  have no_size: "(fmt, [v]) \<notin> set (concat (map (size_line elapsed get stats) sizes))" for fmt v get
    by (auto simp: size_line_def split: option.split_asm prod.split_asm if_split_asm)
  have no_header: "(fmt, [v]) \<notin> set size_header" for fmt v by (simp add: size_header_def)
  have cache: "(''  Read Hit Rate: %.2f%%'', [v]) \<notin> set (final_cache_lines cs)"
      "(''  Verification Rate: %.2f%%'', [v]) \<notin> set (final_cache_lines cs)" for v cs
    by (simp_all add: final_cache_lines_def Let_def)
  have verify: "(''  Read Hit Rate: %.2f%%'', [v]) \<notin> set (verification_lines t a b)"
      "t \<noteq> ''  Verification Rate: %.2f%%'' \<Longrightarrow>
       (''  Verification Rate: %.2f%%'', [v]) \<in> set (verification_lines t a b) \<Longrightarrow> v = PFloat (success_rate a b)"
    for v t a b by (auto simp: verification_lines_def split: if_split_asm)
  have "(''  Read Hit Rate: %.2f%%'', [v]) \<in> set (printFinalStats elapsed B stats c sizes) \<Longrightarrow>
      v = PFloat (success_rate (lt_TotalReads stats) (lt_TotalMisses stats))" for v
    using no_size no_header cache verify by (simp add: printFinalStats_def Let_def del: set_concat)
  moreover have "(''  Verification Rate: %.2f%%'', [v]) \<in> set (printFinalStats elapsed B stats c sizes) \<Longrightarrow>
      v = PFloat (success_rate (lt_VerificationSuccess stats) (lt_VerificationFailure stats)) \<or>
      v = PFloat (success_rate (lt_L1DirectVerifySuccess stats) (lt_L1DirectVerifyFailure stats))" for v
    using no_size no_header cache
    by (auto simp: printFinalStats_def Let_def simp del: set_concat dest!: verify(2) [rotated])
  moreover have "(''  Hit Rate: %.2f%%'', [PFloat (percent_of (s1_Hits s1) (s1_Hits s1 + s1_Misses s1))]) \<in>
      set (printFinalStats elapsed B stats c sizes)" if "s1 = cs_L1 (cache_stats_of B c)" for s1
    using that by (simp add: printFinalStats_def final_cache_lines_def Let_def del: set_concat)
  moreover have "percent_of 0 0 = F64_NaN" by (simp add: percent_of_def f64_of_int_def f64_round_def)
  ultimately show ?thesis using assms success_rate_percentage by (metis add_0_right)
qed

theorem printed_rates_witness:
  "\<exists>c :: (mem_db, unit) tiered_cache. \<not> tc_closed c \<and>
    (''  Hit Rate: %.2f%%'', [PFloat F64_NaN]) \<in> set (printFinalStats 1 mem_badger (newLoadTestStats [2, 4]) c [2, 4])"
proof -
  define c :: "(mem_db, unit) tiered_cache" where "c = \<lparr>tc_l0 = None, tc_l1 = None, tc_l2 = None,
    tc_recovery = None, tc_cfg = DefaultConfig 4, tc_closed = False, tc_initializing = False,
    tc_initialized = True, tc_cancelled = False, tc_promotions = []\<rparr>"
  have "s1_Hits (cs_L1 (cache_stats_of mem_badger c)) = 0" "s1_Misses (cs_L1 (cache_stats_of mem_badger c)) = 0"
    by (simp_all add: cache_stats_of_def Tiered_Stats_def c_def zero_l1_stats_def)
  moreover have "uint (lt_TotalReads (newLoadTestStats [2, 4])) + uint (lt_TotalMisses (newLoadTestStats [2, 4])) < 2 ^ 64"
    "uint (lt_VerificationSuccess (newLoadTestStats [2, 4])) + uint (lt_VerificationFailure (newLoadTestStats [2, 4])) < 2 ^ 64"
    "uint (lt_L1DirectVerifySuccess (newLoadTestStats [2, 4])) + uint (lt_L1DirectVerifyFailure (newLoadTestStats [2, 4]))
      < 2 ^ 64"
    by (simp_all add: newLoadTestStats_def)
  note printed_rates [OF this, of 1 mem_badger c "[2, 4]"]
  ultimately show ?thesis by (intro exI [of _ c]) (simp add: c_def)
qed

end
